theory Spec2Isabelle
  imports Complex_Main
begin

section \<open>Numbers and errors\<close>

text \<open>
  The Go sources compute on \<^verbatim>\<open>float64\<close>.  Here a \<^verbatim>\<open>float64\<close> is an exact real number:
  rounding, overflow and the IEEE special values are not represented, so
  \<^verbatim>\<open>math.IsNaN\<close> and \<^verbatim>\<open>math.IsInf\<close> are constantly false, and a quotient with divisor
  zero has HOL's value \<open>0\<close> where IEEE gives an infinity or a NaN.  Every closed
  theorem below is stated at inputs where no divisor is zero and no square root has a
  negative argument.
\<close>

type_synonym float64 = real

definition IsNaN :: "float64 \<Rightarrow> bool" where
  "IsNaN x = False"

definition IsInf :: "float64 \<Rightarrow> bool" where
  "IsInf x = False"

text \<open>
  \<^verbatim>\<open>math.Pow(x, y)\<close>: the integer power for an integral exponent (also for a negative
  base), the real power otherwise.
\<close>

definition math_Pow :: "float64 \<Rightarrow> float64 \<Rightarrow> float64" where
  "math_Pow x y = (if y \<in> \<int> then x powi \<lfloor>y\<rfloor> else x powr y)"

text \<open>
  An error of the Go code is a value.  \<open>LoadError\<close> stands for whatever error the
  one-shot loader of an embedded coefficient file returns; the other constructors are
  the messages of the sources.
\<close>

datatype error =
    LoadError
  | InvalidTemperature
  | Region4NegativeDiscriminant
  | InvalidPressure
  | Region4InversionNegativeDiscriminant
  | Region4InversionNegativeInnerDiscriminant
  | TemperatureBelowAbsoluteZero
  | PressureMustBePositive
  | Region1NotApplicableT
  | Region1NotApplicableP
  | Region1NotApplicablePsat
  | Region1SpeedOfSoundFailed
  | Region1NonFinite
  | Region1InvalidPhysicalResult
  | Region1HeatCapacitiesNonPositive
  | Region2NotApplicableTBelow
  | Region2NotApplicableTAbove
  | Region2NotApplicableP
  | Region2NotApplicablePsat
  | Region2NonFinite
  | Region2InvalidPhysicalResult
  | Region2HeatCapacitiesNonPositive
  | Region5NotApplicableT
  | Region5NotApplicableP
  | InvalidFunctionValues
  | NoSignChangeInBracket
  | BisectionDidNotConverge
  | Region3EnthalpyOutOfRange
  | Region3EntropyOutOfRange
  | Region3aInvalidPressure
  | Region3bInvalidDenominator
  | Region3bInvalidPressure
  | Region3HSInvalidVolume
  | Region3HSTpsFailed
  | Region3HSInvalidDTds
  | Region3HSInvalidCompressibility
  | Region3HSNonPhysical

section \<open>Region 4: the saturation line\<close>

text \<open>
  \<^verbatim>\<open>loadOnce\<close> fills the package variable \<^verbatim>\<open>n\<close> (eleven cells, used 1-based) from the
  embedded file, or returns an error.  The file is not part of the sources, so the
  outcome of the load is a parameter: \<open>Inl e\<close> when it failed, \<open>Inr n\<close> with the
  coefficient array otherwise.
\<close>

type_synonym coeffs = "nat \<Rightarrow> float64"

definition SaturationPressure :: "error + coeffs \<Rightarrow> float64 \<Rightarrow> error + float64" where
  "SaturationPressure ld T =
     (case ld of
        Inl e \<Rightarrow> Inl e
      | Inr n \<Rightarrow>
          if T \<le> 0 then Inl InvalidTemperature
          else
            let theta = T + n 9 / (T - n 10);
                A = theta * theta + n 1 * theta + n 2;
                B = n 3 * theta * theta + n 4 * theta + n 5;
                C = n 6 * theta * theta + n 7 * theta + n 8;
                disc = B * B - 4 * A * C
            in if disc < 0 then Inl Region4NegativeDiscriminant
               else
                 let sqrtDisc = sqrt disc;
                     x = (2 * C) / (- B + sqrtDisc);
                     p = 1000000 * math_Pow x 4
                 in Inr p)"

definition SaturationTemperature :: "error + coeffs \<Rightarrow> float64 \<Rightarrow> error + float64" where
  "SaturationTemperature ld p =
     (case ld of
        Inl e \<Rightarrow> Inl e
      | Inr n \<Rightarrow>
          if p \<le> 0 then Inl InvalidPressure
          else
            let beta = math_Pow (p / 1000000) 0.25;
                E = beta * beta + n 3 * beta + n 6;
                F = n 1 * beta * beta + n 4 * beta + n 7;
                G = n 2 * beta * beta + n 5 * beta + n 8;
                disc = F * F - 4 * E * G
            in if disc < 0 then Inl Region4InversionNegativeDiscriminant
               else
                 let sqrtDisc = sqrt disc;
                     D = (2 * G) / (- F - sqrtDisc);
                     y = n 10 + D;
                     inner = y * y - 4 * (n 9 + n 10 * D)
                 in if inner < 0 then Inl Region4InversionNegativeInnerDiscriminant
                    else Inr (0.5 * (y - sqrt inner)))"

text \<open>
  The ten coefficients of the saturation equation in the IAPWS-IF97 release, which the
  embedded file carries.  They instantiate the parameter in the closed theorems and in
  the theorem on the return trip along the saturation line, which depends on their
  values.
\<close>

definition n_IF97 :: coeffs where
  "n_IF97 i =
     [0,
      1167.0521452767, -724213.16703206, -17.073846940092, 12020.824702470,
      -3232555.0322333, 14.915108613530, -4823.2657361591, 405113.40542057,
      -0.23855557567849, 650.17534844798] ! i"


section \<open>The B23 boundary and the region classifier\<close>

text \<open>
  \<^verbatim>\<open>B23T\<close> fails only when its coefficient file fails to load; the outcome of that
  load is again a parameter.
\<close>

definition B23T :: "error + coeffs \<Rightarrow> float64 \<Rightarrow> error + float64" where
  "B23T ld pMPa =
     (case ld of
        Inl e \<Rightarrow> Inl e
      | Inr n \<Rightarrow> Inr (n 1 + n 2 * pMPa + n 3 * pMPa * pMPa))"

datatype Region = RegionAuto | Region1 | Region2 | Region3 | Region4 | Region5

text \<open>
  \<^verbatim>\<open>RegionFromTP(T, p)\<close>, with \<open>T\<close> in K and \<open>p\<close> in Pa.  \<open>rest\<close> is the code after the
  saturation test, reached when \<open>T \<ge> 647.096\<close> or when the saturation pressure returned
  an error.
\<close>

definition RegionFromTP :: "error + coeffs \<Rightarrow> error + coeffs \<Rightarrow> float64 \<Rightarrow> float64 \<Rightarrow> Region" where
  "RegionFromTP ld4 ldb T p =
     (let rest =
            (case B23T ldb (p / 1000000) of
               Inr T23 \<Rightarrow> if T \<ge> T23 then Region2 else Region3
             | Inl e \<Rightarrow> if p \<ge> 16529200 then Region3 else Region2)
      in if T > 1073.15 then Region5
         else if T < 647.096 then
           (case SaturationPressure ld4 T of
              Inr psat \<Rightarrow> if p \<ge> psat then Region1 else Region2
            | Inl e \<Rightarrow> rest)
         else rest)"

section \<open>The quantities of the specification's saturation equations\<close>

text \<open>
  The specification writes the forward equation with \<open>\<theta> = T + n\<^sub>9 / (T - n\<^sub>1\<^sub>0)\<close>,
  \<open>A = \<theta>\<^sup>2 + n\<^sub>1 \<theta> + n\<^sub>2\<close>, \<open>B = n\<^sub>3 \<theta>\<^sup>2 + n\<^sub>4 \<theta> + n\<^sub>5\<close>, \<open>C = n\<^sub>6 \<theta>\<^sup>2 + n\<^sub>7 \<theta> + n\<^sub>8\<close>.
  These definitions follow its words; the theorems compare them with the functions
  translated from the code.
\<close>

definition sat_theta :: "coeffs \<Rightarrow> real \<Rightarrow> real" where
  "sat_theta n T = T + n 9 / (T - n 10)"

definition sat_A :: "coeffs \<Rightarrow> real \<Rightarrow> real" where
  "sat_A n T = (sat_theta n T)\<^sup>2 + n 1 * sat_theta n T + n 2"

definition sat_B :: "coeffs \<Rightarrow> real \<Rightarrow> real" where
  "sat_B n T = n 3 * (sat_theta n T)\<^sup>2 + n 4 * sat_theta n T + n 5"

definition sat_C :: "coeffs \<Rightarrow> real \<Rightarrow> real" where
  "sat_C n T = n 6 * (sat_theta n T)\<^sup>2 + n 7 * sat_theta n T + n 8"

definition sat_disc :: "coeffs \<Rightarrow> real \<Rightarrow> real" where
  "sat_disc n T = (sat_B n T)\<^sup>2 - 4 * sat_A n T * sat_C n T"

text \<open>The backward equation: \<open>\<beta> = (p / 10\<^sup>6)\<^sup>1\<^sup>/\<^sup>4\<close> and its two discriminants.\<close>

definition inv_beta :: "real \<Rightarrow> real" where
  "inv_beta p = math_Pow (p / 1000000) 0.25"

definition inv_E :: "coeffs \<Rightarrow> real \<Rightarrow> real" where
  "inv_E n p = (inv_beta p)\<^sup>2 + n 3 * inv_beta p + n 6"

definition inv_F :: "coeffs \<Rightarrow> real \<Rightarrow> real" where
  "inv_F n p = n 1 * (inv_beta p)\<^sup>2 + n 4 * inv_beta p + n 7"

definition inv_G :: "coeffs \<Rightarrow> real \<Rightarrow> real" where
  "inv_G n p = n 2 * (inv_beta p)\<^sup>2 + n 5 * inv_beta p + n 8"

definition inv_disc :: "coeffs \<Rightarrow> real \<Rightarrow> real" where
  "inv_disc n p = (inv_F n p)\<^sup>2 - 4 * inv_E n p * inv_G n p"

definition inv_D :: "coeffs \<Rightarrow> real \<Rightarrow> real" where
  "inv_D n p = 2 * inv_G n p / (- inv_F n p - sqrt (inv_disc n p))"

definition inv_inner :: "coeffs \<Rightarrow> real \<Rightarrow> real" where
  "inv_inner n p = (n 10 + inv_D n p)\<^sup>2 - 4 * (n 9 + n 10 * inv_D n p)"

text \<open>A boundary table for closed theorems: \<open>T\<^sub>B\<^sub>2\<^sub>3(p) = 600 + 10 p\<close>, with \<open>p\<close> in MPa.\<close>

definition b23_example :: coeffs where
  "b23_example i = [0, 600, 10, 0] ! i"

section \<open>The output record\<close>

record Properties =
  SpecificVolume :: float64
  Density :: float64
  SpecificInternalEnergy :: float64
  SpecificEntropy :: float64
  SpecificEnthalpy :: float64
  SpecificIsochoricHeatCapacity :: float64
  SpecificIsobaricHeatCapacity :: float64
  SpeedOfSound :: float64

fun finiteAll :: "float64 list \<Rightarrow> bool" where
  "finiteAll [] = True"
| "finiteAll (x # vals) = (if IsNaN x \<or> IsInf x then False else finiteAll vals)"

section \<open>Region 1\<close>

text \<open>
  A row of the Region 1 table (\<^verbatim>\<open>tableData\<close>: row number, the exponents \<open>I\<close> and \<open>J\<close> as
  \<^verbatim>\<open>float64\<close>, the coefficient).  The embedded table is not part of the sources; the
  outcome of \<^verbatim>\<open>loadRowsOnce\<close> is a parameter of \<^verbatim>\<open>Calculate\<close>.
\<close>

record tableData =
  td_I :: int
  td_Ii :: float64
  td_Ji :: float64
  td_Ni :: float64

definition referP1 :: float64 where
  "referP1 = 16.53"

definition referT1 :: float64 where
  "referT1 = 1386.0"

definition referR :: float64 where
  "referR = 0.461526"

text \<open>The six loops of \<^verbatim>\<open>Calculate\<close> over the rows, each a left fold from zero.\<close>

definition r1_g :: "tableData list \<Rightarrow> float64 \<Rightarrow> float64 \<Rightarrow> float64" where
  "r1_g rows pi' tau =
     foldl (\<lambda>g row. g + td_Ni row * math_Pow (7.1 - pi') (td_Ii row) * math_Pow (tau - 1.222) (td_Ji row)) 0 rows"

definition r1_gPi :: "tableData list \<Rightarrow> float64 \<Rightarrow> float64 \<Rightarrow> float64" where
  "r1_gPi rows pi' tau =
     foldl (\<lambda>gPi row. gPi + (- td_Ni row) * td_Ii row * math_Pow (7.1 - pi') (td_Ii row - 1)
                            * math_Pow (tau - 1.222) (td_Ji row)) 0 rows"

definition r1_gPiPi :: "tableData list \<Rightarrow> float64 \<Rightarrow> float64 \<Rightarrow> float64" where
  "r1_gPiPi rows pi' tau =
     foldl (\<lambda>gPiPi row. gPiPi + td_Ni row * td_Ii row * (td_Ii row - 1) * math_Pow (7.1 - pi') (td_Ii row - 2)
                            * math_Pow (tau - 1.222) (td_Ji row)) 0 rows"

definition r1_gTau :: "tableData list \<Rightarrow> float64 \<Rightarrow> float64 \<Rightarrow> float64" where
  "r1_gTau rows pi' tau =
     foldl (\<lambda>gTau row. gTau + td_Ni row * td_Ji row * math_Pow (7.1 - pi') (td_Ii row)
                            * math_Pow (tau - 1.222) (td_Ji row - 1)) 0 rows"

definition r1_gTauTau :: "tableData list \<Rightarrow> float64 \<Rightarrow> float64 \<Rightarrow> float64" where
  "r1_gTauTau rows pi' tau =
     foldl (\<lambda>gTauTau row. gTauTau + td_Ni row * td_Ji row * (td_Ji row - 1) * math_Pow (7.1 - pi') (td_Ii row)
                            * math_Pow (tau - 1.222) (td_Ji row - 2)) 0 rows"

definition r1_gPiTau :: "tableData list \<Rightarrow> float64 \<Rightarrow> float64 \<Rightarrow> float64" where
  "r1_gPiTau rows pi' tau =
     foldl (\<lambda>gPiTau row. gPiTau + (- td_Ni row) * td_Ii row * td_Ji row * math_Pow (7.1 - pi') (td_Ii row - 1)
                            * math_Pow (tau - 1.222) (td_Ji row - 1)) 0 rows"

text \<open>\<^verbatim>\<open>region1.Calculate(tCelsius, pPascal)\<close>.\<close>

definition region1_Calculate ::
  "error + tableData list \<Rightarrow> error + coeffs \<Rightarrow> float64 \<Rightarrow> float64 \<Rightarrow> error + Properties" where
  "region1_Calculate ld ld4 tCelsius pPascal =
     (case ld of
        Inl e \<Rightarrow> Inl e
      | Inr rows \<Rightarrow>
          if tCelsius < -273.15 then Inl TemperatureBelowAbsoluteZero
          else if pPascal \<le> 0 then Inl PressureMustBePositive
          else
            let T = tCelsius + 273.15 in
            if T > 623.15 then Inl Region1NotApplicableT
            else if pPascal > 100000000 then Inl Region1NotApplicableP
            else if T < 647.096
                    \<and> (case SaturationPressure ld4 T of Inr ps \<Rightarrow> pPascal < ps | Inl e \<Rightarrow> False)
              then Inl Region1NotApplicablePsat
            else
              let PMPa = pPascal / 1000000.0;
                  pi' = PMPa / referP1;
                  tau = referT1 / T;
                  g = r1_g rows pi' tau;
                  gPi = r1_gPi rows pi' tau;
                  gPiPi = r1_gPiPi rows pi' tau;
                  gTau = r1_gTau rows pi' tau;
                  gTauTau = r1_gTauTau rows pi' tau;
                  gPiTau = r1_gPiTau rows pi' tau;
                  R = referR;
                  pKPa = pPascal / 1000.0;
                  v = pi' * gPi * (R * T / pKPa);
                  ro = pKPa / (R * T * (pi' * gPi));
                  u = R * T * (tau * gTau - pi' * gPi);
                  s = R * (tau * gTau - g);
                  h = R * T * tau * gTau;
                  cv = R * (- (tau * tau) * gTauTau + (math_Pow (gPi - tau * gPiTau) 2 / gPiPi));
                  cp = R * (- (tau * tau) * gTauTau + (math_Pow (gPi - tau * gPiTau) 2 / gPiPi));
                  denominator = gPiPi - (math_Pow (gPi - tau * gPiTau) 2 / (tau * tau * gTauTau))
              in if \<bar>denominator\<bar> < 1 / 10 ^ 10 then Inl Region1SpeedOfSoundFailed
                 else
                   let w = sqrt (R * 1000.0 * T * (gPi * gPi / \<bar>denominator\<bar>)) in
                   if \<not> finiteAll [v, ro, u, s, h, cv, cp, w] then Inl Region1NonFinite
                   else if ro \<le> 0 \<or> v \<le> 0 \<or> w \<le> 0 then Inl Region1InvalidPhysicalResult
                   else if cp \<le> 0 \<or> cv \<le> 0 then Inl Region1HeatCapacitiesNonPositive
                   else Inr \<lparr>SpecificVolume = v, Density = ro, SpecificInternalEnergy = u,
                             SpecificEntropy = s, SpecificEnthalpy = h,
                             SpecificIsochoricHeatCapacity = cv, SpecificIsobaricHeatCapacity = cp,
                             SpeedOfSound = w\<rparr>)"

text \<open>A Region 1 table of three rows, for closed theorems.\<close>

definition rows_example :: "tableData list" where
  "rows_example =
     [\<lparr>td_I = 1, td_Ii = 1, td_Ji = 0, td_Ni = -100\<rparr>,
      \<lparr>td_I = 2, td_Ii = 2, td_Ji = 0, td_Ni = 1\<rparr>,
      \<lparr>td_I = 3, td_Ii = 0, td_Ji = 2, td_Ni = -1\<rparr>]"

section \<open>Regions 2 and 5\<close>

text \<open>
  Both packages declare the same two row types (\<^verbatim>\<open>idealRow\<close>, \<^verbatim>\<open>residualRow\<close>) and compute
  the same sums, with the residual part shifted by \<open>0.5\<close> in Region 2 and by \<open>1.0\<close> in
  Region 5.  Each loop updates its accumulators row by row; the accumulators do not
  depend on one another, so each is a fold of its own.
\<close>

record idealRow =
  ir_J :: float64
  ir_N :: float64

record residualRow =
  rr_I :: float64
  rr_J :: float64
  rr_N :: float64

definition ideal_g0 :: "idealRow list \<Rightarrow> float64 \<Rightarrow> float64 \<Rightarrow> float64" where
  "ideal_g0 idealRows pi' tau = foldl (\<lambda>g0 r. g0 + ir_N r * math_Pow tau (ir_J r)) (ln pi') idealRows"

definition ideal_g0Tau :: "idealRow list \<Rightarrow> float64 \<Rightarrow> float64" where
  "ideal_g0Tau idealRows tau =
     foldl (\<lambda>g0Tau r. g0Tau + ir_N r * ir_J r * math_Pow tau (ir_J r - 1)) 0 idealRows"

definition ideal_g0TauTau :: "idealRow list \<Rightarrow> float64 \<Rightarrow> float64" where
  "ideal_g0TauTau idealRows tau =
     foldl (\<lambda>g0TauTau r. g0TauTau + ir_N r * ir_J r * (ir_J r - 1) * math_Pow tau (ir_J r - 2)) 0 idealRows"

definition resid_gr :: "float64 \<Rightarrow> residualRow list \<Rightarrow> float64 \<Rightarrow> float64 \<Rightarrow> float64" where
  "resid_gr shift residRows pi' tau =
     foldl (\<lambda>gr r. gr + rr_N r * math_Pow pi' (rr_I r) * math_Pow (tau - shift) (rr_J r)) 0 residRows"

definition resid_grPi :: "float64 \<Rightarrow> residualRow list \<Rightarrow> float64 \<Rightarrow> float64 \<Rightarrow> float64" where
  "resid_grPi shift residRows pi' tau =
     foldl (\<lambda>grPi r. grPi + rr_N r * rr_I r * math_Pow pi' (rr_I r - 1) * math_Pow (tau - shift) (rr_J r)) 0 residRows"

definition resid_grPiPi :: "float64 \<Rightarrow> residualRow list \<Rightarrow> float64 \<Rightarrow> float64 \<Rightarrow> float64" where
  "resid_grPiPi shift residRows pi' tau =
     foldl (\<lambda>grPiPi r. grPiPi + rr_N r * rr_I r * (rr_I r - 1) * math_Pow pi' (rr_I r - 2)
                           * math_Pow (tau - shift) (rr_J r)) 0 residRows"

definition resid_grTau :: "float64 \<Rightarrow> residualRow list \<Rightarrow> float64 \<Rightarrow> float64 \<Rightarrow> float64" where
  "resid_grTau shift residRows pi' tau =
     foldl (\<lambda>grTau r. grTau + rr_N r * rr_J r * math_Pow pi' (rr_I r) * math_Pow (tau - shift) (rr_J r - 1)) 0 residRows"

definition resid_grTauTau :: "float64 \<Rightarrow> residualRow list \<Rightarrow> float64 \<Rightarrow> float64 \<Rightarrow> float64" where
  "resid_grTauTau shift residRows pi' tau =
     foldl (\<lambda>grTauTau r. grTauTau + rr_N r * rr_J r * (rr_J r - 1) * math_Pow pi' (rr_I r)
                           * math_Pow (tau - shift) (rr_J r - 2)) 0 residRows"

definition resid_grPiTau :: "float64 \<Rightarrow> residualRow list \<Rightarrow> float64 \<Rightarrow> float64 \<Rightarrow> float64" where
  "resid_grPiTau shift residRows pi' tau =
     foldl (\<lambda>grPiTau r. grPiTau + rr_N r * rr_I r * rr_J r * math_Pow pi' (rr_I r - 1)
                           * math_Pow (tau - shift) (rr_J r - 1)) 0 residRows"

definition referP2 :: float64 where
  "referP2 = 1.0"

definition referT2 :: float64 where
  "referT2 = 540.0"

text \<open>
  \<^verbatim>\<open>region2.Calculate(tCelsius, pPascal)\<close>.  The two heat capacities are written as in the
  source: \<open>cv\<close> with \<^verbatim>\<open>math.Pow(_, 2)\<close>, \<open>cp\<close> with a product.
\<close>

definition region2_Calculate ::
  "error + idealRow list \<Rightarrow> error + residualRow list \<Rightarrow> error + coeffs \<Rightarrow> float64 \<Rightarrow> float64
     \<Rightarrow> error + Properties" where
  "region2_Calculate ldI ldR ld4 tCelsius pPascal =
     (if tCelsius < -273.15 then Inl TemperatureBelowAbsoluteZero
      else if pPascal \<le> 0 then Inl PressureMustBePositive
      else
        case ldI of
          Inl e \<Rightarrow> Inl e
        | Inr idealRows \<Rightarrow>
        (case ldR of
          Inl e \<Rightarrow> Inl e
        | Inr residRows \<Rightarrow>
            let T = tCelsius + 273.15 in
            if T < 273.15 then Inl Region2NotApplicableTBelow
            else if T > 1073.15 then Inl Region2NotApplicableTAbove
            else if pPascal > 100000000 then Inl Region2NotApplicableP
            else if T < 647.096
                    \<and> (case SaturationPressure ld4 T of Inr ps \<Rightarrow> pPascal > ps | Inl e \<Rightarrow> False)
              then Inl Region2NotApplicablePsat
            else
              let Tval = T;
                  PMPa = pPascal / 1000000.0;
                  pi' = PMPa / referP2;
                  tau = referT2 / Tval;
                  g0 = ideal_g0 idealRows pi' tau;
                  g0Tau = ideal_g0Tau idealRows tau;
                  g0TauTau = ideal_g0TauTau idealRows tau;
                  g0Pi = 1.0 / pi';
                  g0PiPi = - 1.0 / (pi' * pi');
                  gr = resid_gr 0.5 residRows pi' tau;
                  grPi = resid_grPi 0.5 residRows pi' tau;
                  grPiPi = resid_grPiPi 0.5 residRows pi' tau;
                  grTau = resid_grTau 0.5 residRows pi' tau;
                  grTauTau = resid_grTauTau 0.5 residRows pi' tau;
                  grPiTau = resid_grPiTau 0.5 residRows pi' tau;
                  gPi = g0Pi + grPi;
                  gPiPi = g0PiPi + grPiPi;
                  gTau = g0Tau + grTau;
                  gTauTau = g0TauTau + grTauTau;
                  gPiTau = grPiTau;
                  g = g0 + gr;
                  R = referR;
                  pKPa = pPascal / 1000.0;
                  v = pi' * gPi * (R * Tval / pKPa);
                  ro = pKPa / (R * Tval * (pi' * gPi));
                  u = R * Tval * (tau * gTau - pi' * gPi);
                  s = R * (tau * gTau - g);
                  h = R * Tval * tau * gTau;
                  cv = R * (- (tau * tau) * gTauTau + (math_Pow (gPi - tau * gPiTau) 2 / gPiPi));
                  cp = R * (- (tau * tau) * gTauTau + (gPi - tau * gPiTau) * (gPi - tau * gPiTau) / gPiPi);
                  w = sqrt (R * 1000.0 * Tval
                        * (gPi * gPi / ((math_Pow (gPi - tau * gPiTau) 2 / (tau * tau * gTauTau)) - gPiPi)))
              in if \<not> finiteAll [v, ro, u, s, h, cv, cp, w] then Inl Region2NonFinite
                 else if ro \<le> 0 \<or> v \<le> 0 \<or> w \<le> 0 then Inl Region2InvalidPhysicalResult
                 else if cp \<le> 0 \<or> cv \<le> 0 then Inl Region2HeatCapacitiesNonPositive
                 else Inr \<lparr>SpecificVolume = v, Density = ro, SpecificInternalEnergy = u,
                           SpecificEntropy = s, SpecificEnthalpy = h,
                           SpecificIsochoricHeatCapacity = cv, SpecificIsobaricHeatCapacity = cp,
                           SpeedOfSound = w\<rparr>))"

definition referP5 :: float64 where
  "referP5 = 1.0"

definition referT5 :: float64 where
  "referT5 = 1000.0"

text \<open>
  \<^verbatim>\<open>region5.Calculate(tCelsius, pPascal)\<close>.  After the two range checks nothing is
  validated: the record is returned as computed.
\<close>

definition region5_Calculate ::
  "error + idealRow list \<Rightarrow> error + residualRow list \<Rightarrow> float64 \<Rightarrow> float64 \<Rightarrow> error + Properties" where
  "region5_Calculate ldI ldR tCelsius pPascal =
     (if tCelsius < -273.15 then Inl TemperatureBelowAbsoluteZero
      else if pPascal \<le> 0 then Inl PressureMustBePositive
      else
        case ldI of
          Inl e \<Rightarrow> Inl e
        | Inr idealRows \<Rightarrow>
        (case ldR of
          Inl e \<Rightarrow> Inl e
        | Inr residRows \<Rightarrow>
            let T = tCelsius + 273.15 in
            if T < 1073.15 \<or> T > 2273.15 then Inl Region5NotApplicableT
            else if pPascal > 50000000 then Inl Region5NotApplicableP
            else
              let PMPa = pPascal / 1000000.0;
                  pi' = PMPa / referP5;
                  tau = referT5 / T;
                  g0 = ideal_g0 idealRows pi' tau;
                  g0Tau = ideal_g0Tau idealRows tau;
                  g0TauTau = ideal_g0TauTau idealRows tau;
                  g0Pi = 1.0 / pi';
                  g0PiPi = - 1.0 / (pi' * pi');
                  gr = resid_gr 1.0 residRows pi' tau;
                  grPi = resid_grPi 1.0 residRows pi' tau;
                  grPiPi = resid_grPiPi 1.0 residRows pi' tau;
                  grTau = resid_grTau 1.0 residRows pi' tau;
                  grTauTau = resid_grTauTau 1.0 residRows pi' tau;
                  grPiTau = resid_grPiTau 1.0 residRows pi' tau;
                  gPi = g0Pi + grPi;
                  gPiPi = g0PiPi + grPiPi;
                  gTau = g0Tau + grTau;
                  gTauTau = g0TauTau + grTauTau;
                  gPiTau = grPiTau;
                  g = g0 + gr;
                  R = referR;
                  pKPa = pPascal / 1000.0;
                  v = pi' * gPi * (R * T / pKPa);
                  ro = pKPa / (R * T * (pi' * gPi));
                  u = R * T * (tau * gTau - pi' * gPi);
                  s = R * (tau * gTau - g);
                  h = R * T * tau * gTau;
                  cv = R * (- (tau * tau) * gTauTau + (math_Pow (gPi - tau * gPiTau) 2 / gPiPi));
                  cp = R * (- (tau * tau) * gTauTau + (gPi - tau * gPiTau) * (gPi - tau * gPiTau) / gPiPi);
                  w = sqrt (R * 1000.0 * T
                        * (gPi * gPi / ((math_Pow (gPi - tau * gPiTau) 2 / (tau * tau * gTauTau)) - gPiPi)))
              in Inr \<lparr>SpecificVolume = v, Density = ro, SpecificInternalEnergy = u,
                       SpecificEntropy = s, SpecificEnthalpy = h,
                       SpecificIsochoricHeatCapacity = cv, SpecificIsobaricHeatCapacity = cp,
                       SpeedOfSound = w\<rparr>))"

text \<open>An ideal and a residual table of one row each, for closed theorems.\<close>

definition ideal_example :: "idealRow list" where
  "ideal_example = [\<lparr>ir_J = 2, ir_N = -1\<rparr>]"

definition resid_example :: "residualRow list" where
  "resid_example = [\<lparr>rr_I = 1, rr_J = 1, rr_N = -0.01\<rparr>]"

text \<open>Tables for Region 5 whose heat capacity comes out negative, for closed theorems.\<close>

definition ideal_example5 :: "idealRow list" where
  "ideal_example5 = [\<lparr>ir_J = 2, ir_N = 1\<rparr>]"

section \<open>Region 3: the backward series\<close>

text \<open>
  A term of a backward series (\<^verbatim>\<open>term\<close>: integer exponents \<open>I\<close>, \<open>J\<close> and the coefficient).
  \<^verbatim>\<open>sub3\<close> is an integer type in the source with the two values \<^verbatim>\<open>sub3a\<close> and \<^verbatim>\<open>sub3b\<close>;
  no caller passes another one, so the \<^verbatim>\<open>default\<close> branch of each \<^verbatim>\<open>switch\<close> has no
  counterpart here.
\<close>

record term3 =
  t_I :: int
  t_J :: int
  t_N :: float64

datatype sub3 = sub3a | sub3b

definition powi_go :: "float64 \<Rightarrow> int \<Rightarrow> float64" where
  "powi_go x n = math_Pow x (of_int n)"

definition evalSeries :: "term3 list \<Rightarrow> float64 \<Rightarrow> float64 \<Rightarrow> float64" where
  "evalSeries terms x y = foldl (\<lambda>s t. s + t_N t * powi_go x (t_I t) * powi_go y (t_J t)) 0 terms"

text \<open>The four \<open>(p, s)\<close> tables that \<^verbatim>\<open>loadPSOnce\<close> fills, and their normalisations.\<close>

record ps_tables =
  T3aPS :: "term3 list"
  V3aPS :: "term3 list"
  T3bPS :: "term3 list"
  V3bPS :: "term3 list"

definition Tstar3aPS :: float64 where "Tstar3aPS = 760.0"
definition pstarPS :: float64 where "pstarPS = 100.0"
definition sstar3aPS :: float64 where "sstar3aPS = 4.4"
definition piShift3aPS :: float64 where "piShift3aPS = 0.240"
definition sigShift3aPS :: float64 where "sigShift3aPS = - 0.703"
definition vstar3aPS :: float64 where "vstar3aPS = 0.0028"
definition piShiftV3aPS :: float64 where "piShiftV3aPS = 0.187"
definition sigShiftV3aPS :: float64 where "sigShiftV3aPS = - 0.755"
definition Tstar3bPS :: float64 where "Tstar3bPS = 860.0"
definition sstar3bPS :: float64 where "sstar3bPS = 5.3"
definition piShift3bPS :: float64 where "piShift3bPS = 0.760"
definition sigShift3bPS :: float64 where "sigShift3bPS = - 0.818"
definition vstar3bPS :: float64 where "vstar3bPS = 0.0088"
definition piShiftV3bPS :: float64 where "piShiftV3bPS = 0.298"
definition sigShiftV3bPS :: float64 where "sigShiftV3bPS = - 0.816"

definition Tps :: "error + ps_tables \<Rightarrow> sub3 \<Rightarrow> float64 \<Rightarrow> float64 \<Rightarrow> error + float64" where
  "Tps ld sub pPa s =
     (case ld of
        Inl e \<Rightarrow> Inl e
      | Inr tb \<Rightarrow>
          let pMPa = pPa / 1000000 in
          (case sub of
             sub3a \<Rightarrow>
               let pi' = pMPa / pstarPS + piShift3aPS;
                   sig = s / sstar3aPS + sigShift3aPS
               in Inr (Tstar3aPS * evalSeries (T3aPS tb) pi' sig)
           | sub3b \<Rightarrow>
               let pi' = pMPa / pstarPS + piShift3bPS;
                   sig = s / sstar3bPS + sigShift3bPS
               in Inr (Tstar3bPS * evalSeries (T3bPS tb) pi' sig)))"

definition Vps :: "error + ps_tables \<Rightarrow> sub3 \<Rightarrow> float64 \<Rightarrow> float64 \<Rightarrow> error + float64" where
  "Vps ld sub pPa s =
     (case ld of
        Inl e \<Rightarrow> Inl e
      | Inr tb \<Rightarrow>
          let pMPa = pPa / 1000000 in
          (case sub of
             sub3a \<Rightarrow>
               let pi' = pMPa / pstarPS + piShiftV3aPS;
                   sig = s / sstar3aPS + sigShiftV3aPS
               in Inr (vstar3aPS * evalSeries (V3aPS tb) pi' sig)
           | sub3b \<Rightarrow>
               let pi' = pMPa / pstarPS + piShiftV3bPS;
                   sig = s / sstar3bPS + sigShiftV3bPS
               in Inr (vstar3bPS * evalSeries (V3bPS tb) pi' sig)))"

text \<open>The two \<open>p(h, s)\<close> tables that \<^verbatim>\<open>loadHSOnce\<close> fills.\<close>

record hs_tables =
  p3a :: "term3 list"
  p3b :: "term3 list"

definition scKJperKgK :: float64 where
  "scKJperKgK = 4.41202148223476"

definition validateHS :: "float64 \<Rightarrow> float64 \<Rightarrow> error option" where
  "validateHS h s =
     (if \<not> (h > 0 \<and> h < 4000) then Some Region3EnthalpyOutOfRange
      else if \<not> (s > 0 \<and> s < 10) then Some Region3EntropyOutOfRange
      else None)"

definition PressureHS3a :: "error + hs_tables \<Rightarrow> float64 \<Rightarrow> float64 \<Rightarrow> error + float64" where
  "PressureHS3a ld h s =
     (case ld of
        Inl e \<Rightarrow> Inl e
      | Inr tb \<Rightarrow>
          (case validateHS h s of
             Some e \<Rightarrow> Inl e
           | None \<Rightarrow>
               let eta = h / 2300.0;
                   sigma = s / 4.4;
                   sum = foldl (\<lambda>sum t. sum + t_N t * math_Pow (eta - 1.01) (of_int (t_I t))
                                           * math_Pow (sigma - 0.750) (of_int (t_J t))) 0 (p3a tb);
                   pMPa = 100.0 * sum;
                   p = pMPa * 1000000
               in if IsNaN p \<or> IsInf p \<or> p \<le> 0 then Inl Region3aInvalidPressure
                  else Inr p))"

definition PressureHS3b :: "error + hs_tables \<Rightarrow> float64 \<Rightarrow> float64 \<Rightarrow> error + float64" where
  "PressureHS3b ld h s =
     (case ld of
        Inl e \<Rightarrow> Inl e
      | Inr tb \<Rightarrow>
          (case validateHS h s of
             Some e \<Rightarrow> Inl e
           | None \<Rightarrow>
               let eta = h / 2800.0;
                   sigma = s / 5.3;
                   denom = foldl (\<lambda>denom t. denom + t_N t * math_Pow (eta - 0.681) (of_int (t_I t))
                                               * math_Pow (sigma - 0.792) (of_int (t_J t))) 0 (p3b tb)
               in if denom = 0 \<or> IsNaN denom \<or> IsInf denom then Inl Region3bInvalidDenominator
                  else
                    let pMPa = 100.0 / denom;
                        p = pMPa * 1000000
                    in if IsNaN p \<or> IsInf p \<or> p \<le> 0 then Inl Region3bInvalidPressure
                       else Inr p))"

definition PressureFromHS :: "error + hs_tables \<Rightarrow> float64 \<Rightarrow> float64 \<Rightarrow> error + float64" where
  "PressureFromHS ld h s =
     (if s \<le> scKJperKgK then PressureHS3a ld h s else PressureHS3b ld h s)"

text \<open>The sanity loop at the end of \<^verbatim>\<open>PropertiesFromHS\<close>, over \<^verbatim>\<open>ro, u, cp, w\<close>.\<close>

fun nonPhysical :: "float64 list \<Rightarrow> bool" where
  "nonPhysical [] = False"
| "nonPhysical (x # xs) = (if \<not> (x > 0) \<or> IsNaN x \<or> IsInf x then True else nonPhysical xs)"

text \<open>\<^verbatim>\<open>PropertiesFromHS(h, s)\<close> returns the pressure, the temperature and the record.\<close>

definition PropertiesFromHS ::
  "error + hs_tables \<Rightarrow> error + ps_tables \<Rightarrow> float64 \<Rightarrow> float64
     \<Rightarrow> error + (float64 \<times> float64 \<times> Properties)" where
  "PropertiesFromHS ldHS ldPS h s =
     (case PressureFromHS ldHS h s of
        Inl e \<Rightarrow> Inl e
      | Inr p \<Rightarrow>
          let sub = (if s \<le> scKJperKgK then sub3a else sub3b) in
          (case Tps ldPS sub p s of
             Inl e \<Rightarrow> Inl e
           | Inr T \<Rightarrow>
               (case Vps ldPS sub p s of
                  Inl e \<Rightarrow> Inl e
                | Inr v \<Rightarrow>
                    if \<not> (v > 0) \<or> IsNaN v \<or> IsInf v then Inl Region3HSInvalidVolume
                    else
                      let ro = 1.0 / v;
                          u = h - p * v / 1000.0;
                          ds = 1 / 10 ^ 5
                      in (case (Tps ldPS sub p (s + ds), Tps ldPS sub p (s - ds)) of
                            (Inr Tp, Inr Tm) \<Rightarrow>
                              let dTds = (Tp - Tm) / (2.0 * ds) in
                              if dTds = 0 \<or> IsNaN dTds \<or> IsInf dTds then Inl Region3HSInvalidDTds
                              else
                                let cp = T / dTds;
                                    dpS = 1000
                                in (case Vps ldPS sub (p + dpS) s of
                                      Inl e \<Rightarrow> Inl e
                                    | Inr vpsp \<Rightarrow>
                                        (case Vps ldPS sub (p - dpS) s of
                                           Inl e \<Rightarrow> Inl e
                                         | Inr vpsm \<Rightarrow>
                                             let dv_dp_s = (vpsp - vpsm) / (2.0 * dpS);
                                                 kappaS = - (1.0 / v) * dv_dp_s
                                             in if kappaS \<le> 0 \<or> IsNaN kappaS \<or> IsInf kappaS
                                                  then Inl Region3HSInvalidCompressibility
                                                else
                                                  let w = sqrt (1.0 / (ro * kappaS)) in
                                                  if nonPhysical [ro, u, cp, w] then Inl Region3HSNonPhysical
                                                  else Inr (p, T,
                                                    \<lparr>SpecificVolume = v, Density = ro,
                                                      SpecificInternalEnergy = u, SpecificEntropy = s,
                                                      SpecificEnthalpy = h,
                                                      SpecificIsochoricHeatCapacity = cp,
                                                      SpecificIsobaricHeatCapacity = cp,
                                                      SpeedOfSound = w\<rparr>)))
                          | _ \<Rightarrow> Inl Region3HSTpsFailed))))"

text \<open>Backward tables of one term each, for closed theorems.\<close>

definition hs_example :: hs_tables where
  "hs_example =
     \<lparr>p3a = [\<lparr>t_I = 0, t_J = 0, t_N = 0.25\<rparr>],
      p3b = [\<lparr>t_I = 0, t_J = 0, t_N = 4\<rparr>]\<rparr>"

definition ps_example :: ps_tables where
  "ps_example =
     \<lparr>T3aPS = [\<lparr>t_I = 0, t_J = 1, t_N = 1\<rparr>],
      V3aPS = [\<lparr>t_I = -1, t_J = 0, t_N = 1\<rparr>],
      T3bPS = [\<lparr>t_I = 0, t_J = 1, t_N = 1\<rparr>],
      V3bPS = [\<lparr>t_I = -1, t_J = 0, t_N = 1\<rparr>]\<rparr>"

section \<open>Region 3: the root finder\<close>

text \<open>
  \<^verbatim>\<open>bracketAndBisect(f, a, b, maxIter, tol)\<close>.  The function \<open>f\<close> returns a value or an
  error.  To count the work, each function below also returns the list of the points
  at which it called \<open>f\<close>, in the order of the calls; \<^verbatim>\<open>bracketAndBisect\<close> itself is the
  first component.

  The scan loop runs \<open>k\<close> from 1 to \<open>n\<close>: it returns the error of \<open>f\<close>, or the bracket
  \<open>(prevX, x, prevF, fx)\<close> of the first sign change, or nothing when it ran to the end.
\<close>

type_synonym rootFunc = "float64 \<Rightarrow> error + float64"

function scan ::
  "rootFunc \<Rightarrow> float64 \<Rightarrow> float64 \<Rightarrow> nat \<Rightarrow> nat \<Rightarrow> float64 \<Rightarrow> float64 \<Rightarrow> float64 list
     \<Rightarrow> (error + (float64 \<times> float64 \<times> float64 \<times> float64) option) \<times> float64 list" where
  "scan f a b n k prevX prevF tr =
     (if k \<le> n then
        let x = a + (real k / real n) * (b - a) in
        (case f x of
           Inl e \<Rightarrow> (Inl e, tr @ [x])
         | Inr fx \<Rightarrow>
             if prevF * fx \<le> 0 then (Inr (Some (prevX, x, prevF, fx)), tr @ [x])
             else scan f a b n (k + 1) x fx (tr @ [x]))
      else (Inr None, tr))"
  by pat_completeness auto
termination
  by (relation "measure (\<lambda>(f, a, b, n, k, prevX, prevF, tr). n + 1 - k)") auto

text \<open>The bisection loop: \<open>i\<close> runs from 0 while \<open>i < maxIter\<close>.\<close>

function bisect ::
  "rootFunc \<Rightarrow> float64 \<Rightarrow> int \<Rightarrow> int \<Rightarrow> float64 \<Rightarrow> float64 \<Rightarrow> float64 \<Rightarrow> float64 \<Rightarrow> float64 list
     \<Rightarrow> (error + float64) \<times> float64 list" where
  "bisect f tol maxIter i a b fa fb tr =
     (if i < maxIter then
        let m = 0.5 * (a + b) in
        (case f m of
           Inl e \<Rightarrow> (Inl e, tr @ [m])
         | Inr fm \<Rightarrow>
             if \<bar>fm\<bar> < tol \<or> \<bar>b - a\<bar> < tol then (Inr m, tr @ [m])
             else if fa * fm \<le> 0 then bisect f tol maxIter (i + 1) a m fa fm (tr @ [m])
             else bisect f tol maxIter (i + 1) m b fm fb (tr @ [m]))
      else (Inl BisectionDidNotConverge, tr))"
  by pat_completeness auto
termination
  by (relation "measure (\<lambda>(f, tol, maxIter, i, a, b, fa, fb, tr). nat (maxIter - i))") auto

definition bracketAndBisect_trace ::
  "rootFunc \<Rightarrow> float64 \<Rightarrow> float64 \<Rightarrow> int \<Rightarrow> float64 \<Rightarrow> (error + float64) \<times> float64 list" where
  "bracketAndBisect_trace f a b maxIter tol =
     (case f a of
        Inl e \<Rightarrow> (Inl e, [a])
      | Inr fa \<Rightarrow>
          (case f b of
             Inl e \<Rightarrow> (Inl e, [a, b])
           | Inr fb \<Rightarrow>
               if IsNaN fa \<or> IsNaN fb \<or> IsInf fa \<or> IsInf fb then (Inl InvalidFunctionValues, [a, b])
               else if fa = 0 then (Inr a, [a, b])
               else if fb = 0 then (Inr b, [a, b])
               else if fa * fb > 0 then
                 (case scan f a b 50 1 a fa [a, b] of
                    (Inl e, tr) \<Rightarrow> (Inl e, tr)
                  | (Inr None, tr) \<Rightarrow> (Inl NoSignChangeInBracket, tr)
                  | (Inr (Some (a', b', fa', fb')), tr) \<Rightarrow>
                      if fa' * fb' > 0 then (Inl NoSignChangeInBracket, tr)
                      else bisect f tol maxIter 0 a' b' fa' fb' tr)
               else bisect f tol maxIter 0 a b fa fb [a, b]))"

definition bracketAndBisect :: "rootFunc \<Rightarrow> float64 \<Rightarrow> float64 \<Rightarrow> int \<Rightarrow> float64 \<Rightarrow> error + float64" where
  "bracketAndBisect f a b maxIter tol = fst (bracketAndBisect_trace f a b maxIter tol)"

section \<open>The reduced variables of the specification, and the records of the examples\<close>

text \<open>
  Region 1 in the specification's words: \<open>\<pi> = p / 16.53\<close> with \<open>p\<close> in MPa, and
  \<open>\<tau> = 1386 / T\<close>.
\<close>

definition r1_pi :: "real \<Rightarrow> real" where
  "r1_pi pPascal = pPascal / 1000000 / 16.53"

definition r1_tau :: "real \<Rightarrow> real" where
  "r1_tau tCelsius = 1386 / (tCelsius + 273.15)"

text \<open>
  What the example tables give: Region 1 at 26.85 \<degree>C and 3 MPa, Region 2 at 426.85 \<degree>C
  and 1 MPa, Region 5 at 1226.85 \<degree>C and 1 MPa, and the \<open>(h, s)\<close> path at
  \<open>(2000, 4)\<close> and \<open>(2600, 5)\<close>.
\<close>

definition region1_example_result :: Properties where
  "region1_example_result =
     \<lparr>SpecificVolume = 54778290177 / 75900250000,
      Density = 75900250000 / 54778290177,
      SpecificInternalEnergy = - (123572707894569141 / 18975062500000),
      SpecificEntropy = 10931692427947564923 / 37950125000000000,
      SpecificEnthalpy = - (271701971541 / 62500000),
      SpecificIsochoricHeatCapacity = 164409429362395659 / 94875312500000,
      SpecificIsobaricHeatCapacity = 164409429362395659 / 94875312500000,
      SpeedOfSound = sqrt (2081593785934919144889 / 356230048496500)\<rparr>"

definition region2_example_result :: Properties where
  "region2_example_result =
     \<lparr>SpecificVolume = 1610956503 / 5000000000,
      Density = 5000000000 / 1610956503,
      SpecificInternalEnergy = - (4964404419 / 7000000),
      SpecificEntropy = - (1357117203 / 4900000000),
      SpecificEnthalpy = - (6772663287 / 17500000),
      SpecificIsochoricHeatCapacity = 81494184213 / 980000000000,
      SpecificIsobaricHeatCapacity = 81494184213 / 980000000000,
      SpeedOfSound = sqrt (1821866150285766 / 858353125)\<rparr>"

definition region5_example_result :: Properties where
  "region5_example_result =
     \<lparr>SpecificVolume = 69459663 / 100000000,
      Density = 100000000 / 69459663,
      SpecificInternalEnergy = - (8384389 / 100000),
      SpecificEntropy = 30076111 / 150000000,
      SpecificEnthalpy = 30537637 / 50000,
      SpecificIsochoricHeatCapacity = - (13215720089 / 15000000000),
      SpecificIsobaricHeatCapacity = - (13215720089 / 15000000000),
      SpeedOfSound = sqrt (55752956168 / 171809)\<rparr>"

definition hs_example_result_a :: Properties where
  "hs_example_result_a =
     \<lparr>SpecificVolume = 14 / 2185, Density = 2185 / 14,
      SpecificInternalEnergy = 804000 / 437, SpecificEntropy = 4,
      SpecificEnthalpy = 2000,
      SpecificIsochoricHeatCapacity = 2267 / 2500,
      SpecificIsobaricHeatCapacity = 2267 / 2500,
      SpeedOfSound = sqrt (53471319972 / 190969)\<rparr>"

definition hs_example_result_b :: Properties where
  "hs_example_result_b =
     \<lparr>SpecificVolume = 11 / 685, Density = 685 / 11,
      SpecificInternalEnergy = 301200 / 137, SpecificEntropy = 5,
      SpecificEnthalpy = 2600,
      SpecificIsochoricHeatCapacity = 3323 / 5000,
      SpecificIsobaricHeatCapacity = 3323 / 5000,
      SpeedOfSound = sqrt (33033439989 / 37538)\<rparr>"

section \<open>The root finder: evaluation points, brackets\<close>

text \<open>The \<open>k\<close>-th scan point of \<open>n\<close> sub-intervals of \<open>[a, b]\<close>, and the midpoint the bisection
  evaluates, as the source writes them.\<close>

definition scan_pt :: "real \<Rightarrow> real \<Rightarrow> nat \<Rightarrow> nat \<Rightarrow> real" where
  "scan_pt a b n k = a + (real k / real n) * (b - a)"

definition mid :: "real \<Rightarrow> real \<Rightarrow> real" where
  "mid a b = 0.5 * (a + b)"

text \<open>A bracket: both ends evaluated, with values of opposite sign (or one of them zero).\<close>

definition bracket :: "rootFunc \<Rightarrow> real \<Rightarrow> real \<Rightarrow> real \<Rightarrow> real \<Rightarrow> bool" where
  "bracket f a b fa fb = (f a = Inr fa \<and> f b = Inr fb \<and> fa * fb \<le> 0)"

definition between :: "real \<Rightarrow> real \<Rightarrow> real \<Rightarrow> bool" where
  "between a b x = (min a b \<le> x \<and> x \<le> max a b)"

text \<open>The points at which a call evaluates \<open>f\<close>, in order.\<close>

definition evaluations :: "rootFunc \<Rightarrow> real \<Rightarrow> real \<Rightarrow> int \<Rightarrow> real \<Rightarrow> real list" where
  "evaluations f a b maxIter tol = snd (bracketAndBisect_trace f a b maxIter tol)"

section \<open>The Region 1 table of the release\<close>

text \<open>
  The 34 rows of the Region 1 table of the IAPWS-IF97 release, which the embedded file
  carries (\<^verbatim>\<open>iapws-if97-region1.csv\<close>).  They instantiate the table parameter of
  \<^verbatim>\<open>Calculate\<close> in closed theorems.
\<close>

definition rows_IF97 :: "tableData list" where
  "rows_IF97 =
     [\<lparr>td_I = 1, td_Ii = 0, td_Ji = - 2, td_Ni = 0.14632971213167\<rparr>,
      \<lparr>td_I = 2, td_Ii = 0, td_Ji = - 1, td_Ni = - 0.84548187169114\<rparr>,
      \<lparr>td_I = 3, td_Ii = 0, td_Ji = 0, td_Ni = - 3.7563603672040\<rparr>,
      \<lparr>td_I = 4, td_Ii = 0, td_Ji = 1, td_Ni = 3.3855169168385\<rparr>,
      \<lparr>td_I = 5, td_Ii = 0, td_Ji = 2, td_Ni = - 0.95791963387872\<rparr>,
      \<lparr>td_I = 6, td_Ii = 0, td_Ji = 3, td_Ni = 0.15772038513228\<rparr>,
      \<lparr>td_I = 7, td_Ii = 0, td_Ji = 4, td_Ni = - 0.016616417199501\<rparr>,
      \<lparr>td_I = 8, td_Ii = 0, td_Ji = 5, td_Ni = 0.00081214629983568\<rparr>,
      \<lparr>td_I = 9, td_Ii = 1, td_Ji = - 9, td_Ni = 0.00028319080123804\<rparr>,
      \<lparr>td_I = 10, td_Ii = 1, td_Ji = - 7, td_Ni = - 0.00060706301565874\<rparr>,
      \<lparr>td_I = 11, td_Ii = 1, td_Ji = - 1, td_Ni = - 0.018990068218419\<rparr>,
      \<lparr>td_I = 12, td_Ii = 1, td_Ji = 0, td_Ni = - 0.032529748770505\<rparr>,
      \<lparr>td_I = 13, td_Ii = 1, td_Ji = 1, td_Ni = - 0.021841717175414\<rparr>,
      \<lparr>td_I = 14, td_Ii = 1, td_Ji = 3, td_Ni = - 0.000052838357969930\<rparr>,
      \<lparr>td_I = 15, td_Ii = 2, td_Ji = - 3, td_Ni = - 0.00047184321073267\<rparr>,
      \<lparr>td_I = 16, td_Ii = 2, td_Ji = 0, td_Ni = - 0.00030001780793026\<rparr>,
      \<lparr>td_I = 17, td_Ii = 2, td_Ji = 1, td_Ni = 0.000047661393906987\<rparr>,
      \<lparr>td_I = 18, td_Ii = 2, td_Ji = 3, td_Ni = - 0.0000044141845330846\<rparr>,
      \<lparr>td_I = 19, td_Ii = 2, td_Ji = 17, td_Ni = - 0.00000000000000072694996297594\<rparr>,
      \<lparr>td_I = 20, td_Ii = 3, td_Ji = - 4, td_Ni = - 0.000031679644845054\<rparr>,
      \<lparr>td_I = 21, td_Ii = 3, td_Ji = 0, td_Ni = - 0.0000028270797985312\<rparr>,
      \<lparr>td_I = 22, td_Ii = 3, td_Ji = 6, td_Ni = - 0.00000000085205128120103\<rparr>,
      \<lparr>td_I = 23, td_Ii = 4, td_Ji = - 5, td_Ni = - 0.0000022425281908000\<rparr>,
      \<lparr>td_I = 24, td_Ii = 4, td_Ji = - 2, td_Ni = - 0.00000065171222895601\<rparr>,
      \<lparr>td_I = 25, td_Ii = 4, td_Ji = 10, td_Ni = - 0.00000000000014341729937924\<rparr>,
      \<lparr>td_I = 26, td_Ii = 5, td_Ji = - 8, td_Ni = - 0.00000040516996860117\<rparr>,
      \<lparr>td_I = 27, td_Ii = 8, td_Ji = - 11, td_Ni = - 0.0000000012734301741641\<rparr>,
      \<lparr>td_I = 28, td_Ii = 8, td_Ji = - 6, td_Ni = - 0.00000000017424871230634\<rparr>,
      \<lparr>td_I = 29, td_Ii = 21, td_Ji = - 29, td_Ni = - 0.00000000000000000068762131295531\<rparr>,
      \<lparr>td_I = 30, td_Ii = 23, td_Ji = - 31, td_Ni = 0.000000000000000000014478307828521\<rparr>,
      \<lparr>td_I = 31, td_Ii = 29, td_Ji = - 38, td_Ni = 0.000000000000000000000026335781662795\<rparr>,
      \<lparr>td_I = 32, td_Ii = 30, td_Ji = - 39, td_Ni = - 0.000000000000000000000011947622640071\<rparr>,
      \<lparr>td_I = 33, td_Ii = 31, td_Ji = - 40, td_Ni = 0.0000000000000000000000018228094581404\<rparr>,
      \<lparr>td_I = 34, td_Ii = 32, td_Ji = - 41, td_Ni = - 0.000000000000000000000000093537087292458\<rparr>]"

section \<open>Facts about the saturation line\<close>

lemma Pow_4: "math_Pow x 4 = x ^ 4"
  by (simp add: math_Pow_def)

lemma n_IF97_simps:
  "n_IF97 (Suc 0) = 1167.0521452767" "n_IF97 1 = 1167.0521452767"
  "n_IF97 2 = -724213.16703206" "n_IF97 3 = -17.073846940092"
  "n_IF97 4 = 12020.824702470" "n_IF97 5 = -3232555.0322333"
  "n_IF97 6 = 14.915108613530" "n_IF97 7 = -4823.2657361591"
  "n_IF97 8 = 405113.40542057" "n_IF97 9 = -0.23855557567849"
  "n_IF97 10 = 650.17534844798"
  by (simp_all add: n_IF97_def)

lemmas sat_defs = sat_theta_def sat_A_def sat_B_def sat_C_def sat_disc_def

lemmas inv_defs = inv_beta_def inv_E_def inv_F_def inv_G_def inv_disc_def inv_D_def inv_inner_def

lemma SaturationPressure_unfold:
  "SaturationPressure (Inr n) T =
     (if T \<le> 0 then Inl InvalidTemperature
      else if sat_disc n T < 0 then Inl Region4NegativeDiscriminant
      else Inr (1000000 * (2 * sat_C n T / (- sat_B n T + sqrt (sat_disc n T))) ^ 4))"
proof -
  define theta where "theta = T + n 9 / (T - n 10)"
  have A: "theta * theta + n 1 * theta + n 2 = sat_A n T"
    and B: "n 3 * theta * theta + n 4 * theta + n 5 = sat_B n T"
    and C: "n 6 * theta * theta + n 7 * theta + n 8 = sat_C n T"
    by (simp_all add: sat_defs theta_def power2_eq_square)
  have D: "sat_B n T * sat_B n T - 4 * sat_A n T * sat_C n T = sat_disc n T"
    by (simp add: sat_disc_def power2_eq_square)
  show ?thesis
    by (simp only: SaturationPressure_def Let_def sum.case theta_def [symmetric] A B C D Pow_4)
qed

lemma SaturationTemperature_unfold:
  "SaturationTemperature (Inr n) p =
     (if p \<le> 0 then Inl InvalidPressure
      else if inv_disc n p < 0 then Inl Region4InversionNegativeDiscriminant
      else if inv_inner n p < 0 then Inl Region4InversionNegativeInnerDiscriminant
      else Inr (0.5 * (n 10 + inv_D n p - sqrt (inv_inner n p))))"
proof -
  define beta where "beta = math_Pow (p / 1000000) 0.25"
  have E: "beta * beta + n 3 * beta + n 6 = inv_E n p"
    and F: "n 1 * beta * beta + n 4 * beta + n 7 = inv_F n p"
    and G: "n 2 * beta * beta + n 5 * beta + n 8 = inv_G n p"
    by (simp_all add: inv_defs beta_def power2_eq_square)
  have disc: "inv_F n p * inv_F n p - 4 * inv_E n p * inv_G n p = inv_disc n p"
    by (simp add: inv_disc_def power2_eq_square)
  have D: "2 * inv_G n p / (- inv_F n p - sqrt (inv_disc n p)) = inv_D n p"
    by (simp add: inv_D_def)
  have inner: "(n 10 + inv_D n p) * (n 10 + inv_D n p) - 4 * (n 9 + n 10 * inv_D n p) = inv_inner n p"
    by (simp add: inv_inner_def power2_eq_square)
  show ?thesis
    by (simp only: SaturationTemperature_def Let_def sum.case beta_def [symmetric] E F G disc D inner)
qed

lemma sat_disc_300: "0 \<le> sat_disc n_IF97 300"
  by (simp add: sat_defs n_IF97_simps power2_eq_square)

lemma sat_disc_200: "0 \<le> sat_disc n_IF97 200"
  by (simp add: sat_defs n_IF97_simps power2_eq_square)

lemma sat_disc_800: "sat_disc n_IF97 800 < 0"
  by (simp add: sat_defs n_IF97_simps power2_eq_square)

lemma SaturationPressure_le:
  assumes "0 < T" "0 \<le> sat_disc n T" "sat_B n T < 0" "0 \<le> sat_C n T"
  shows "\<exists>ps. SaturationPressure (Inr n) T = Inr ps \<and> 0 \<le> ps
              \<and> ps \<le> 1000000 * (2 * sat_C n T / (- sat_B n T)) ^ 4"
proof -
  let ?x = "2 * sat_C n T / (- sat_B n T + sqrt (sat_disc n T))"
  have s: "0 \<le> sqrt (sat_disc n T)"
    using assms(2) by simp
  have den: "0 < - sat_B n T + sqrt (sat_disc n T)"
    using assms(3) s by linarith
  have x0: "0 \<le> ?x"
    using assms(4) den by (intro divide_nonneg_pos) auto
  have "?x \<le> 2 * sat_C n T / (- sat_B n T)"
    using assms(3,4) s by (intro frac_le) auto
  then have "?x ^ 4 \<le> (2 * sat_C n T / (- sat_B n T)) ^ 4"
    using x0 by (rule power_mono)
  then show ?thesis
    using assms(1,2) x0 by (simp add: SaturationPressure_unfold)
qed

lemma SaturationPressure_ge:
  assumes "0 < T" "0 \<le> sat_disc n T" "sat_disc n T \<le> M\<^sup>2" "0 \<le> M"
    and "sat_B n T < 0" "0 \<le> sat_C n T"
  shows "\<exists>ps. SaturationPressure (Inr n) T = Inr ps
              \<and> 1000000 * (2 * sat_C n T / (- sat_B n T + M)) ^ 4 \<le> ps"
proof -
  let ?x = "2 * sat_C n T / (- sat_B n T + sqrt (sat_disc n T))"
  have s: "0 \<le> sqrt (sat_disc n T)"
    using assms(2) by simp
  have sM: "sqrt (sat_disc n T) \<le> M"
    using assms(3,4) by (intro real_le_lsqrt)
  have den: "0 < - sat_B n T + sqrt (sat_disc n T)"
    using assms(5) s by linarith
  have "2 * sat_C n T / (- sat_B n T + M) \<le> ?x"
    using assms(6) sM den by (intro frac_le) auto
  moreover have "0 \<le> 2 * sat_C n T / (- sat_B n T + M)"
    using assms(4,5,6) by simp
  ultimately have "(2 * sat_C n T / (- sat_B n T + M)) ^ 4 \<le> ?x ^ 4"
    by (intro power_mono)
  then show ?thesis
    using assms(1,2) by (simp add: SaturationPressure_unfold)
qed

lemma psat_300:
  "\<exists>ps. SaturationPressure (Inr n_IF97) 300 = Inr ps \<and> 1000 < ps \<and> ps < 3000000"
proof -
  have B: "sat_B n_IF97 300 < 0" and C: "0 \<le> sat_C n_IF97 300"
    by (simp_all add: sat_defs n_IF97_simps power2_eq_square)
  have M: "sat_disc n_IF97 300 \<le> 1310000\<^sup>2"
    by (simp add: sat_defs n_IF97_simps power2_eq_square)
  have up: "1000000 * (2 * sat_C n_IF97 300 / (- sat_B n_IF97 300)) ^ 4 < 3000000"
    by (simp add: sat_defs n_IF97_simps power2_eq_square power_divide)
  have lo: "1000 < 1000000 * (2 * sat_C n_IF97 300 / (- sat_B n_IF97 300 + 1310000)) ^ 4"
    by (simp add: sat_defs n_IF97_simps power2_eq_square power_divide)
  obtain ps where ps: "SaturationPressure (Inr n_IF97) 300 = Inr ps"
    and le: "ps \<le> 1000000 * (2 * sat_C n_IF97 300 / (- sat_B n_IF97 300)) ^ 4"
    using SaturationPressure_le [of 300 n_IF97] sat_disc_300 B C by auto
  obtain ps' where ps': "SaturationPressure (Inr n_IF97) 300 = Inr ps'"
    and ge: "1000000 * (2 * sat_C n_IF97 300 / (- sat_B n_IF97 300 + 1310000)) ^ 4 \<le> ps'"
    using SaturationPressure_ge [of 300 n_IF97 1310000] sat_disc_300 M B C by auto
  from ps ps' have "ps' = ps" by simp
  with ps le ge up lo show ?thesis by auto
qed

text \<open>
  C5.  With the coefficients loaded and \<open>T > 0\<close>, \<^verbatim>\<open>SaturationPressure\<close> returns
  \<open>10\<^sup>6 (2C / (-B + \<surd>(B\<^sup>2 - 4AC)))\<^sup>4\<close> when the discriminant is not negative, and the
  error for a negative discriminant otherwise; nothing is clamped.
\<close>

theorem SaturationPressure_closed_form:
  assumes "0 < T"
  shows "(0 \<le> sat_disc n T \<longrightarrow>
            SaturationPressure (Inr n) T =
              Inr (1000000 * (2 * sat_C n T / (- sat_B n T + sqrt ((sat_B n T)\<^sup>2 - 4 * sat_A n T * sat_C n T))) ^ 4))
       \<and> (sat_disc n T < 0 \<longrightarrow> SaturationPressure (Inr n) T = Inl Region4NegativeDiscriminant)"
  using assms by (simp add: SaturationPressure_unfold) (simp add: sat_disc_def)

theorem SaturationPressure_closed_form_witness:
  "(0::real) < 300 \<and> 0 \<le> sat_disc n_IF97 300
   \<and> SaturationPressure (Inr n_IF97) 300 =
       Inr (1000000 * (2 * sat_C n_IF97 300 /
              (- sat_B n_IF97 300 + sqrt ((sat_B n_IF97 300)\<^sup>2 - 4 * sat_A n_IF97 300 * sat_C n_IF97 300))) ^ 4)
   \<and> (0::real) < 800 \<and> sat_disc n_IF97 800 < 0
   \<and> SaturationPressure (Inr n_IF97) 800 = Inl Region4NegativeDiscriminant"
  using SaturationPressure_closed_form [of 300 n_IF97] SaturationPressure_closed_form [of 800 n_IF97]
    sat_disc_300 sat_disc_800
  by simp

text \<open>
  C6, as stated, fails: at \<open>T = 200\<close> K, below the triple point, the call returns a
  pressure and no error.
\<close>

theorem SaturationPressure_below_range_counterexample:
  "(0::real) < 200 \<and> (200::real) < 273.16
   \<and> SaturationPressure (Inr n_IF97) 200 =
       Inr (1000000 * (2 * sat_C n_IF97 200 / (- sat_B n_IF97 200 + sqrt (sat_disc n_IF97 200))) ^ 4)"
  using sat_disc_200 by (simp add: SaturationPressure_unfold)

text \<open>
  C6, amended.  With the coefficients loaded, \<^verbatim>\<open>SaturationPressure(T)\<close> returns an error
  exactly when \<open>T \<le> 0\<close> or the discriminant is negative, and
  \<^verbatim>\<open>SaturationTemperature(p)\<close> exactly when \<open>p \<le> 0\<close> or one of its two discriminants is
  negative.  Neither compares its argument with the bounds of the saturation domain.
\<close>

theorem saturation_errors:
  "(isl (SaturationPressure (Inr n) T) \<longleftrightarrow> T \<le> 0 \<or> sat_disc n T < 0)
   \<and> (isl (SaturationTemperature (Inr n) p) \<longleftrightarrow>
        p \<le> 0 \<or> inv_disc n p < 0 \<or> (0 \<le> inv_disc n p \<and> inv_inner n p < 0))"
  by (auto simp add: SaturationPressure_unfold SaturationTemperature_unfold)

theorem saturation_errors_witness:
  "isl (SaturationPressure (Inr n_IF97) (-5)) \<and> isl (SaturationPressure (Inr n_IF97) 800)
   \<and> \<not> isl (SaturationPressure (Inr n_IF97) 200) \<and> isl (SaturationTemperature (Inr n_IF97) 0)"
  using saturation_errors [of n_IF97 "-5" 0] saturation_errors [of n_IF97 800 0]
    saturation_errors [of n_IF97 200 0] sat_disc_200 sat_disc_800
  by simp

section \<open>The region classifier\<close>

lemma b23_example_simps:
  "b23_example (Suc 0) = 600" "b23_example 1 = 600" "b23_example 2 = 10" "b23_example 3 = 0"
  by (simp_all add: b23_example_def)

text \<open>
  C1.  \<^verbatim>\<open>RegionFromTP\<close> returns one of the tags 1, 2, 3, 5, never 4, in this order:
  region 5 above 1073.15 K; below 647.096 K, when the saturation pressure is computed,
  region 1 for \<open>p \<ge> p\<^sub>s\<^sub>a\<^sub>t\<close> and region 2 for \<open>p < p\<^sub>s\<^sub>a\<^sub>t\<close>; otherwise, when the B23
  temperature is computed, region 2 for \<open>T \<ge> T\<^sub>B\<^sub>2\<^sub>3\<close> and region 3 for \<open>T < T\<^sub>B\<^sub>2\<^sub>3\<close>;
  otherwise region 3 for \<open>p \<ge> 16.5292\<close> MPa and region 2 below.
\<close>

theorem RegionFromTP_order:
  "RegionFromTP ld4 ldb T p \<in> {Region1, Region2, Region3, Region5}
   \<and> RegionFromTP ld4 ldb T p \<noteq> Region4
   \<and> (T > 1073.15 \<longrightarrow> RegionFromTP ld4 ldb T p = Region5)
   \<and> (\<not> T > 1073.15 \<and> T < 647.096 \<and> SaturationPressure ld4 T = Inr psat \<longrightarrow>
        (p \<ge> psat \<longrightarrow> RegionFromTP ld4 ldb T p = Region1)
        \<and> (p < psat \<longrightarrow> RegionFromTP ld4 ldb T p = Region2))
   \<and> (\<not> T > 1073.15 \<and> \<not> (T < 647.096 \<and> \<not> isl (SaturationPressure ld4 T))
        \<and> B23T ldb (p / 1000000) = Inr T23 \<longrightarrow>
        (T \<ge> T23 \<longrightarrow> RegionFromTP ld4 ldb T p = Region2)
        \<and> (T < T23 \<longrightarrow> RegionFromTP ld4 ldb T p = Region3))
   \<and> (\<not> T > 1073.15 \<and> \<not> (T < 647.096 \<and> \<not> isl (SaturationPressure ld4 T))
        \<and> isl (B23T ldb (p / 1000000)) \<longrightarrow>
        (p \<ge> 16529200 \<longrightarrow> RegionFromTP ld4 ldb T p = Region3)
        \<and> (p < 16529200 \<longrightarrow> RegionFromTP ld4 ldb T p = Region2))"
  by (cases "SaturationPressure ld4 T"; cases "B23T ldb (p / 1000000)")
     (auto simp add: RegionFromTP_def Let_def)

theorem RegionFromTP_order_witness:
  "RegionFromTP (Inr n_IF97) (Inr b23_example) 1100 1000000 = Region5
   \<and> RegionFromTP (Inr n_IF97) (Inr b23_example) 300 3000000 = Region1
   \<and> RegionFromTP (Inr n_IF97) (Inr b23_example) 300 1000 = Region2
   \<and> RegionFromTP (Inr n_IF97) (Inr b23_example) 900 20000000 = Region2
   \<and> RegionFromTP (Inr n_IF97) (Inr b23_example) 700 20000000 = Region3
   \<and> RegionFromTP (Inl LoadError) (Inr b23_example) 300 20000000 = Region3
   \<and> RegionFromTP (Inr n_IF97) (Inl LoadError) 700 20000000 = Region3
   \<and> RegionFromTP (Inr n_IF97) (Inl LoadError) 700 1000000 = Region2"
proof -
  obtain ps where ps: "SaturationPressure (Inr n_IF97) 300 = Inr ps" "1000 < ps" "ps < 3000000"
    using psat_300 by blast
  have b: "B23T (Inr b23_example) (20000000 / 1000000) = Inr 800"
    by (simp add: B23T_def b23_example_simps)
  have l: "isl (B23T (Inl LoadError) q)" for q
    by (simp add: B23T_def)
  have s: "isl (SaturationPressure (Inl LoadError) 300)"
    by (simp add: SaturationPressure_def)
  show ?thesis
    using RegionFromTP_order [of "Inr n_IF97" "Inr b23_example" 1100 1000000 0 0]
      RegionFromTP_order [of "Inr n_IF97" "Inr b23_example" 300 3000000 ps 0]
      RegionFromTP_order [of "Inr n_IF97" "Inr b23_example" 300 1000 ps 0]
      RegionFromTP_order [of "Inr n_IF97" "Inr b23_example" 900 20000000 0 800]
      RegionFromTP_order [of "Inr n_IF97" "Inr b23_example" 700 20000000 0 800]
      RegionFromTP_order [of "Inl LoadError" "Inr b23_example" 300 20000000 0 800]
      RegionFromTP_order [of "Inr n_IF97" "Inl LoadError" 700 20000000 0 0]
      RegionFromTP_order [of "Inr n_IF97" "Inl LoadError" 700 1000000 0 0]
      ps b l s
    by simp
qed

section \<open>Facts about the region equations\<close>

lemma foldl_add_sum_list:
  "foldl (\<lambda>acc t. acc + f t) a xs = a + sum_list (map f xs)" for a :: real
  by (induction xs arbitrary: a) simp_all

lemma math_Pow_of_int: "math_Pow x (of_int k) = x powi k"
  by (simp add: math_Pow_def)

lemma math_Pow_simps:
  "math_Pow x 0 = 1" "math_Pow x 1 = x" "math_Pow x 2 = x\<^sup>2"
  "math_Pow x (-1) = inverse x" "math_Pow x (-2) = inverse (x\<^sup>2)"
  using math_Pow_of_int [of x 0] math_Pow_of_int [of x 1] math_Pow_of_int [of x 2]
    math_Pow_of_int [of x "-1"] math_Pow_of_int [of x "-2"]
  by (simp_all add: power_int_minus)

lemma finiteAll_True: "finiteAll xs"
  by (induction xs) (simp_all add: IsNaN_def IsInf_def)

lemma r1_example_sums:
  "r1_gPi rows_example p t = 100 - 2 * (7.1 - p)"
  "r1_gPiPi rows_example p t = 2"
  "r1_gTau rows_example p t = - 2 * (t - 1.222)"
  "r1_gTauTau rows_example p t = - 2"
  "r1_gPiTau rows_example p t = 0"
  "r1_g rows_example p t = - 100 * (7.1 - p) + (7.1 - p)\<^sup>2 - (t - 1.222)\<^sup>2"
  by (simp_all add: r1_gPi_def r1_gPiPi_def r1_gTau_def r1_gTauTau_def r1_gPiTau_def r1_g_def
      rows_example_def math_Pow_simps)

lemma ideal_example_sums:
  "ideal_g0 ideal_example p t = ln p - t\<^sup>2"
  "ideal_g0Tau ideal_example t = - 2 * t"
  "ideal_g0TauTau ideal_example t = - 2"
  by (simp_all add: ideal_g0_def ideal_g0Tau_def ideal_g0TauTau_def ideal_example_def math_Pow_simps)

lemma ideal_example5_sums:
  "ideal_g0 ideal_example5 p t = ln p + t\<^sup>2"
  "ideal_g0Tau ideal_example5 t = 2 * t"
  "ideal_g0TauTau ideal_example5 t = 2"
  by (simp_all add: ideal_g0_def ideal_g0Tau_def ideal_g0TauTau_def ideal_example5_def math_Pow_simps)

lemma resid_example_sums:
  "resid_gr sh resid_example p t = - 0.01 * p * (t - sh)"
  "resid_grPi sh resid_example p t = - 0.01 * (t - sh)"
  "resid_grPiPi sh resid_example p t = 0"
  "resid_grTau sh resid_example p t = - 0.01 * p"
  "resid_grTauTau sh resid_example p t = 0"
  "resid_grPiTau sh resid_example p t = - 0.01"
  by (simp_all add: resid_gr_def resid_grPi_def resid_grPiPi_def resid_grTau_def resid_grTauTau_def
      resid_grPiTau_def resid_example_def math_Pow_simps)

text \<open>What a successful Region 1 call has computed and checked.\<close>

lemma region1_Calculate_Inr:
  assumes "region1_Calculate ld ld4 tCelsius pPascal = Inr pr"
  shows "\<exists>rows. ld = Inr rows \<and>
    (let T = tCelsius + 273.15; pi' = r1_pi pPascal; tau = r1_tau tCelsius;
         g = r1_g rows pi' tau; gPi = r1_gPi rows pi' tau; gPiPi = r1_gPiPi rows pi' tau;
         gTau = r1_gTau rows pi' tau; gTauTau = r1_gTauTau rows pi' tau;
         gPiTau = r1_gPiTau rows pi' tau;
         cv = referR * (- (tau * tau) * gTauTau + (gPi - tau * gPiTau)\<^sup>2 / gPiPi);
         denominator = gPiPi - (gPi - tau * gPiTau)\<^sup>2 / (tau * tau * gTauTau)
     in - 273.15 \<le> tCelsius \<and> 0 < pPascal \<and> T \<le> 623.15 \<and> pPascal \<le> 100000000
        \<and> 1 / 10 ^ 10 \<le> \<bar>denominator\<bar>
        \<and> pr = \<lparr>SpecificVolume = pi' * gPi * (referR * T / (pPascal / 1000)),
                 Density = pPascal / 1000 / (referR * T * (pi' * gPi)),
                 SpecificInternalEnergy = referR * T * (tau * gTau - pi' * gPi),
                 SpecificEntropy = referR * (tau * gTau - g),
                 SpecificEnthalpy = referR * T * tau * gTau,
                 SpecificIsochoricHeatCapacity = cv,
                 SpecificIsobaricHeatCapacity = cv,
                 SpeedOfSound = sqrt (referR * 1000 * T * (gPi * gPi / \<bar>denominator\<bar>))\<rparr>
        \<and> 0 < SpecificVolume pr \<and> 0 < Density pr \<and> 0 < SpeedOfSound pr \<and> 0 < cv)"
  using assms
  by (cases ld)
     (auto simp add: region1_Calculate_def Let_def r1_pi_def r1_tau_def referP1_def referT1_def
        math_Pow_simps not_less not_le split: if_splits)

lemma region1_example:
  "region1_Calculate (Inr rows_example) (Inr n_IF97) 26.85 3000000 = Inr region1_example_result"
  using psat_300
  by (auto simp add: region1_Calculate_def Let_def r1_example_sums referP1_def referT1_def referR_def
      finiteAll_True math_Pow_simps power_divide region1_example_result_def)

lemma region2_example:
  "region2_Calculate (Inr ideal_example) (Inr resid_example) (Inr n_IF97) 426.85 1000000
     = Inr region2_example_result"
  by (simp add: region2_Calculate_def Let_def ideal_example_sums resid_example_sums referP2_def
      referT2_def referR_def finiteAll_True math_Pow_simps power_divide region2_example_result_def)

lemma region2_example_rejects:
  "region2_Calculate (Inr ideal_example5) (Inr resid_example) (Inr n_IF97) 426.85 1000000
     = Inl Region2HeatCapacitiesNonPositive"
  by (simp add: region2_Calculate_def Let_def ideal_example5_sums resid_example_sums referP2_def
      referT2_def referR_def finiteAll_True math_Pow_simps power_divide)

lemma region5_example:
  "region5_Calculate (Inr ideal_example5) (Inr resid_example) 1226.85 1000000
     = Inr region5_example_result"
  by (simp add: region5_Calculate_def Let_def ideal_example5_sums resid_example_sums referP5_def
      referT5_def referR_def math_Pow_simps power_divide region5_example_result_def)

lemmas ps_consts = Tstar3aPS_def pstarPS_def sstar3aPS_def piShift3aPS_def sigShift3aPS_def
  vstar3aPS_def piShiftV3aPS_def sigShiftV3aPS_def Tstar3bPS_def sstar3bPS_def piShift3bPS_def
  sigShift3bPS_def vstar3bPS_def piShiftV3bPS_def sigShiftV3bPS_def

lemma hs_example_a:
  "PropertiesFromHS (Inr hs_example) (Inr ps_example) 2000 4
     = Inr (25000000, 43073 / 275, hs_example_result_a)"
  by (simp add: PropertiesFromHS_def PressureFromHS_def PressureHS3a_def PressureHS3b_def validateHS_def
      scKJperKgK_def Tps_def Vps_def evalSeries_def powi_go_def hs_example_def ps_example_def
      ps_consts Let_def IsNaN_def IsInf_def math_Pow_simps power_divide hs_example_result_a_def)

lemma hs_example_b:
  "PropertiesFromHS (Inr hs_example) (Inr ps_example) 2600 5
     = Inr (25000000, 142889 / 1325, hs_example_result_b)"
  by (simp add: PropertiesFromHS_def PressureFromHS_def PressureHS3a_def PressureHS3b_def validateHS_def
      scKJperKgK_def Tps_def Vps_def evalSeries_def powi_go_def hs_example_def ps_example_def
      ps_consts Let_def IsNaN_def IsInf_def math_Pow_simps power_divide hs_example_result_b_def)

section \<open>Region 1 with the table of the release\<close>

lemma math_Pow_numeral: "math_Pow x (numeral k) = x ^ numeral k"
  using math_Pow_of_int [of x "numeral k"] by simp

lemma math_Pow_neg_numeral: "math_Pow x (- numeral k) = inverse (x ^ numeral k)"
  using math_Pow_of_int [of x "- numeral k"] by (simp add: power_int_minus)

lemma sum_list_bounds:
  fixes xs :: "real list"
  assumes "list_all2 (\<lambda>x (l, u). l \<le> x \<and> x \<le> u) xs bs"
  shows "sum_list (map fst bs) \<le> sum_list xs \<and> sum_list xs \<le> sum_list (map snd bs)"
  using assms by (induction rule: list_all2_induct) auto

text \<open>A term with a high power of \<open>7.1 - \<pi> \<le> 7\<close> and a high negative power of
  \<open>\<tau> - 1.222 \<ge> 10 / 3\<close> is small.\<close>

lemma high_term_bound:
  fixes a b c :: real
  assumes "0 \<le> a" "a \<le> 7" "10 / 3 \<le> b"
  shows "\<bar>c * math_Pow a (real i) * math_Pow b (- real j)\<bar> \<le> \<bar>c\<bar> * 7 ^ i * (3 / 10) ^ j"
proof -
  have pa: "math_Pow a (real i) = a ^ i"
    using math_Pow_of_int [of a "int i"] by simp
  have pb: "math_Pow b (- real j) = inverse (b ^ j)"
    using math_Pow_of_int [of b "- int j"] by (simp add: power_int_minus)
  have a: "0 \<le> a ^ i" "a ^ i \<le> 7 ^ i"
    using assms(1,2) by (simp_all add: power_mono)
  have b0: "0 < b"
    using assms(3) by simp
  have "(10 / 3) ^ j \<le> b ^ j"
    using assms(3) by (intro power_mono) simp_all
  moreover have "0 < ((10 / 3) ^ j :: real)"
    by simp
  ultimately have "inverse (b ^ j) \<le> inverse ((10 / 3) ^ j)"
    by (rule le_imp_inverse_le)
  also have "\<dots> = (3 / 10) ^ j"
    by (simp add: power_divide)
  finally have b: "inverse (b ^ j) \<le> (3 / 10) ^ j" .
  have b': "0 \<le> inverse (b ^ j)"
    using b0 by simp
  have "a ^ i * inverse (b ^ j) \<le> 7 ^ i * (3 / 10) ^ j"
    using a b b' by (intro mult_mono) simp_all
  then have "\<bar>c\<bar> * (a ^ i * inverse (b ^ j)) \<le> \<bar>c\<bar> * (7 ^ i * (3 / 10) ^ j)"
    by (intro mult_left_mono) simp_all
  moreover have "\<bar>c * a ^ i * inverse (b ^ j)\<bar> = \<bar>c\<bar> * (a ^ i * inverse (b ^ j))"
    using a(1) b' by (simp add: abs_mult)
  ultimately show ?thesis
    unfolding pa pb by (simp add: mult.assoc)
qed

lemma r1_gPi_IF97_low:
  "list_all2 (\<lambda>x (l, u). l \<le> x \<and> x \<le> u)
     (map (\<lambda>row. (- td_Ni row) * td_Ii row * math_Pow (7.1 - r1_pi 3000000) (td_Ii row - 1)
        * math_Pow (r1_tau 26.85 - 1.222) (td_Ji row)) (take 28 rows_IF97))
     [(0, 0),
      (0, 0),
      (0, 0),
      (0, 0),
      (0, 0),
      (0, 0),
      (0, 0),
      (0, 0),
      (- 0.000000004689, - 0.000000004688),
      (0.000000116056, 0.000000116057),
      (0.005588601594, 0.005588601595),
      (0.03252974877, 0.032529748771),
      (0.074218154962, 0.074218154963),
      (0.002073096108, 0.002073096109),
      (0.000166406493, 0.000166406494),
      (0.004151353486, 0.004151353487),
      (- 0.002240953246, - 0.002240953245),
      (0.002396421954, 0.002396421955),
      (0.00001079803, 0.000010798031),
      (0.000034121917, 0.000034121918),
      (0.000405961355, 0.000405961356),
      (0.000188344354, 0.000188344355),
      (0.000006557209, 0.00000655721),
      (0.00007476652, 0.000074766521),
      (0.000038988213, 0.000038988214),
      (0.000000261138, 0.000000261139),
      (0.000000011084, 0.000000011085),
      (0.000000687081, 0.000000687082)]"
  by (simp add: rows_IF97_def r1_pi_def r1_tau_def
      math_Pow_simps math_Pow_numeral math_Pow_neg_numeral power_divide)

lemma r1_gPi_IF97_high:
  fixes a b :: real
  assumes "0 \<le> a" "a \<le> 7" "10 / 3 \<le> b"
  shows "\<bar>sum_list (map (\<lambda>row. (- td_Ni row) * td_Ii row * math_Pow (a) (td_Ii row - 1)
        * math_Pow (b) (td_Ji row)) (drop 28 rows_IF97))\<bar> \<le> 6 / 10 ^ 12"
proof -
  let ?f = "(\<lambda>row. (- td_Ni row) * td_Ii row * math_Pow (a) (td_Ii row - 1)
    * math_Pow (b) (td_Ji row))"
  have d: "drop 28 rows_IF97 =
        [\<lparr>td_I = 29, td_Ii = 21, td_Ji = - 29, td_Ni = - 0.00000000000000000068762131295531\<rparr>,
         \<lparr>td_I = 30, td_Ii = 23, td_Ji = - 31, td_Ni = 0.000000000000000000014478307828521\<rparr>,
         \<lparr>td_I = 31, td_Ii = 29, td_Ji = - 38, td_Ni = 0.000000000000000000000026335781662795\<rparr>,
         \<lparr>td_I = 32, td_Ii = 30, td_Ji = - 39, td_Ni = - 0.000000000000000000000011947622640071\<rparr>,
         \<lparr>td_I = 33, td_Ii = 31, td_Ji = - 40, td_Ni = 0.0000000000000000000000018228094581404\<rparr>,
         \<lparr>td_I = 34, td_Ii = 32, td_Ji = - 41, td_Ni = - 0.000000000000000000000000093537087292458\<rparr>]"
    by (simp add: rows_IF97_def)
  have t29: "\<bar>?f \<lparr>td_I = 29, td_Ii = 21, td_Ji = - 29, td_Ni = - 0.00000000000000000068762131295531\<rparr>\<bar> \<le> 1 / 10 ^ 12"
  proof -
    have "\<bar>?f \<lparr>td_I = 29, td_Ii = 21, td_Ji = - 29, td_Ni = - 0.00000000000000000068762131295531\<rparr>\<bar>
        \<le> \<bar>0.00000000000000001444004757206151\<bar> * 7 ^ 20 * (3 / 10) ^ 29"
      using high_term_bound [OF assms, of "0.00000000000000001444004757206151" 20 29] by simp
    also have "\<dots> \<le> 1 / 10 ^ 12"
      by (simp add: power_divide)
    finally show ?thesis .
  qed
  have t30: "\<bar>?f \<lparr>td_I = 30, td_Ii = 23, td_Ji = - 31, td_Ni = 0.000000000000000000014478307828521\<rparr>\<bar> \<le> 1 / 10 ^ 12"
  proof -
    have "\<bar>?f \<lparr>td_I = 30, td_Ii = 23, td_Ji = - 31, td_Ni = 0.000000000000000000014478307828521\<rparr>\<bar>
        \<le> \<bar>- 0.000000000000000000333001080055983\<bar> * 7 ^ 22 * (3 / 10) ^ 31"
      using high_term_bound [OF assms, of "- 0.000000000000000000333001080055983" 22 31] by simp
    also have "\<dots> \<le> 1 / 10 ^ 12"
      by (simp add: power_divide)
    finally show ?thesis .
  qed
  have t31: "\<bar>?f \<lparr>td_I = 31, td_Ii = 29, td_Ji = - 38, td_Ni = 0.000000000000000000000026335781662795\<rparr>\<bar> \<le> 1 / 10 ^ 12"
  proof -
    have "\<bar>?f \<lparr>td_I = 31, td_Ii = 29, td_Ji = - 38, td_Ni = 0.000000000000000000000026335781662795\<rparr>\<bar>
        \<le> \<bar>- 0.000000000000000000000763737668221055\<bar> * 7 ^ 28 * (3 / 10) ^ 38"
      using high_term_bound [OF assms, of "- 0.000000000000000000000763737668221055" 28 38] by simp
    also have "\<dots> \<le> 1 / 10 ^ 12"
      by (simp add: power_divide)
    finally show ?thesis .
  qed
  have t32: "\<bar>?f \<lparr>td_I = 32, td_Ii = 30, td_Ji = - 39, td_Ni = - 0.000000000000000000000011947622640071\<rparr>\<bar> \<le> 1 / 10 ^ 12"
  proof -
    have "\<bar>?f \<lparr>td_I = 32, td_Ii = 30, td_Ji = - 39, td_Ni = - 0.000000000000000000000011947622640071\<rparr>\<bar>
        \<le> \<bar>0.00000000000000000000035842867920213\<bar> * 7 ^ 29 * (3 / 10) ^ 39"
      using high_term_bound [OF assms, of "0.00000000000000000000035842867920213" 29 39] by simp
    also have "\<dots> \<le> 1 / 10 ^ 12"
      by (simp add: power_divide)
    finally show ?thesis .
  qed
  have t33: "\<bar>?f \<lparr>td_I = 33, td_Ii = 31, td_Ji = - 40, td_Ni = 0.0000000000000000000000018228094581404\<rparr>\<bar> \<le> 1 / 10 ^ 12"
  proof -
    have "\<bar>?f \<lparr>td_I = 33, td_Ii = 31, td_Ji = - 40, td_Ni = 0.0000000000000000000000018228094581404\<rparr>\<bar>
        \<le> \<bar>- 0.0000000000000000000000565070932023524\<bar> * 7 ^ 30 * (3 / 10) ^ 40"
      using high_term_bound [OF assms, of "- 0.0000000000000000000000565070932023524" 30 40] by simp
    also have "\<dots> \<le> 1 / 10 ^ 12"
      by (simp add: power_divide)
    finally show ?thesis .
  qed
  have t34: "\<bar>?f \<lparr>td_I = 34, td_Ii = 32, td_Ji = - 41, td_Ni = - 0.000000000000000000000000093537087292458\<rparr>\<bar> \<le> 1 / 10 ^ 12"
  proof -
    have "\<bar>?f \<lparr>td_I = 34, td_Ii = 32, td_Ji = - 41, td_Ni = - 0.000000000000000000000000093537087292458\<rparr>\<bar>
        \<le> \<bar>0.000000000000000000000002993186793358656\<bar> * 7 ^ 31 * (3 / 10) ^ 41"
      using high_term_bound [OF assms, of "0.000000000000000000000002993186793358656" 31 41] by simp
    also have "\<dots> \<le> 1 / 10 ^ 12"
      by (simp add: power_divide)
    finally show ?thesis .
  qed
  show ?thesis
    unfolding d list.map sum_list.Cons sum_list.Nil
    using t29 t30 t31 t32 t33 t34 by linarith
qed

lemma r1_gPi_IF97:
  "0.1196 \<le> r1_gPi rows_IF97 (r1_pi 3000000) (r1_tau 26.85)"
  "r1_gPi rows_IF97 (r1_pi 3000000) (r1_tau 26.85) \<le> 0.1197"
proof -
  let ?f = "(\<lambda>row. (- td_Ni row) * td_Ii row * math_Pow (7.1 - r1_pi 3000000) (td_Ii row - 1)
    * math_Pow (r1_tau 26.85 - 1.222) (td_Ji row))"
  have ab: "0 \<le> 7.1 - r1_pi 3000000" "7.1 - r1_pi 3000000 \<le> 7" "10 / 3 \<le> r1_tau 26.85 - 1.222"
    by (simp_all add: r1_pi_def r1_tau_def)
  have hi: "\<bar>sum_list (map ?f (drop 28 rows_IF97))\<bar> \<le> 6 / 10 ^ 12"
    using ab by (rule r1_gPi_IF97_high)
  have lo: "0.119643438389 \<le> sum_list (map ?f (take 28 rows_IF97))"
    "sum_list (map ?f (take 28 rows_IF97)) \<le> 0.119643438409"
    using sum_list_bounds [OF r1_gPi_IF97_low] by simp_all
  have "sum_list (map ?f rows_IF97) = sum_list (map ?f (take 28 rows_IF97 @ drop 28 rows_IF97))"
    by (simp only: append_take_drop_id)
  also have "\<dots> = sum_list (map ?f (take 28 rows_IF97)) + sum_list (map ?f (drop 28 rows_IF97))"
    by (simp only: map_append sum_list_append)
  finally have split: "sum_list (map ?f rows_IF97)
      = sum_list (map ?f (take 28 rows_IF97)) + sum_list (map ?f (drop 28 rows_IF97))" .
  have "r1_gPi rows_IF97 (r1_pi 3000000) (r1_tau 26.85) = 0 + sum_list (map ?f rows_IF97)"
    unfolding r1_gPi_def by (rule foldl_add_sum_list)
  then have eq: "r1_gPi rows_IF97 (r1_pi 3000000) (r1_tau 26.85)
      = sum_list (map ?f (take 28 rows_IF97)) + sum_list (map ?f (drop 28 rows_IF97))"
    unfolding split by simp
  show "0.1196 \<le> r1_gPi rows_IF97 (r1_pi 3000000) (r1_tau 26.85)"
    unfolding eq using lo(1) hi by simp
  show "r1_gPi rows_IF97 (r1_pi 3000000) (r1_tau 26.85) \<le> 0.1197"
    unfolding eq using lo(2) hi by simp
qed

lemma r1_gPiPi_IF97_low:
  "list_all2 (\<lambda>x (l, u). l \<le> x \<and> x \<le> u)
     (map (\<lambda>row. td_Ni row * td_Ii row * (td_Ii row - 1) * math_Pow (7.1 - r1_pi 3000000) (td_Ii row - 2)
        * math_Pow (r1_tau 26.85 - 1.222) (td_Ji row)) (take 28 rows_IF97))
     [(0, 0),
      (0, 0),
      (0, 0),
      (0, 0),
      (0, 0),
      (0, 0),
      (0, 0),
      (0, 0),
      (0, 0),
      (0, 0),
      (0, 0),
      (0, 0),
      (0, 0),
      (0, 0),
      (- 0.000024052354, - 0.000024052353),
      (- 0.000600035616, - 0.000600035615),
      (0.000323906832, 0.000323906833),
      (- 0.000346378243, - 0.000346378242),
      (- 0.000001560745, - 0.000001560744),
      (- 0.000009863948, - 0.000009863947),
      (- 0.00011735511, - 0.000117355109),
      (- 0.000054446494, - 0.000054446493),
      (- 0.000002843333, - 0.000002843332),
      (- 0.000032420204, - 0.000032420203),
      (- 0.000016906041, - 0.00001690604),
      (- 0.00000015098, - 0.000000150979),
      (- 0.000000011215, - 0.000000011214),
      (- 0.000000695174, - 0.000000695173)]"
  by (simp add: rows_IF97_def r1_pi_def r1_tau_def
      math_Pow_simps math_Pow_numeral math_Pow_neg_numeral power_divide)

lemma r1_gPiPi_IF97_high:
  fixes a b :: real
  assumes "0 \<le> a" "a \<le> 7" "10 / 3 \<le> b"
  shows "\<bar>sum_list (map (\<lambda>row. td_Ni row * td_Ii row * (td_Ii row - 1) * math_Pow (a) (td_Ii row - 2)
        * math_Pow (b) (td_Ji row)) (drop 28 rows_IF97))\<bar> \<le> 6 / 10 ^ 12"
proof -
  let ?f = "(\<lambda>row. td_Ni row * td_Ii row * (td_Ii row - 1) * math_Pow (a) (td_Ii row - 2)
    * math_Pow (b) (td_Ji row))"
  have d: "drop 28 rows_IF97 =
        [\<lparr>td_I = 29, td_Ii = 21, td_Ji = - 29, td_Ni = - 0.00000000000000000068762131295531\<rparr>,
         \<lparr>td_I = 30, td_Ii = 23, td_Ji = - 31, td_Ni = 0.000000000000000000014478307828521\<rparr>,
         \<lparr>td_I = 31, td_Ii = 29, td_Ji = - 38, td_Ni = 0.000000000000000000000026335781662795\<rparr>,
         \<lparr>td_I = 32, td_Ii = 30, td_Ji = - 39, td_Ni = - 0.000000000000000000000011947622640071\<rparr>,
         \<lparr>td_I = 33, td_Ii = 31, td_Ji = - 40, td_Ni = 0.0000000000000000000000018228094581404\<rparr>,
         \<lparr>td_I = 34, td_Ii = 32, td_Ji = - 41, td_Ni = - 0.000000000000000000000000093537087292458\<rparr>]"
    by (simp add: rows_IF97_def)
  have t29: "\<bar>?f \<lparr>td_I = 29, td_Ii = 21, td_Ji = - 29, td_Ni = - 0.00000000000000000068762131295531\<rparr>\<bar> \<le> 1 / 10 ^ 12"
  proof -
    have "\<bar>?f \<lparr>td_I = 29, td_Ii = 21, td_Ji = - 29, td_Ni = - 0.00000000000000000068762131295531\<rparr>\<bar>
        \<le> \<bar>- 0.0000000000000002888009514412302\<bar> * 7 ^ 19 * (3 / 10) ^ 29"
      using high_term_bound [OF assms, of "- 0.0000000000000002888009514412302" 19 29] by simp
    also have "\<dots> \<le> 1 / 10 ^ 12"
      by (simp add: power_divide)
    finally show ?thesis .
  qed
  have t30: "\<bar>?f \<lparr>td_I = 30, td_Ii = 23, td_Ji = - 31, td_Ni = 0.000000000000000000014478307828521\<rparr>\<bar> \<le> 1 / 10 ^ 12"
  proof -
    have "\<bar>?f \<lparr>td_I = 30, td_Ii = 23, td_Ji = - 31, td_Ni = 0.000000000000000000014478307828521\<rparr>\<bar>
        \<le> \<bar>0.000000000000000007326023761231626\<bar> * 7 ^ 21 * (3 / 10) ^ 31"
      using high_term_bound [OF assms, of "0.000000000000000007326023761231626" 21 31] by simp
    also have "\<dots> \<le> 1 / 10 ^ 12"
      by (simp add: power_divide)
    finally show ?thesis .
  qed
  have t31: "\<bar>?f \<lparr>td_I = 31, td_Ii = 29, td_Ji = - 38, td_Ni = 0.000000000000000000000026335781662795\<rparr>\<bar> \<le> 1 / 10 ^ 12"
  proof -
    have "\<bar>?f \<lparr>td_I = 31, td_Ii = 29, td_Ji = - 38, td_Ni = 0.000000000000000000000026335781662795\<rparr>\<bar>
        \<le> \<bar>0.00000000000000000002138465471018954\<bar> * 7 ^ 27 * (3 / 10) ^ 38"
      using high_term_bound [OF assms, of "0.00000000000000000002138465471018954" 27 38] by simp
    also have "\<dots> \<le> 1 / 10 ^ 12"
      by (simp add: power_divide)
    finally show ?thesis .
  qed
  have t32: "\<bar>?f \<lparr>td_I = 32, td_Ii = 30, td_Ji = - 39, td_Ni = - 0.000000000000000000000011947622640071\<rparr>\<bar> \<le> 1 / 10 ^ 12"
  proof -
    have "\<bar>?f \<lparr>td_I = 32, td_Ii = 30, td_Ji = - 39, td_Ni = - 0.000000000000000000000011947622640071\<rparr>\<bar>
        \<le> \<bar>- 0.00000000000000000001039443169686177\<bar> * 7 ^ 28 * (3 / 10) ^ 39"
      using high_term_bound [OF assms, of "- 0.00000000000000000001039443169686177" 28 39] by simp
    also have "\<dots> \<le> 1 / 10 ^ 12"
      by (simp add: power_divide)
    finally show ?thesis .
  qed
  have t33: "\<bar>?f \<lparr>td_I = 33, td_Ii = 31, td_Ji = - 40, td_Ni = 0.0000000000000000000000018228094581404\<rparr>\<bar> \<le> 1 / 10 ^ 12"
  proof -
    have "\<bar>?f \<lparr>td_I = 33, td_Ii = 31, td_Ji = - 40, td_Ni = 0.0000000000000000000000018228094581404\<rparr>\<bar>
        \<le> \<bar>0.000000000000000000001695212796070572\<bar> * 7 ^ 29 * (3 / 10) ^ 40"
      using high_term_bound [OF assms, of "0.000000000000000000001695212796070572" 29 40] by simp
    also have "\<dots> \<le> 1 / 10 ^ 12"
      by (simp add: power_divide)
    finally show ?thesis .
  qed
  have t34: "\<bar>?f \<lparr>td_I = 34, td_Ii = 32, td_Ji = - 41, td_Ni = - 0.000000000000000000000000093537087292458\<rparr>\<bar> \<le> 1 / 10 ^ 12"
  proof -
    have "\<bar>?f \<lparr>td_I = 34, td_Ii = 32, td_Ji = - 41, td_Ni = - 0.000000000000000000000000093537087292458\<rparr>\<bar>
        \<le> \<bar>- 0.000000000000000000000092788790594118336\<bar> * 7 ^ 30 * (3 / 10) ^ 41"
      using high_term_bound [OF assms, of "- 0.000000000000000000000092788790594118336" 30 41] by simp
    also have "\<dots> \<le> 1 / 10 ^ 12"
      by (simp add: power_divide)
    finally show ?thesis .
  qed
  show ?thesis
    unfolding d list.map sum_list.Cons sum_list.Nil
    using t29 t30 t31 t32 t33 t34 by linarith
qed

lemma r1_gPiPi_IF97:
  "- 0.000883 \<le> r1_gPiPi rows_IF97 (r1_pi 3000000) (r1_tau 26.85)"
  "r1_gPiPi rows_IF97 (r1_pi 3000000) (r1_tau 26.85) \<le> - 0.000882"
proof -
  let ?f = "(\<lambda>row. td_Ni row * td_Ii row * (td_Ii row - 1) * math_Pow (7.1 - r1_pi 3000000) (td_Ii row - 2)
    * math_Pow (r1_tau 26.85 - 1.222) (td_Ji row))"
  have ab: "0 \<le> 7.1 - r1_pi 3000000" "7.1 - r1_pi 3000000 \<le> 7" "10 / 3 \<le> r1_tau 26.85 - 1.222"
    by (simp_all add: r1_pi_def r1_tau_def)
  have hi: "\<bar>sum_list (map ?f (drop 28 rows_IF97))\<bar> \<le> 6 / 10 ^ 12"
    using ab by (rule r1_gPiPi_IF97_high)
  have lo: "- 0.000882812625 \<le> sum_list (map ?f (take 28 rows_IF97))"
    "sum_list (map ?f (take 28 rows_IF97)) \<le> - 0.000882812611"
    using sum_list_bounds [OF r1_gPiPi_IF97_low] by simp_all
  have "sum_list (map ?f rows_IF97) = sum_list (map ?f (take 28 rows_IF97 @ drop 28 rows_IF97))"
    by (simp only: append_take_drop_id)
  also have "\<dots> = sum_list (map ?f (take 28 rows_IF97)) + sum_list (map ?f (drop 28 rows_IF97))"
    by (simp only: map_append sum_list_append)
  finally have split: "sum_list (map ?f rows_IF97)
      = sum_list (map ?f (take 28 rows_IF97)) + sum_list (map ?f (drop 28 rows_IF97))" .
  have "r1_gPiPi rows_IF97 (r1_pi 3000000) (r1_tau 26.85) = 0 + sum_list (map ?f rows_IF97)"
    unfolding r1_gPiPi_def by (rule foldl_add_sum_list)
  then have eq: "r1_gPiPi rows_IF97 (r1_pi 3000000) (r1_tau 26.85)
      = sum_list (map ?f (take 28 rows_IF97)) + sum_list (map ?f (drop 28 rows_IF97))"
    unfolding split by simp
  show "- 0.000883 \<le> r1_gPiPi rows_IF97 (r1_pi 3000000) (r1_tau 26.85)"
    unfolding eq using lo(1) hi by simp
  show "r1_gPiPi rows_IF97 (r1_pi 3000000) (r1_tau 26.85) \<le> - 0.000882"
    unfolding eq using lo(2) hi by simp
qed

lemma r1_gTauTau_IF97_low:
  "list_all2 (\<lambda>x (l, u). l \<le> x \<and> x \<le> u)
     (map (\<lambda>row. td_Ni row * td_Ji row * (td_Ji row - 1) * math_Pow (7.1 - r1_pi 3000000) (td_Ii row)
        * math_Pow (r1_tau 26.85 - 1.222) (td_Ji row - 2)) (take 28 rows_IF97))
     [(0.006585522994, 0.006585522995),
      (- 0.043098700162, - 0.043098700161),
      (0, 0),
      (0, 0),
      (- 1.915839267758, - 1.915839267757),
      (3.215603212076, 3.215603212077),
      (- 2.302318392216, - 2.302318392215),
      (0.637286016609, 0.63728601661),
      (0.000000252858, 0.000000252859),
      (- 0.000003894253, - 0.000003894252),
      (- 0.00669728966, - 0.006697289659),
      (0, 0),
      (0, 0),
      (- 0.007453094427, - 0.007453094426),
      (- 0.000598256541, - 0.00059825654),
      (0, 0),
      (0, 0),
      (- 0.004307749902, - 0.004307749901),
      (- 0.00087993261, - 0.000879932609),
      (- 0.000136303846, - 0.000136303845),
      (0, 0),
      (- 0.001128544125, - 0.001128544124),
      (- 0.000029467704, - 0.000029467703),
      (- 0.000067199241, - 0.00006719924),
      (- 0.000525631991, - 0.00052563199),
      (- 0.000002253199, - 0.000002253198),
      (- 0.000000109584, - 0.000000109583),
      (- 0.000002161392, - 0.000002161391)]"
  by (simp add: rows_IF97_def r1_pi_def r1_tau_def
      math_Pow_simps math_Pow_numeral math_Pow_neg_numeral power_divide)

lemma r1_gTauTau_IF97_high:
  fixes a b :: real
  assumes "0 \<le> a" "a \<le> 7" "10 / 3 \<le> b"
  shows "\<bar>sum_list (map (\<lambda>row. td_Ni row * td_Ji row * (td_Ji row - 1) * math_Pow (a) (td_Ii row)
        * math_Pow (b) (td_Ji row - 2)) (drop 28 rows_IF97))\<bar> \<le> 6 / 10 ^ 12"
proof -
  let ?f = "(\<lambda>row. td_Ni row * td_Ji row * (td_Ji row - 1) * math_Pow (a) (td_Ii row)
    * math_Pow (b) (td_Ji row - 2))"
  have d: "drop 28 rows_IF97 =
        [\<lparr>td_I = 29, td_Ii = 21, td_Ji = - 29, td_Ni = - 0.00000000000000000068762131295531\<rparr>,
         \<lparr>td_I = 30, td_Ii = 23, td_Ji = - 31, td_Ni = 0.000000000000000000014478307828521\<rparr>,
         \<lparr>td_I = 31, td_Ii = 29, td_Ji = - 38, td_Ni = 0.000000000000000000000026335781662795\<rparr>,
         \<lparr>td_I = 32, td_Ii = 30, td_Ji = - 39, td_Ni = - 0.000000000000000000000011947622640071\<rparr>,
         \<lparr>td_I = 33, td_Ii = 31, td_Ji = - 40, td_Ni = 0.0000000000000000000000018228094581404\<rparr>,
         \<lparr>td_I = 34, td_Ii = 32, td_Ji = - 41, td_Ni = - 0.000000000000000000000000093537087292458\<rparr>]"
    by (simp add: rows_IF97_def)
  have t29: "\<bar>?f \<lparr>td_I = 29, td_Ii = 21, td_Ji = - 29, td_Ni = - 0.00000000000000000068762131295531\<rparr>\<bar> \<le> 1 / 10 ^ 12"
  proof -
    have "\<bar>?f \<lparr>td_I = 29, td_Ii = 21, td_Ji = - 29, td_Ni = - 0.00000000000000000068762131295531\<rparr>\<bar>
        \<le> \<bar>- 0.0000000000000005982305422711197\<bar> * 7 ^ 21 * (3 / 10) ^ 31"
      using high_term_bound [OF assms, of "- 0.0000000000000005982305422711197" 21 31] by simp
    also have "\<dots> \<le> 1 / 10 ^ 12"
      by (simp add: power_divide)
    finally show ?thesis .
  qed
  have t30: "\<bar>?f \<lparr>td_I = 30, td_Ii = 23, td_Ji = - 31, td_Ni = 0.000000000000000000014478307828521\<rparr>\<bar> \<le> 1 / 10 ^ 12"
  proof -
    have "\<bar>?f \<lparr>td_I = 30, td_Ii = 23, td_Ji = - 31, td_Ni = 0.000000000000000000014478307828521\<rparr>\<bar>
        \<le> \<bar>0.000000000000000014362481365892832\<bar> * 7 ^ 23 * (3 / 10) ^ 33"
      using high_term_bound [OF assms, of "0.000000000000000014362481365892832" 23 33] by simp
    also have "\<dots> \<le> 1 / 10 ^ 12"
      by (simp add: power_divide)
    finally show ?thesis .
  qed
  have t31: "\<bar>?f \<lparr>td_I = 31, td_Ii = 29, td_Ji = - 38, td_Ni = 0.000000000000000000000026335781662795\<rparr>\<bar> \<le> 1 / 10 ^ 12"
  proof -
    have "\<bar>?f \<lparr>td_I = 31, td_Ii = 29, td_Ji = - 38, td_Ni = 0.000000000000000000000026335781662795\<rparr>\<bar>
        \<le> \<bar>0.00000000000000000003902962842426219\<bar> * 7 ^ 29 * (3 / 10) ^ 40"
      using high_term_bound [OF assms, of "0.00000000000000000003902962842426219" 29 40] by simp
    also have "\<dots> \<le> 1 / 10 ^ 12"
      by (simp add: power_divide)
    finally show ?thesis .
  qed
  have t32: "\<bar>?f \<lparr>td_I = 32, td_Ii = 30, td_Ji = - 39, td_Ni = - 0.000000000000000000000011947622640071\<rparr>\<bar> \<le> 1 / 10 ^ 12"
  proof -
    have "\<bar>?f \<lparr>td_I = 32, td_Ii = 30, td_Ji = - 39, td_Ni = - 0.000000000000000000000011947622640071\<rparr>\<bar>
        \<le> \<bar>- 0.00000000000000000001863829131851076\<bar> * 7 ^ 30 * (3 / 10) ^ 41"
      using high_term_bound [OF assms, of "- 0.00000000000000000001863829131851076" 30 41] by simp
    also have "\<dots> \<le> 1 / 10 ^ 12"
      by (simp add: power_divide)
    finally show ?thesis .
  qed
  have t33: "\<bar>?f \<lparr>td_I = 33, td_Ii = 31, td_Ji = - 40, td_Ni = 0.0000000000000000000000018228094581404\<rparr>\<bar> \<le> 1 / 10 ^ 12"
  proof -
    have "\<bar>?f \<lparr>td_I = 33, td_Ii = 31, td_Ji = - 40, td_Ni = 0.0000000000000000000000018228094581404\<rparr>\<bar>
        \<le> \<bar>0.000000000000000000002989407511350256\<bar> * 7 ^ 31 * (3 / 10) ^ 42"
      using high_term_bound [OF assms, of "0.000000000000000000002989407511350256" 31 42] by simp
    also have "\<dots> \<le> 1 / 10 ^ 12"
      by (simp add: power_divide)
    finally show ?thesis .
  qed
  have t34: "\<bar>?f \<lparr>td_I = 34, td_Ii = 32, td_Ji = - 41, td_Ni = - 0.000000000000000000000000093537087292458\<rparr>\<bar> \<le> 1 / 10 ^ 12"
  proof -
    have "\<bar>?f \<lparr>td_I = 34, td_Ii = 32, td_Ji = - 41, td_Ni = - 0.000000000000000000000000093537087292458\<rparr>\<bar>
        \<le> \<bar>- 0.000000000000000000000161070864317612676\<bar> * 7 ^ 32 * (3 / 10) ^ 43"
      using high_term_bound [OF assms, of "- 0.000000000000000000000161070864317612676" 32 43] by simp
    also have "\<dots> \<le> 1 / 10 ^ 12"
      by (simp add: power_divide)
    finally show ?thesis .
  qed
  show ?thesis
    unfolding d list.map sum_list.Cons sum_list.Nil
    using t29 t30 t31 t32 t33 t34 by linarith
qed

lemma r1_gTauTau_IF97:
  "- 0.4237 \<le> r1_gTauTau rows_IF97 (r1_pi 3000000) (r1_tau 26.85)"
  "r1_gTauTau rows_IF97 (r1_pi 3000000) (r1_tau 26.85) \<le> - 0.4236"
proof -
  let ?f = "(\<lambda>row. td_Ni row * td_Ji row * (td_Ji row - 1) * math_Pow (7.1 - r1_pi 3000000) (td_Ii row)
    * math_Pow (r1_tau 26.85 - 1.222) (td_Ji row - 2))"
  have ab: "0 \<le> 7.1 - r1_pi 3000000" "7.1 - r1_pi 3000000 \<le> 7" "10 / 3 \<le> r1_tau 26.85 - 1.222"
    by (simp_all add: r1_pi_def r1_tau_def)
  have hi: "\<bar>sum_list (map ?f (drop 28 rows_IF97))\<bar> \<le> 6 / 10 ^ 12"
    using ab by (rule r1_gTauTau_IF97_high)
  have lo: "- 0.423613244074 \<le> sum_list (map ?f (take 28 rows_IF97))"
    "sum_list (map ?f (take 28 rows_IF97)) \<le> - 0.423613244053"
    using sum_list_bounds [OF r1_gTauTau_IF97_low] by simp_all
  have "sum_list (map ?f rows_IF97) = sum_list (map ?f (take 28 rows_IF97 @ drop 28 rows_IF97))"
    by (simp only: append_take_drop_id)
  also have "\<dots> = sum_list (map ?f (take 28 rows_IF97)) + sum_list (map ?f (drop 28 rows_IF97))"
    by (simp only: map_append sum_list_append)
  finally have split: "sum_list (map ?f rows_IF97)
      = sum_list (map ?f (take 28 rows_IF97)) + sum_list (map ?f (drop 28 rows_IF97))" .
  have "r1_gTauTau rows_IF97 (r1_pi 3000000) (r1_tau 26.85) = 0 + sum_list (map ?f rows_IF97)"
    unfolding r1_gTauTau_def by (rule foldl_add_sum_list)
  then have eq: "r1_gTauTau rows_IF97 (r1_pi 3000000) (r1_tau 26.85)
      = sum_list (map ?f (take 28 rows_IF97)) + sum_list (map ?f (drop 28 rows_IF97))"
    unfolding split by simp
  show "- 0.4237 \<le> r1_gTauTau rows_IF97 (r1_pi 3000000) (r1_tau 26.85)"
    unfolding eq using lo(1) hi by simp
  show "r1_gTauTau rows_IF97 (r1_pi 3000000) (r1_tau 26.85) \<le> - 0.4236"
    unfolding eq using lo(2) hi by simp
qed

lemma r1_gPiTau_IF97_low:
  "list_all2 (\<lambda>x (l, u). l \<le> x \<and> x \<le> u)
     (map (\<lambda>row. (- td_Ni row) * td_Ii row * td_Ji row * math_Pow (7.1 - r1_pi 3000000) (td_Ii row - 1)
        * math_Pow (r1_tau 26.85 - 1.222) (td_Ji row - 1)) (take 28 rows_IF97))
     [(0, 0),
      (0, 0),
      (0, 0),
      (0, 0),
      (0, 0),
      (0, 0),
      (0, 0),
      (0, 0),
      (0.000000012419, 0.00000001242),
      (- 0.000000239081, - 0.00000023908),
      (- 0.001644673807, - 0.001644673806),
      (0, 0),
      (0.021841717175, 0.021841717176),
      (0.001830279083, 0.001830279084),
      (- 0.00014691568, - 0.000146915679),
      (0, 0),
      (- 0.000659491832, - 0.000659491831),
      (0.002115734509, 0.00211573451),
      (0.000054021932, 0.000054021933),
      (- 0.000040167061, - 0.00004016706),
      (0, 0),
      (0.000332568018, 0.000332568019),
      (- 0.000009648632, - 0.000009648631),
      (- 0.000044006193, - 0.000044006192),
      (0.000114738709, 0.00011473871),
      (- 0.000000614806, - 0.000000614805),
      (- 0.000000035882, - 0.000000035881),
      (- 0.000001213211, - 0.00000121321)]"
  by (simp add: rows_IF97_def r1_pi_def r1_tau_def
      math_Pow_simps math_Pow_numeral math_Pow_neg_numeral power_divide)

lemma r1_gPiTau_IF97_high:
  fixes a b :: real
  assumes "0 \<le> a" "a \<le> 7" "10 / 3 \<le> b"
  shows "\<bar>sum_list (map (\<lambda>row. (- td_Ni row) * td_Ii row * td_Ji row * math_Pow (a) (td_Ii row - 1)
        * math_Pow (b) (td_Ji row - 1)) (drop 28 rows_IF97))\<bar> \<le> 6 / 10 ^ 12"
proof -
  let ?f = "(\<lambda>row. (- td_Ni row) * td_Ii row * td_Ji row * math_Pow (a) (td_Ii row - 1)
    * math_Pow (b) (td_Ji row - 1))"
  have d: "drop 28 rows_IF97 =
        [\<lparr>td_I = 29, td_Ii = 21, td_Ji = - 29, td_Ni = - 0.00000000000000000068762131295531\<rparr>,
         \<lparr>td_I = 30, td_Ii = 23, td_Ji = - 31, td_Ni = 0.000000000000000000014478307828521\<rparr>,
         \<lparr>td_I = 31, td_Ii = 29, td_Ji = - 38, td_Ni = 0.000000000000000000000026335781662795\<rparr>,
         \<lparr>td_I = 32, td_Ii = 30, td_Ji = - 39, td_Ni = - 0.000000000000000000000011947622640071\<rparr>,
         \<lparr>td_I = 33, td_Ii = 31, td_Ji = - 40, td_Ni = 0.0000000000000000000000018228094581404\<rparr>,
         \<lparr>td_I = 34, td_Ii = 32, td_Ji = - 41, td_Ni = - 0.000000000000000000000000093537087292458\<rparr>]"
    by (simp add: rows_IF97_def)
  have t29: "\<bar>?f \<lparr>td_I = 29, td_Ii = 21, td_Ji = - 29, td_Ni = - 0.00000000000000000068762131295531\<rparr>\<bar> \<le> 1 / 10 ^ 12"
  proof -
    have "\<bar>?f \<lparr>td_I = 29, td_Ii = 21, td_Ji = - 29, td_Ni = - 0.00000000000000000068762131295531\<rparr>\<bar>
        \<le> \<bar>- 0.00000000000000041876137958978379\<bar> * 7 ^ 20 * (3 / 10) ^ 30"
      using high_term_bound [OF assms, of "- 0.00000000000000041876137958978379" 20 30] by simp
    also have "\<dots> \<le> 1 / 10 ^ 12"
      by (simp add: power_divide)
    finally show ?thesis .
  qed
  have t30: "\<bar>?f \<lparr>td_I = 30, td_Ii = 23, td_Ji = - 31, td_Ni = 0.000000000000000000014478307828521\<rparr>\<bar> \<le> 1 / 10 ^ 12"
  proof -
    have "\<bar>?f \<lparr>td_I = 30, td_Ii = 23, td_Ji = - 31, td_Ni = 0.000000000000000000014478307828521\<rparr>\<bar>
        \<le> \<bar>0.000000000000000010323033481735473\<bar> * 7 ^ 22 * (3 / 10) ^ 32"
      using high_term_bound [OF assms, of "0.000000000000000010323033481735473" 22 32] by simp
    also have "\<dots> \<le> 1 / 10 ^ 12"
      by (simp add: power_divide)
    finally show ?thesis .
  qed
  have t31: "\<bar>?f \<lparr>td_I = 31, td_Ii = 29, td_Ji = - 38, td_Ni = 0.000000000000000000000026335781662795\<rparr>\<bar> \<le> 1 / 10 ^ 12"
  proof -
    have "\<bar>?f \<lparr>td_I = 31, td_Ii = 29, td_Ji = - 38, td_Ni = 0.000000000000000000000026335781662795\<rparr>\<bar>
        \<le> \<bar>0.00000000000000000002902203139240009\<bar> * 7 ^ 28 * (3 / 10) ^ 39"
      using high_term_bound [OF assms, of "0.00000000000000000002902203139240009" 28 39] by simp
    also have "\<dots> \<le> 1 / 10 ^ 12"
      by (simp add: power_divide)
    finally show ?thesis .
  qed
  have t32: "\<bar>?f \<lparr>td_I = 32, td_Ii = 30, td_Ji = - 39, td_Ni = - 0.000000000000000000000011947622640071\<rparr>\<bar> \<le> 1 / 10 ^ 12"
  proof -
    have "\<bar>?f \<lparr>td_I = 32, td_Ii = 30, td_Ji = - 39, td_Ni = - 0.000000000000000000000011947622640071\<rparr>\<bar>
        \<le> \<bar>- 0.00000000000000000001397871848888307\<bar> * 7 ^ 29 * (3 / 10) ^ 40"
      using high_term_bound [OF assms, of "- 0.00000000000000000001397871848888307" 29 40] by simp
    also have "\<dots> \<le> 1 / 10 ^ 12"
      by (simp add: power_divide)
    finally show ?thesis .
  qed
  have t33: "\<bar>?f \<lparr>td_I = 33, td_Ii = 31, td_Ji = - 40, td_Ni = 0.0000000000000000000000018228094581404\<rparr>\<bar> \<le> 1 / 10 ^ 12"
  proof -
    have "\<bar>?f \<lparr>td_I = 33, td_Ii = 31, td_Ji = - 40, td_Ni = 0.0000000000000000000000018228094581404\<rparr>\<bar>
        \<le> \<bar>0.000000000000000000002260283728094096\<bar> * 7 ^ 30 * (3 / 10) ^ 41"
      using high_term_bound [OF assms, of "0.000000000000000000002260283728094096" 30 41] by simp
    also have "\<dots> \<le> 1 / 10 ^ 12"
      by (simp add: power_divide)
    finally show ?thesis .
  qed
  have t34: "\<bar>?f \<lparr>td_I = 34, td_Ii = 32, td_Ji = - 41, td_Ni = - 0.000000000000000000000000093537087292458\<rparr>\<bar> \<le> 1 / 10 ^ 12"
  proof -
    have "\<bar>?f \<lparr>td_I = 34, td_Ii = 32, td_Ji = - 41, td_Ni = - 0.000000000000000000000000093537087292458\<rparr>\<bar>
        \<le> \<bar>- 0.000000000000000000000122720658527704896\<bar> * 7 ^ 31 * (3 / 10) ^ 42"
      using high_term_bound [OF assms, of "- 0.000000000000000000000122720658527704896" 31 42] by simp
    also have "\<dots> \<le> 1 / 10 ^ 12"
      by (simp add: power_divide)
    finally show ?thesis .
  qed
  show ?thesis
    unfolding d list.map sum_list.Cons sum_list.Nil
    using t29 t30 t31 t32 t33 t34 by linarith
qed

lemma r1_gPiTau_IF97:
  "0.02374 \<le> r1_gPiTau rows_IF97 (r1_pi 3000000) (r1_tau 26.85)"
  "r1_gPiTau rows_IF97 (r1_pi 3000000) (r1_tau 26.85) \<le> 0.02375"
proof -
  let ?f = "(\<lambda>row. (- td_Ni row) * td_Ii row * td_Ji row * math_Pow (7.1 - r1_pi 3000000) (td_Ii row - 1)
    * math_Pow (r1_tau 26.85 - 1.222) (td_Ji row - 1))"
  have ab: "0 \<le> 7.1 - r1_pi 3000000" "7.1 - r1_pi 3000000 \<le> 7" "10 / 3 \<le> r1_tau 26.85 - 1.222"
    by (simp_all add: r1_pi_def r1_tau_def)
  have hi: "\<bar>sum_list (map ?f (drop 28 rows_IF97))\<bar> \<le> 6 / 10 ^ 12"
    using ab by (rule r1_gPiTau_IF97_high)
  have lo: "0.02374206566 \<le> sum_list (map ?f (take 28 rows_IF97))"
    "sum_list (map ?f (take 28 rows_IF97)) \<le> 0.023742065677"
    using sum_list_bounds [OF r1_gPiTau_IF97_low] by simp_all
  have "sum_list (map ?f rows_IF97) = sum_list (map ?f (take 28 rows_IF97 @ drop 28 rows_IF97))"
    by (simp only: append_take_drop_id)
  also have "\<dots> = sum_list (map ?f (take 28 rows_IF97)) + sum_list (map ?f (drop 28 rows_IF97))"
    by (simp only: map_append sum_list_append)
  finally have split: "sum_list (map ?f rows_IF97)
      = sum_list (map ?f (take 28 rows_IF97)) + sum_list (map ?f (drop 28 rows_IF97))" .
  have "r1_gPiTau rows_IF97 (r1_pi 3000000) (r1_tau 26.85) = 0 + sum_list (map ?f rows_IF97)"
    unfolding r1_gPiTau_def by (rule foldl_add_sum_list)
  then have eq: "r1_gPiTau rows_IF97 (r1_pi 3000000) (r1_tau 26.85)
      = sum_list (map ?f (take 28 rows_IF97)) + sum_list (map ?f (drop 28 rows_IF97))"
    unfolding split by simp
  show "0.02374 \<le> r1_gPiTau rows_IF97 (r1_pi 3000000) (r1_tau 26.85)"
    unfolding eq using lo(1) hi by simp
  show "r1_gPiTau rows_IF97 (r1_pi 3000000) (r1_tau 26.85) \<le> 0.02375"
    unfolding eq using lo(2) hi by simp
qed

text \<open>The body of \<^verbatim>\<open>Calculate\<close> with its quantities named.\<close>

lemma region1_Calculate_unfold:
  "region1_Calculate (Inr rows) ld4 tCelsius pPascal =
     (let T = tCelsius + 273.15; pi' = r1_pi pPascal; tau = r1_tau tCelsius;
          g = r1_g rows pi' tau; gPi = r1_gPi rows pi' tau; gPiPi = r1_gPiPi rows pi' tau;
          gTau = r1_gTau rows pi' tau; gTauTau = r1_gTauTau rows pi' tau;
          gPiTau = r1_gPiTau rows pi' tau;
          v = pi' * gPi * (referR * T / (pPascal / 1000));
          ro = pPascal / 1000 / (referR * T * (pi' * gPi));
          cv = referR * (- (tau * tau) * gTauTau + (gPi - tau * gPiTau)\<^sup>2 / gPiPi);
          denominator = gPiPi - (gPi - tau * gPiTau)\<^sup>2 / (tau * tau * gTauTau);
          w = sqrt (referR * 1000 * T * (gPi * gPi / \<bar>denominator\<bar>))
      in if tCelsius < - 273.15 then Inl TemperatureBelowAbsoluteZero
         else if pPascal \<le> 0 then Inl PressureMustBePositive
         else if T > 623.15 then Inl Region1NotApplicableT
         else if pPascal > 100000000 then Inl Region1NotApplicableP
         else if T < 647.096
                 \<and> (case SaturationPressure ld4 T of Inr ps \<Rightarrow> pPascal < ps | Inl e \<Rightarrow> False)
           then Inl Region1NotApplicablePsat
         else if \<bar>denominator\<bar> < 1 / 10 ^ 10 then Inl Region1SpeedOfSoundFailed
         else if ro \<le> 0 \<or> v \<le> 0 \<or> w \<le> 0 then Inl Region1InvalidPhysicalResult
         else if cv \<le> 0 then Inl Region1HeatCapacitiesNonPositive
         else Inr \<lparr>SpecificVolume = v, Density = ro,
                   SpecificInternalEnergy = referR * T * (tau * gTau - pi' * gPi),
                   SpecificEntropy = referR * (tau * gTau - g),
                   SpecificEnthalpy = referR * T * tau * gTau,
                   SpecificIsochoricHeatCapacity = cv, SpecificIsobaricHeatCapacity = cv,
                   SpeedOfSound = w\<rparr>)"
  by (simp add: region1_Calculate_def Let_def r1_pi_def r1_tau_def referP1_def referT1_def
      math_Pow_simps finiteAll_True)

text \<open>Sufficient conditions for a Region 1 call to succeed.\<close>

lemma region1_Calculate_succeeds:
  fixes rows :: "tableData list"
  defines "gPi \<equiv> r1_gPi rows" and "gPiPi \<equiv> r1_gPiPi rows"
    and "gTauTau \<equiv> r1_gTauTau rows" and "gPiTau \<equiv> r1_gPiTau rows"
  assumes range: "- 273.15 < tCelsius" "0 < pPascal" "tCelsius + 273.15 \<le> 623.15" "pPascal \<le> 100000000"
    and sat: "SaturationPressure ld4 (tCelsius + 273.15) = Inr ps" "ps \<le> pPascal"
    and gPi: "0 < gPi (r1_pi pPascal) (r1_tau tCelsius)"
    and den: "gPiPi (r1_pi pPascal) (r1_tau tCelsius)
        - (gPi (r1_pi pPascal) (r1_tau tCelsius)
            - r1_tau tCelsius * gPiTau (r1_pi pPascal) (r1_tau tCelsius))\<^sup>2
          / (r1_tau tCelsius * r1_tau tCelsius * gTauTau (r1_pi pPascal) (r1_tau tCelsius))
        \<le> - (1 / 10 ^ 10)"
    and cv: "0 < - (r1_tau tCelsius * r1_tau tCelsius) * gTauTau (r1_pi pPascal) (r1_tau tCelsius)
        + (gPi (r1_pi pPascal) (r1_tau tCelsius)
            - r1_tau tCelsius * gPiTau (r1_pi pPascal) (r1_tau tCelsius))\<^sup>2
          / gPiPi (r1_pi pPascal) (r1_tau tCelsius)"
  shows "\<exists>pr. region1_Calculate (Inr rows) ld4 tCelsius pPascal = Inr pr"
proof -
  define T where "T = tCelsius + 273.15"
  define p' where "p' = r1_pi pPascal"
  define t' where "t' = r1_tau tCelsius"
  define D where "D = r1_gPiPi rows p' t'
    - (r1_gPi rows p' t' - t' * r1_gPiTau rows p' t')\<^sup>2 / (t' * t' * r1_gTauTau rows p' t')"
  define c where "c = referR * (- (t' * t') * r1_gTauTau rows p' t'
    + (r1_gPi rows p' t' - t' * r1_gPiTau rows p' t')\<^sup>2 / r1_gPiPi rows p' t')"
  have T: "0 < T"
    using range(1) by (simp add: T_def)
  have p': "0 < p'"
    using range(2) by (simp add: p'_def r1_pi_def)
  have g: "0 < r1_gPi rows p' t'"
    using gPi by (simp add: p'_def t'_def gPi_def)
  have D: "D \<le> - (1 / 10 ^ 10)"
    using den by (simp add: D_def p'_def t'_def gPi_def gPiPi_def gTauTau_def gPiTau_def)
  then have aD: "\<not> \<bar>D\<bar> < 1 / 10 ^ 10" "0 < \<bar>D\<bar>"
    by simp_all
  have v: "0 < p' * r1_gPi rows p' t' * (referR * T / (pPascal / 1000))"
    using p' g T range(2) by (simp add: referR_def)
  have ro: "0 < pPascal / 1000 / (referR * T * (p' * r1_gPi rows p' t'))"
    using p' g T range(2) by (simp add: referR_def)
  have "0 < referR * 1000 * T * (r1_gPi rows p' t' * r1_gPi rows p' t' / \<bar>D\<bar>)"
    using g T aD(2) by (simp add: referR_def)
  then have w: "0 < sqrt (referR * 1000 * T * (r1_gPi rows p' t' * r1_gPi rows p' t' / \<bar>D\<bar>))"
    by simp
  have c: "0 < c"
    using cv by (simp add: c_def p'_def t'_def referR_def gPi_def gPiPi_def gTauTau_def gPiTau_def)
  have conds: "\<not> tCelsius < - 273.15" "\<not> pPascal \<le> 0" "\<not> T > 623.15" "\<not> pPascal > 100000000"
    using range by (simp_all add: T_def)
  have psat: "\<not> (T < 647.096
      \<and> (case SaturationPressure ld4 T of Inr ps \<Rightarrow> pPascal < ps | Inl e \<Rightarrow> False))"
    using sat by (simp add: T_def)
  have phys: "\<not> (pPascal / 1000 / (referR * T * (p' * r1_gPi rows p' t')) \<le> 0
      \<or> p' * r1_gPi rows p' t' * (referR * T / (pPascal / 1000)) \<le> 0
      \<or> sqrt (referR * 1000 * T * (r1_gPi rows p' t' * r1_gPi rows p' t' / \<bar>D\<bar>)) \<le> 0)"
    using ro v w unfolding de_Morgan_disj not_le by (intro conjI)
  have heat: "\<not> c \<le> 0"
    using c by simp
  show ?thesis
    unfolding region1_Calculate_unfold Let_def
    unfolding T_def [symmetric] p'_def [symmetric] t'_def [symmetric]
    unfolding D_def [symmetric] c_def [symmetric]
    by (simp only: conds psat aD(1) phys heat if_False) blast
qed


text \<open>Interval arithmetic at \<open>\<tau> = 4.62\<close> for sums within the bounds that the table of the
  release gives at 300 K and 3 MPa.\<close>

lemma r1_point_numbers:
  fixes gp gpp gtt gpt :: real
  defines "X \<equiv> gp - 231 / 50 * gpt"
  assumes gp: "0.1196 \<le> gp" "gp \<le> 0.1197"
    and gpp: "- 0.000883 \<le> gpp" "gpp \<le> - 0.000882"
    and gtt: "- 0.4237 \<le> gtt" "gtt \<le> - 0.4236"
    and gpt: "0.02374 \<le> gpt" "gpt \<le> 0.02375"
  shows "gpp - X\<^sup>2 / (231 / 50 * (231 / 50) * gtt) \<le> - (1 / 10 ^ 10)"
    and "0 < - (231 / 50 * (231 / 50)) * gtt + X\<^sup>2 / gpp"
    and "X\<^sup>2 / gpp < - 0.1"
    and "4.17 < - 0.461526 * (231 / 50)\<^sup>2 * gtt"
    and "- 0.461526 * (231 / 50)\<^sup>2 * gtt < 4.174"
proof -
  have X: "0.0098 \<le> X" "X \<le> 0.0101"
    using gp gpt by (simp_all add: X_def)
  have "0.0098\<^sup>2 \<le> X\<^sup>2"
    using X(1) by (intro power_mono) simp_all
  then have lo: "0.00009604 \<le> X\<^sup>2"
    by (simp add: power2_eq_square)
  have "X\<^sup>2 \<le> 0.0101\<^sup>2"
    using X by (intro power_mono) simp_all
  then have hi: "X\<^sup>2 \<le> 0.00010201"
    by (simp add: power2_eq_square)
  have n1: "gpp < 0" and n2: "231 / 50 * (231 / 50) * gtt < 0"
    using gpp(2) gtt(2) by simp_all
  have "- 0.1 * gpp < X\<^sup>2"
    using gpp(1) lo by simp
  then show q1: "X\<^sup>2 / gpp < - 0.1"
    using n1 by (simp only: neg_divide_less_eq)
  have "X\<^sup>2 \<le> - 0.12 * gpp"
    using gpp(2) hi by simp
  then have q2: "- 0.12 \<le> X\<^sup>2 / gpp"
    using n1 by (simp only: neg_le_divide_eq)
  have "X\<^sup>2 \<le> - 0.00002 * (231 / 50 * (231 / 50) * gtt)"
    using gtt(2) hi by simp
  then have q3: "- 0.00002 \<le> X\<^sup>2 / (231 / 50 * (231 / 50) * gtt)"
    using n2 by (simp only: neg_le_divide_eq)
  show "gpp - X\<^sup>2 / (231 / 50 * (231 / 50) * gtt) \<le> - (1 / 10 ^ 10)"
    using q3 gpp(2) by simp
  show "0 < - (231 / 50 * (231 / 50)) * gtt + X\<^sup>2 / gpp"
    using q2 gtt(2) by simp
  show "4.17 < - 0.461526 * (231 / 50)\<^sup>2 * gtt"
    using gtt(2) by (simp add: power2_eq_square)
  show "- 0.461526 * (231 / 50)\<^sup>2 * gtt < 4.174"
    using gtt(1) by (simp add: power2_eq_square)
qed

section \<open>Region 1: heat capacities and speed of sound\<close>

text \<open>The call at 300 K and 3 MPa with the table of the release succeeds.\<close>

lemma r1_tau_300: "r1_tau 26.85 = 231 / 50"
  by (simp add: r1_tau_def)

lemmas r1_IF97_300_numbers =
  r1_point_numbers [OF r1_gPi_IF97 r1_gPiPi_IF97 r1_gTauTau_IF97 r1_gPiTau_IF97, folded r1_tau_300]

lemma region1_IF97_300:
  "\<exists>pr. region1_Calculate (Inr rows_IF97) (Inr n_IF97) 26.85 3000000 = Inr pr"
proof -
  obtain ps where ps: "SaturationPressure (Inr n_IF97) (26.85 + 273.15) = Inr ps" "ps \<le> 3000000"
    using psat_300 by auto
  have g: "0 < r1_gPi rows_IF97 (r1_pi 3000000) (r1_tau 26.85)"
    using r1_gPi_IF97(1) by simp
  show ?thesis
    by (rule region1_Calculate_succeeds
        [OF _ _ _ _ ps g r1_IF97_300_numbers(1) r1_IF97_300_numbers(2)]) simp_all
qed

text \<open>
  C3.  On every successful Region 1 computation the record carries one value in both heat
  capacity fields: \<open>- R \<tau>\<^sup>2 g\<^sub>\<tau>\<^sub>\<tau> + R (g\<^sub>\<pi> - \<tau> g\<^sub>\<pi>\<^sub>\<tau>)\<^sup>2 / g\<^sub>\<pi>\<^sub>\<pi>\<close>, the isochoric heat capacity of the
  release.  The returned isobaric heat capacity therefore differs from \<open>- R \<tau>\<^sup>2 g\<^sub>\<tau>\<^sub>\<tau>\<close> by
  \<open>R (g\<^sub>\<pi> - \<tau> g\<^sub>\<pi>\<^sub>\<tau>)\<^sup>2 / g\<^sub>\<pi>\<^sub>\<pi>\<close>.  With the table of the release, at 300 K and 3 MPa, the call
  returns an isobaric heat capacity below 4.13 where \<open>- R \<tau>\<^sup>2 g\<^sub>\<tau>\<^sub>\<tau>\<close> is above 4.17.
\<close>

theorem region1_isobaric_is_isochoric:
  assumes "region1_Calculate ld ld4 tCelsius pPascal = Inr pr"
  shows "\<exists>rows. ld = Inr rows \<and>
     (let pi' = r1_pi pPascal; tau = r1_tau tCelsius;
          g_pi = r1_gPi rows pi' tau; g_pipi = r1_gPiPi rows pi' tau;
          g_tautau = r1_gTauTau rows pi' tau; g_pitau = r1_gPiTau rows pi' tau
      in SpecificIsobaricHeatCapacity pr = SpecificIsochoricHeatCapacity pr
         \<and> SpecificIsochoricHeatCapacity pr
             = - referR * tau\<^sup>2 * g_tautau + referR * (g_pi - tau * g_pitau)\<^sup>2 / g_pipi
         \<and> SpecificIsobaricHeatCapacity pr - (- referR * tau\<^sup>2 * g_tautau)
             = referR * (g_pi - tau * g_pitau)\<^sup>2 / g_pipi)"
proof -
  from region1_Calculate_Inr [OF assms] obtain rows where ld: "ld = Inr rows"
    and cp: "SpecificIsobaricHeatCapacity pr = SpecificIsochoricHeatCapacity pr"
    and cv: "SpecificIsochoricHeatCapacity pr =
       referR * (- (r1_tau tCelsius * r1_tau tCelsius) * r1_gTauTau rows (r1_pi pPascal) (r1_tau tCelsius)
         + (r1_gPi rows (r1_pi pPascal) (r1_tau tCelsius)
             - r1_tau tCelsius * r1_gPiTau rows (r1_pi pPascal) (r1_tau tCelsius))\<^sup>2
           / r1_gPiPi rows (r1_pi pPascal) (r1_tau tCelsius))"
    by (auto simp add: Let_def)
  show ?thesis
    unfolding ld cp cv Let_def by (simp add: power2_eq_square algebra_simps)
qed

theorem region1_isobaric_is_isochoric_witness:
  "\<exists>pr. region1_Calculate (Inr rows_IF97) (Inr n_IF97) 26.85 3000000 = Inr pr
      \<and> SpecificIsobaricHeatCapacity pr = SpecificIsochoricHeatCapacity pr
      \<and> SpecificIsobaricHeatCapacity pr < 4.13
      \<and> 4.17 < - referR * (r1_tau 26.85)\<^sup>2 * r1_gTauTau rows_IF97 (r1_pi 3000000) (r1_tau 26.85)"
proof -
  obtain pr where pr: "region1_Calculate (Inr rows_IF97) (Inr n_IF97) 26.85 3000000 = Inr pr"
    using region1_IF97_300 by blast
  define X where "X = r1_gPi rows_IF97 (r1_pi 3000000) (r1_tau 26.85)
      - r1_tau 26.85 * r1_gPiTau rows_IF97 (r1_pi 3000000) (r1_tau 26.85)"
  define c where "c = - referR * (r1_tau 26.85)\<^sup>2 * r1_gTauTau rows_IF97 (r1_pi 3000000) (r1_tau 26.85)"
  from region1_isobaric_is_isochoric [OF pr]
  have eq: "SpecificIsobaricHeatCapacity pr = SpecificIsochoricHeatCapacity pr"
    and diff: "SpecificIsobaricHeatCapacity pr - c
        = referR * X\<^sup>2 / r1_gPiPi rows_IF97 (r1_pi 3000000) (r1_tau 26.85)"
    by (simp_all add: Let_def X_def c_def)
  have q: "X\<^sup>2 / r1_gPiPi rows_IF97 (r1_pi 3000000) (r1_tau 26.85) < - 0.1"
    unfolding X_def by (rule r1_IF97_300_numbers(3))
  have c: "4.17 < c" "c < 4.174"
    using r1_IF97_300_numbers(4,5) by (simp_all add: c_def referR_def)
  have "referR * (X\<^sup>2 / r1_gPiPi rows_IF97 (r1_pi 3000000) (r1_tau 26.85)) < referR * (- 0.1)"
    using q by (intro mult_strict_left_mono) (simp_all add: referR_def)
  then have "SpecificIsobaricHeatCapacity pr - c < - 0.0461526"
    unfolding diff by (simp add: referR_def)
  with c(2) have "SpecificIsobaricHeatCapacity pr < 4.13"
    by simp
  with pr eq c(1) show ?thesis
    unfolding c_def by blast
qed



section \<open>The two heat capacity fields\<close>

lemma region2_cp_cv:
  assumes "region2_Calculate ldI ldR ld4 tCelsius pPascal = Inr pr"
  shows "SpecificIsobaricHeatCapacity pr = SpecificIsochoricHeatCapacity pr"
  using assms
  by (cases ldI; cases ldR)
     (auto simp add: region2_Calculate_def Let_def math_Pow_simps power2_eq_square split: if_splits)

lemma region5_cp_cv:
  assumes "region5_Calculate ldI ldR tCelsius pPascal = Inr pr"
  shows "SpecificIsobaricHeatCapacity pr = SpecificIsochoricHeatCapacity pr"
  using assms
  by (cases ldI; cases ldR)
     (auto simp add: region5_Calculate_def Let_def math_Pow_simps power2_eq_square split: if_splits)

lemma region1_cp_cv:
  assumes "region1_Calculate ld ld4 tCelsius pPascal = Inr pr"
  shows "SpecificIsobaricHeatCapacity pr = SpecificIsochoricHeatCapacity pr"
  using region1_Calculate_Inr [OF assms] by (auto simp add: Let_def)

lemma PropertiesFromHS_cp_cv:
  assumes "PropertiesFromHS ldHS ldPS h s = Inr (p, T, pr)"
  shows "SpecificIsobaricHeatCapacity pr = SpecificIsochoricHeatCapacity pr"
  using assms
  by (auto simp add: PropertiesFromHS_def Let_def split: sum.splits if_splits prod.splits)

text \<open>
  C10.  Wherever \<^verbatim>\<open>Calculate\<close> of Region 1, 2 or 5 succeeds, and wherever
  \<^verbatim>\<open>PropertiesFromHS\<close> succeeds, the isobaric and the isochoric heat capacity of the
  returned record are equal; so none of these four paths returns \<open>c\<^sub>p > c\<^sub>v\<close>.
\<close>

theorem heat_capacity_fields_coincide:
  "(region1_Calculate ld1 ld4 t1 p1 = Inr pr1 \<longrightarrow>
      SpecificIsobaricHeatCapacity pr1 = SpecificIsochoricHeatCapacity pr1
      \<and> \<not> SpecificIsobaricHeatCapacity pr1 > SpecificIsochoricHeatCapacity pr1)
   \<and> (region2_Calculate ldI2 ldR2 ld4' t2 p2 = Inr pr2 \<longrightarrow>
      SpecificIsobaricHeatCapacity pr2 = SpecificIsochoricHeatCapacity pr2
      \<and> \<not> SpecificIsobaricHeatCapacity pr2 > SpecificIsochoricHeatCapacity pr2)
   \<and> (region5_Calculate ldI5 ldR5 t5 p5 = Inr pr5 \<longrightarrow>
      SpecificIsobaricHeatCapacity pr5 = SpecificIsochoricHeatCapacity pr5
      \<and> \<not> SpecificIsobaricHeatCapacity pr5 > SpecificIsochoricHeatCapacity pr5)
   \<and> (PropertiesFromHS ldHS ldPS h s = Inr (p, T, pr3) \<longrightarrow>
      SpecificIsobaricHeatCapacity pr3 = SpecificIsochoricHeatCapacity pr3
      \<and> \<not> SpecificIsobaricHeatCapacity pr3 > SpecificIsochoricHeatCapacity pr3)"
  using region1_cp_cv [of ld1 ld4 t1 p1 pr1] region2_cp_cv [of ldI2 ldR2 ld4' t2 p2 pr2]
    region5_cp_cv [of ldI5 ldR5 t5 p5 pr5] PropertiesFromHS_cp_cv [of ldHS ldPS h s p T pr3]
  by simp
theorem heat_capacity_fields_coincide_witness:
  "region1_Calculate (Inr rows_example) (Inr n_IF97) 26.85 3000000 = Inr region1_example_result
   \<and> SpecificIsobaricHeatCapacity region1_example_result = SpecificIsochoricHeatCapacity region1_example_result
   \<and> region2_Calculate (Inr ideal_example) (Inr resid_example) (Inr n_IF97) 426.85 1000000
        = Inr region2_example_result
   \<and> SpecificIsobaricHeatCapacity region2_example_result = SpecificIsochoricHeatCapacity region2_example_result
   \<and> region5_Calculate (Inr ideal_example5) (Inr resid_example) 1226.85 1000000
        = Inr region5_example_result
   \<and> SpecificIsobaricHeatCapacity region5_example_result = SpecificIsochoricHeatCapacity region5_example_result
   \<and> PropertiesFromHS (Inr hs_example) (Inr ps_example) 2000 4
        = Inr (25000000, 43073 / 275, hs_example_result_a)
   \<and> SpecificIsobaricHeatCapacity hs_example_result_a = SpecificIsochoricHeatCapacity hs_example_result_a"
  using heat_capacity_fields_coincide [of "Inr rows_example" "Inr n_IF97" "26.85" 3000000
      region1_example_result "Inr ideal_example" "Inr resid_example" "Inr n_IF97" "426.85" 1000000
      region2_example_result "Inr ideal_example5" "Inr resid_example" "1226.85" 1000000
      region5_example_result "Inr hs_example" "Inr ps_example" 2000 4 25000000 "43073 / 275"
      hs_example_result_a]
    region1_example region2_example region5_example hs_example_a
  by blast

section \<open>The \<open>(h, s)\<close> pathway\<close>

lemma PressureHS3a_series:
  assumes "PressureHS3a (Inr hs) h s = Inr p"
  shows "p = 100 * (\<Sum>t\<leftarrow>p3a hs. t_N t * (h / 2300 - 1.01) powi t_I t * (s / 4.4 - 0.750) powi t_J t) * 1000000"
  using assms
  by (auto simp add: PressureHS3a_def Let_def foldl_add_sum_list math_Pow_of_int
      split: option.splits if_splits)

lemma PressureHS3b_series:
  assumes "PressureHS3b (Inr hs) h s = Inr p"
  shows "p = 100 / (\<Sum>t\<leftarrow>p3b hs. t_N t * (h / 2800 - 0.681) powi t_I t * (s / 5.3 - 0.792) powi t_J t) * 1000000"
  using assms
  by (auto simp add: PressureHS3b_def Let_def foldl_add_sum_list math_Pow_of_int
      split: option.splits if_splits)

lemma PropertiesFromHS_Inr:
  assumes "PropertiesFromHS ldHS ldPS h s = Inr (p, T, pr)"
  shows "PressureFromHS ldHS h s = Inr p
    \<and> Tps ldPS (if s \<le> scKJperKgK then sub3a else sub3b) p s = Inr T
    \<and> Vps ldPS (if s \<le> scKJperKgK then sub3a else sub3b) p s = Inr (SpecificVolume pr)
    \<and> Density pr = 1 / SpecificVolume pr
    \<and> SpecificInternalEnergy pr = h - p * SpecificVolume pr / 1000
    \<and> SpecificEnthalpy pr = h \<and> SpecificEntropy pr = s"
  using assms
  by (auto simp add: PropertiesFromHS_def Let_def split: sum.splits if_splits prod.splits)

text \<open>
  C9.  Where \<^verbatim>\<open>PropertiesFromHS\<close> succeeds, the pressure is \<open>100 MPa\<close> times the 3a series
  in \<open>h / 2300 - 1.01\<close> and \<open>s / 4.4 - 0.750\<close> for \<open>s \<le> s\<^sub>c\<close>, and \<open>100 MPa\<close> over the 3b
  series for \<open>s > s\<^sub>c\<close>; the temperature and the volume are the backward series
  \<open>T(p, s)\<close> and \<open>v(p, s)\<close> of the same sub-region; \<open>\<rho> = 1 / v\<close> and \<open>u = h - p v / 1000\<close>.
\<close>

theorem PropertiesFromHS_pathway:
  assumes "PropertiesFromHS (Inr hs) ldPS h s = Inr (p, T, pr)"
  shows "(s \<le> 4.41202148223476 \<longrightarrow>
            p = 100 * (\<Sum>t\<leftarrow>p3a hs. t_N t * (h / 2300 - 1.01) powi t_I t * (s / 4.4 - 0.750) powi t_J t)
                  * 1000000
            \<and> Tps ldPS sub3a p s = Inr T
            \<and> Vps ldPS sub3a p s = Inr (SpecificVolume pr))
       \<and> (s > 4.41202148223476 \<longrightarrow>
            p = 100 / (\<Sum>t\<leftarrow>p3b hs. t_N t * (h / 2800 - 0.681) powi t_I t * (s / 5.3 - 0.792) powi t_J t)
                  * 1000000
            \<and> Tps ldPS sub3b p s = Inr T
            \<and> Vps ldPS sub3b p s = Inr (SpecificVolume pr))
       \<and> Density pr = 1 / SpecificVolume pr
       \<and> SpecificInternalEnergy pr = h - p * SpecificVolume pr / 1000"
  using PropertiesFromHS_Inr [OF assms] PressureHS3a_series [of hs h s p] PressureHS3b_series [of hs h s p]
  by (auto simp add: PressureFromHS_def scKJperKgK_def split: if_splits)

theorem PropertiesFromHS_pathway_witness:
  "PropertiesFromHS (Inr hs_example) (Inr ps_example) 2000 4
     = Inr (25000000, 43073 / 275, hs_example_result_a)
   \<and> (25000000 :: real)
       = 100 * (\<Sum>t\<leftarrow>p3a hs_example. t_N t * (2000 / 2300 - 1.01) powi t_I t * (4 / 4.4 - 0.750) powi t_J t)
           * 1000000
   \<and> Tps (Inr ps_example) sub3a 25000000 4 = Inr (43073 / 275)
   \<and> Vps (Inr ps_example) sub3a 25000000 4 = Inr (SpecificVolume hs_example_result_a)
   \<and> PropertiesFromHS (Inr hs_example) (Inr ps_example) 2600 5
     = Inr (25000000, 142889 / 1325, hs_example_result_b)
   \<and> (25000000 :: real)
       = 100 / (\<Sum>t\<leftarrow>p3b hs_example. t_N t * (2600 / 2800 - 0.681) powi t_I t * (5 / 5.3 - 0.792) powi t_J t)
           * 1000000
   \<and> Tps (Inr ps_example) sub3b 25000000 5 = Inr (142889 / 1325)
   \<and> Vps (Inr ps_example) sub3b 25000000 5 = Inr (SpecificVolume hs_example_result_b)
   \<and> Density hs_example_result_a = 1 / SpecificVolume hs_example_result_a
   \<and> SpecificInternalEnergy hs_example_result_a = 2000 - 25000000 * SpecificVolume hs_example_result_a / 1000"
proof -
  have a: "(4::real) \<le> 4.41202148223476" and b: "(5::real) > 4.41202148223476"
    by simp_all
  show ?thesis
    using PropertiesFromHS_pathway [OF hs_example_a] PropertiesFromHS_pathway [OF hs_example_b]
      hs_example_a hs_example_b a b
    by blast
qed

section \<open>Region 5 returns what it computed\<close>

text \<open>
  C2.  Region 5 validates nothing after its range checks.  With the example tables,
  Region 2 refuses a state whose heat capacities come out negative, and Region 5
  returns such a record with no error.
\<close>

theorem region5_returns_unvalidated:
  "region2_Calculate (Inr ideal_example5) (Inr resid_example) (Inr n_IF97) 426.85 1000000
     = Inl Region2HeatCapacitiesNonPositive
   \<and> region5_Calculate (Inr ideal_example5) (Inr resid_example) 1226.85 1000000
     = Inr region5_example_result
   \<and> SpecificIsochoricHeatCapacity region5_example_result < 0
   \<and> SpecificIsobaricHeatCapacity region5_example_result < 0"
  using region2_example_rejects region5_example by (simp add: region5_example_result_def)

section \<open>The root finder is bounded and returns no invented root\<close>

declare scan.simps [simp del] bisect.simps [simp del]

lemma scan_trace:
  "\<exists>m. m \<le> Suc n - k \<and> snd (scan f a b n k prevX prevF tr) = tr @ map (scan_pt a b n) [k..<k + m]"
proof (induction f a b n k prevX prevF tr rule: scan.induct)
  case (1 f a b n k prevX prevF tr)
  show ?case
  proof (cases "k \<le> n")
    case False
    then show ?thesis
      by (subst scan.simps) (auto intro: exI [of _ 0])
  next
    case kn: True
    let ?x = "a + (real k / real n) * (b - a)"
    show ?thesis
    proof (cases "f ?x")
      case (Inl e)
      with kn show ?thesis
        by (subst scan.simps) (auto simp add: Let_def scan_pt_def intro!: exI [of _ 1])
    next
      case (Inr fx)
      show ?thesis
      proof (cases "prevF * fx \<le> 0")
        case True
        with kn Inr show ?thesis
          by (subst scan.simps) (auto simp add: Let_def scan_pt_def intro!: exI [of _ 1])
      next
        case False
        from "1.IH" [OF kn refl Inr False]
        obtain m where m: "m \<le> Suc n - (k + 1)"
          and tr: "snd (scan f a b n (k + 1) ?x fx (tr @ [?x])) = (tr @ [?x]) @ map (scan_pt a b n) [k + 1..<k + 1 + m]"
          by blast
        have "[k..<k + Suc m] = k # [k + 1..<k + 1 + m]"
          by (simp add: upt_conv_Cons)
        with kn Inr False m tr show ?thesis
          by (subst scan.simps) (auto simp add: Let_def scan_pt_def intro!: exI [of _ "Suc m"])
      qed
    qed
  qed
qed


lemma scan_no_error:
  assumes "\<not> isl (fst (scan f a b n k prevX prevF tr))"
    and "x \<in> set (snd (scan f a b n k prevX prevF tr))"
  shows "x \<in> set tr \<or> \<not> isl (f x)"
  using assms
proof (induction f a b n k prevX prevF tr rule: scan.induct)
  case (1 f a b n k prevX prevF tr)
  let ?x = "a + (real k / real n) * (b - a)"
  show ?case
  proof (cases "k \<le> n")
    case False
    with "1.prems" show ?thesis
      by (simp add: scan.simps [of f a b n k])
  next
    case kn: True
    show ?thesis
    proof (cases "f ?x")
      case (Inl e)
      with kn "1.prems" show ?thesis
        by (simp add: scan.simps [of f a b n k] Let_def)
    next
      case (Inr fx)
      show ?thesis
      proof (cases "prevF * fx \<le> 0")
        case True
        with kn Inr "1.prems" show ?thesis
          by (auto simp add: scan.simps [of f a b n k] Let_def)
      next
        case False
        with kn Inr "1.prems" have
          "\<not> isl (fst (scan f a b n (k + 1) ?x fx (tr @ [?x])))"
          "x \<in> set (snd (scan f a b n (k + 1) ?x fx (tr @ [?x])))"
          by (simp_all add: scan.simps [of f a b n k] Let_def)
        from "1.IH" [OF kn refl Inr False this] Inr show ?thesis
          by auto
      qed
    qed
  qed
qed

lemma scan_bracket:
  assumes "fst (scan f a b n k prevX prevF tr) = Inr (Some (a', b', fa', fb'))"
    and "f prevX = Inr prevF"
  shows "f a' = Inr fa' \<and> f b' = Inr fb' \<and> fa' * fb' \<le> 0
         \<and> a' \<in> insert prevX (scan_pt a b n ` {k..n}) \<and> b' \<in> scan_pt a b n ` {k..n}"
  using assms
proof (induction f a b n k prevX prevF tr rule: scan.induct)
  case (1 f a b n k prevX prevF tr)
  let ?x = "a + (real k / real n) * (b - a)"
  have x: "?x = scan_pt a b n k"
    by (simp add: scan_pt_def)
  show ?case
  proof (cases "k \<le> n")
    case False
    with "1.prems" show ?thesis
      by (simp add: scan.simps [of f a b n k])
  next
    case kn: True
    show ?thesis
    proof (cases "f ?x")
      case (Inl e)
      with kn "1.prems" show ?thesis
        by (simp add: scan.simps [of f a b n k] Let_def)
    next
      case (Inr fx)
      show ?thesis
      proof (cases "prevF * fx \<le> 0")
        case True
        have mem: "?x \<in> scan_pt a b n ` {k..n}"
          using kn by (intro image_eqI [of _ _ k]) (simp_all add: scan_pt_def)
        from True kn Inr "1.prems" have "a' = prevX" "b' = ?x" "fa' = prevF" "fb' = fx"
          by (simp_all add: scan.simps [of f a b n k] Let_def)
        with True Inr "1.prems"(2) mem show ?thesis
          by simp
      next
        case False
        with kn Inr "1.prems" have
          "fst (scan f a b n (k + 1) ?x fx (tr @ [?x])) = Inr (Some (a', b', fa', fb'))"
          by (simp add: scan.simps [of f a b n k] Let_def)
        from "1.IH" [OF kn refl Inr False this Inr]
        have *: "f a' = Inr fa'" "f b' = Inr fb'" "fa' * fb' \<le> 0"
          "a' \<in> insert ?x (scan_pt a b n ` {k + 1..n})" "b' \<in> scan_pt a b n ` {k + 1..n}"
          by simp_all
        have "{k + 1..n} \<subseteq> {k..n}"
          by auto
        with * kn show ?thesis
          unfolding x by auto
      qed
    qed
  qed
qed

lemma scan_same_sign:
  assumes "\<forall>j. k \<le> j \<and> j \<le> n \<longrightarrow> (\<exists>y. f (scan_pt a b n j) = Inr y \<and> 0 < sg * y)"
    and "0 < sg * prevF"
  shows "fst (scan f a b n k prevX prevF tr) = Inr None"
  using assms
proof (induction f a b n k prevX prevF tr rule: scan.induct)
  case (1 f a b n k prevX prevF tr)
  let ?x = "a + (real k / real n) * (b - a)"
  have x: "?x = scan_pt a b n k"
    by (simp add: scan_pt_def)
  show ?case
  proof (cases "k \<le> n")
    case False
    then show ?thesis
      by (simp add: scan.simps [of f a b n k])
  next
    case kn: True
    with "1.prems"(1) obtain fx where fx: "f ?x = Inr fx" "0 < sg * fx"
      unfolding x by blast
    have "0 < (sg * prevF) * (sg * fx)"
      using "1.prems"(2) fx(2) by (rule mult_pos_pos)
    then have "0 < (sg * sg) * (prevF * fx)"
      by (simp add: mult_ac)
    then have pos: "\<not> prevF * fx \<le> 0"
      by (simp add: zero_less_mult_iff not_le) 
    have "\<forall>j. k + 1 \<le> j \<and> j \<le> n \<longrightarrow> (\<exists>y. f (scan_pt a b n j) = Inr y \<and> 0 < sg * y)"
      using "1.prems"(1) by auto
    from "1.IH" [OF kn refl fx(1) pos this fx(2)] kn fx(1) pos show ?thesis
      by (simp add: scan.simps [of f a b n k] Let_def)
  qed
qed



lemma bisect_stop [simp]:
  "\<not> i < maxIter \<Longrightarrow> bisect f tol maxIter i a b fa fb tr = (Inl BisectionDidNotConverge, tr)"
  by (simp add: bisect.simps [of f tol maxIter i])

lemma bisect_error:
  "i < maxIter \<Longrightarrow> f (0.5 * (a + b)) = Inl e
   \<Longrightarrow> bisect f tol maxIter i a b fa fb tr = (Inl e, tr @ [0.5 * (a + b)])"
  by (subst bisect.simps) (simp add: Let_def)

lemma bisect_found:
  "i < maxIter \<Longrightarrow> f (0.5 * (a + b)) = Inr fm \<Longrightarrow> \<bar>fm\<bar> < tol \<or> \<bar>b - a\<bar> < tol
   \<Longrightarrow> bisect f tol maxIter i a b fa fb tr = (Inr (0.5 * (a + b)), tr @ [0.5 * (a + b)])"
  by (subst bisect.simps) (simp add: Let_def)

lemma bisect_left:
  "i < maxIter \<Longrightarrow> f (0.5 * (a + b)) = Inr fm \<Longrightarrow> \<not> (\<bar>fm\<bar> < tol \<or> \<bar>b - a\<bar> < tol)
   \<Longrightarrow> fa * fm \<le> 0
   \<Longrightarrow> bisect f tol maxIter i a b fa fb tr
       = bisect f tol maxIter (i + 1) a (0.5 * (a + b)) fa fm (tr @ [0.5 * (a + b)])"
  by (subst bisect.simps) (simp add: Let_def)

lemma bisect_right:
  "i < maxIter \<Longrightarrow> f (0.5 * (a + b)) = Inr fm \<Longrightarrow> \<not> (\<bar>fm\<bar> < tol \<or> \<bar>b - a\<bar> < tol)
   \<Longrightarrow> \<not> fa * fm \<le> 0
   \<Longrightarrow> bisect f tol maxIter i a b fa fb tr
       = bisect f tol maxIter (i + 1) (0.5 * (a + b)) b fm fb (tr @ [0.5 * (a + b)])"
  by (subst bisect.simps) (simp add: Let_def)

lemma bisect_cases [case_names stop error found left right]:
  fixes f :: rootFunc and a b :: real
  obtains "\<not> i < maxIter" "bisect f tol maxIter i a b fa fb tr = (Inl BisectionDidNotConverge, tr)"
  | e where "i < maxIter" "f (mid a b) = Inl e"
      "bisect f tol maxIter i a b fa fb tr = (Inl e, tr @ [mid a b])"
  | fm where "i < maxIter" "f (mid a b) = Inr fm" "\<bar>fm\<bar> < tol \<or> \<bar>b - a\<bar> < tol"
      "bisect f tol maxIter i a b fa fb tr = (Inr (mid a b), tr @ [mid a b])"
  | fm where "i < maxIter" "f (mid a b) = Inr fm" "\<not> (\<bar>fm\<bar> < tol \<or> \<bar>b - a\<bar> < tol)" "fa * fm \<le> 0"
      "bisect f tol maxIter i a b fa fb tr
         = bisect f tol maxIter (i + 1) a (mid a b) fa fm (tr @ [mid a b])"
  | fm where "i < maxIter" "f (mid a b) = Inr fm" "\<not> (\<bar>fm\<bar> < tol \<or> \<bar>b - a\<bar> < tol)" "\<not> fa * fm \<le> 0"
      "bisect f tol maxIter i a b fa fb tr
         = bisect f tol maxIter (i + 1) (mid a b) b fm fb (tr @ [mid a b])"
proof (cases "i < maxIter")
  case False
  with that(1) show ?thesis by simp
next
  case im: True
  show ?thesis
  proof (cases "f (mid a b)")
    case (Inl e)
    from that(2) [OF im Inl] bisect_error [where f = f and a = a and b = b, OF im Inl [unfolded mid_def]]
    show ?thesis unfolding mid_def by blast
  next
    case (Inr fm)
    show ?thesis
    proof (cases "\<bar>fm\<bar> < tol \<or> \<bar>b - a\<bar> < tol")
      case True
      from that(3) [OF im Inr True]
        bisect_found [where f = f and a = a and b = b, OF im Inr [unfolded mid_def] True]
      show ?thesis unfolding mid_def by blast
    next
      case stop: False
      show ?thesis
      proof (cases "fa * fm \<le> 0")
        case True
        from that(4) [OF im Inr stop True]
          bisect_left [where f = f and a = a and b = b, OF im Inr [unfolded mid_def] stop True]
        show ?thesis unfolding mid_def by blast
      next
        case False
        from that(5) [OF im Inr stop False]
          bisect_right [where f = f and a = a and b = b, OF im Inr [unfolded mid_def] stop False]
        show ?thesis unfolding mid_def by blast
      qed
    qed
  qed
qed

lemma bisect_trace:
  "\<exists>mids. length mids \<le> nat (maxIter - i) \<and> snd (bisect f tol maxIter i a b fa fb tr) = tr @ mids"
proof (induction f tol maxIter i a b fa fb tr rule: bisect.induct)
  case (1 f tol maxIter i a b fa fb tr)
  note IH = "1.IH" [folded mid_def]
  show ?case
  proof (cases rule: bisect_cases [where i = i and maxIter = maxIter and f = f and tol = tol and a = a and b = b and fa = fa and fb = fb and tr = tr])
    case stop
    then show ?thesis by simp
  next
    case (error e)
    then show ?thesis
      by (intro exI [of _ "[mid a b]"]) simp
  next
    case (found fm)
    then show ?thesis
      by (intro exI [of _ "[mid a b]"]) simp
  next
    case (left fm)
    from IH(1) [OF left(1) refl left(2,3,4)]
    obtain mids where "length mids \<le> nat (maxIter - (i + 1))"
      "snd (bisect f tol maxIter (i + 1) a (mid a b) fa fm (tr @ [mid a b])) = (tr @ [mid a b]) @ mids"
      by blast
    with left(1) show ?thesis
      unfolding left(5) by (intro exI [of _ "mid a b # mids"]) simp
  next
    case (right fm)
    from IH(2) [OF right(1) refl right(2,3,4)]
    obtain mids where "length mids \<le> nat (maxIter - (i + 1))"
      "snd (bisect f tol maxIter (i + 1) (mid a b) b fm fb (tr @ [mid a b])) = (tr @ [mid a b]) @ mids"
      by blast
    with right(1) show ?thesis
      unfolding right(5) by (intro exI [of _ "mid a b # mids"]) simp
  qed
qed

lemma bisect_no_error:
  assumes "\<not> isl (fst (bisect f tol maxIter i a b fa fb tr))"
    and "x \<in> set (snd (bisect f tol maxIter i a b fa fb tr))"
  shows "x \<in> set tr \<or> \<not> isl (f x)"
  using assms
proof (induction f tol maxIter i a b fa fb tr rule: bisect.induct)
  case (1 f tol maxIter i a b fa fb tr)
  note IH = "1.IH" [folded mid_def]
  show ?case
  proof (cases rule: bisect_cases [where i = i and maxIter = maxIter and f = f and tol = tol and a = a and b = b and fa = fa and fb = fb and tr = tr])
    case stop
    with "1.prems" show ?thesis by simp
  next
    case (error e)
    with "1.prems" show ?thesis by simp
  next
    case (found fm)
    from "1.prems"(2) have "x \<in> set tr \<or> x = mid a b"
      unfolding found(4) by auto
    with found(2) show ?thesis by auto
  next
    case (left fm)
    from IH(1) [OF left(1) refl left(2,3,4) "1.prems" [unfolded left(5)]]
    have "x \<in> set tr \<or> x = mid a b \<or> \<not> isl (f x)" by auto
    with left(2) show ?thesis by auto
  next
    case (right fm)
    from IH(2) [OF right(1) refl right(2,3,4) "1.prems" [unfolded right(5)]]
    have "x \<in> set tr \<or> x = mid a b \<or> \<not> isl (f x)" by auto
    with right(2) show ?thesis by auto
  qed
qed

lemma between_ends: "between a b a" "between a b b" "between a b (mid a b)"
  by (auto simp add: between_def mid_def min_def max_def)

lemma between_left: "between a (mid a b) x \<Longrightarrow> between a b x"
  by (auto simp add: between_def mid_def min_def max_def split: if_splits)

lemma between_right: "between (mid a b) b x \<Longrightarrow> between a b x"
  by (auto simp add: between_def mid_def min_def max_def split: if_splits)

lemma opposite_sign_step:
  fixes fa fb fm :: real
  assumes "fa * fb \<le> 0" "\<not> fa * fm \<le> 0"
  shows "fm * fb \<le> 0"
proof (rule ccontr)
  assume "\<not> fm * fb \<le> 0"
  then have "0 < fm * fb" by simp
  moreover from assms(2) have "0 < fa * fm" by simp
  ultimately have "0 < (fa * fm) * (fm * fb)"
    by (rule mult_pos_pos [rotated])
  then have "0 < (fm * fm) * (fa * fb)"
    by (simp add: mult_ac)
  then have "0 < fa * fb"
    by (simp add: zero_less_mult_iff)
  with assms(1) show False by simp
qed


lemma bisect_root:
  assumes "fst (bisect f tol maxIter i a b fa fb tr) = Inr r"
    and "bracket f a b fa fb"
  shows "\<exists>a' b' fa' fb' fm. bracket f a' b' fa' fb' \<and> between a b a' \<and> between a b b'
           \<and> r = mid a' b' \<and> f r = Inr fm \<and> (\<bar>fm\<bar> < tol \<or> \<bar>b' - a'\<bar> < tol)"
  using assms
proof (induction f tol maxIter i a b fa fb tr rule: bisect.induct)
  case (1 f tol maxIter i a b fa fb tr)
  note IH = "1.IH" [folded mid_def]
  show ?case
  proof (cases rule: bisect_cases [where i = i and maxIter = maxIter and f = f and tol = tol and a = a and b = b and fa = fa and fb = fb and tr = tr])
    case stop
    with "1.prems" show ?thesis by simp
  next
    case (error e)
    with "1.prems" show ?thesis by simp
  next
    case (found fm)
    with "1.prems"(1) have "r = mid a b" by simp
    with found(2,3) "1.prems"(2) between_ends(1,2) [of a b] show ?thesis
      by blast
  next
    case (left fm)
    have "bracket f a (mid a b) fa fm"
      using "1.prems"(2) left(2,4) by (simp add: bracket_def)
    from IH(1) [OF left(1) refl left(2,3,4) "1.prems"(1) [unfolded left(5)] this]
    show ?thesis
      using between_left [of a b] by blast
  next
    case (right fm)
    have "bracket f (mid a b) b fm fb"
      using "1.prems"(2) right(2,4) opposite_sign_step [of fa fb fm] by (simp add: bracket_def)
    from IH(2) [OF right(1) refl right(2,3,4) "1.prems"(1) [unfolded right(5)] this]
    show ?thesis
      using between_right [of a b] by blast
  qed
qed

lemma mid_width: "\<bar>mid a b - a\<bar> = \<bar>b - a\<bar> / 2" "\<bar>b - mid a b\<bar> = \<bar>b - a\<bar> / 2"
  by (simp_all add: mid_def abs_if field_simps)

lemma bisect_cap:
  assumes "\<forall>x. \<exists>y. f x = Inr y \<and> tol \<le> \<bar>y\<bar>"
    and "\<forall>j < nat (maxIter - i). tol \<le> \<bar>b - a\<bar> / 2 ^ j"
  shows "fst (bisect f tol maxIter i a b fa fb tr) = Inl BisectionDidNotConverge"
  using assms
proof (induction f tol maxIter i a b fa fb tr rule: bisect.induct)
  case (1 f tol maxIter i a b fa fb tr)
  note IH = "1.IH" [folded mid_def]
  have half: "\<forall>j < nat (maxIter - (i + 1)). tol \<le> (\<bar>b - a\<bar> / 2) / 2 ^ j"
  proof (intro allI impI)
    fix j assume "j < nat (maxIter - (i + 1))"
    then have "Suc j < nat (maxIter - i)" by linarith
    with "1.prems"(2) have "tol \<le> \<bar>b - a\<bar> / 2 ^ Suc j" by blast
    then show "tol \<le> (\<bar>b - a\<bar> / 2) / 2 ^ j" by simp
  qed
  have wide: "i < maxIter \<Longrightarrow> tol \<le> \<bar>b - a\<bar>"
    using "1.prems"(2) [rule_format, of 0] by simp
  show ?case
  proof (cases rule: bisect_cases [where i = i and maxIter = maxIter and f = f and tol = tol and a = a and b = b and fa = fa and fb = fb and tr = tr])
    case stop
    then show ?thesis by simp
  next
    case (error e)
    with "1.prems"(1) show ?thesis by (metis sum.distinct(1))
  next
    case (found fm)
    from "1.prems"(1) found(2) have "tol \<le> \<bar>fm\<bar>" by (metis sum.inject(2))
    with found(3) wide [OF found(1)] show ?thesis by simp
  next
    case (left fm)
    from IH(1) [OF left(1) refl left(2,3,4) "1.prems"(1)] half
    show ?thesis
      unfolding left(5) mid_width by blast
  next
    case (right fm)
    from IH(2) [OF right(1) refl right(2,3,4) "1.prems"(1)] half
    show ?thesis
      unfolding right(5) mid_width by blast
  qed
qed


lemma bisect_returns_evaluated:
  assumes "fst (bisect f tol maxIter i a b fa fb tr) = Inr r"
  shows "r \<in> set (snd (bisect f tol maxIter i a b fa fb tr))"
  using assms
proof (induction f tol maxIter i a b fa fb tr rule: bisect.induct)
  case (1 f tol maxIter i a b fa fb tr)
  note IH = "1.IH" [folded mid_def]
  show ?case
  proof (cases rule: bisect_cases [where i = i and maxIter = maxIter and f = f and tol = tol and a = a and b = b and fa = fa and fb = fb and tr = tr])
    case stop
    with "1.prems" show ?thesis by simp
  next
    case (error e)
    with "1.prems" show ?thesis by simp
  next
    case (found fm)
    with "1.prems" show ?thesis by simp
  next
    case (left fm)
    from IH(1) [OF left(1) refl left(2,3,4) "1.prems" [unfolded left(5)]]
    show ?thesis unfolding left(5) .
  next
    case (right fm)
    from IH(2) [OF right(1) refl right(2,3,4) "1.prems" [unfolded right(5)]]
    show ?thesis unfolding right(5) .
  qed
qed

lemma bab_cases [case_names errA errB zeroA zeroB scanErr scanNone scanSome direct]:
  fixes f :: rootFunc and a b :: real
  obtains e where "f a = Inl e" "bracketAndBisect_trace f a b maxIter tol = (Inl e, [a])"
  | fa e where "f a = Inr fa" "f b = Inl e" "bracketAndBisect_trace f a b maxIter tol = (Inl e, [a, b])"
  | fa fb where "f a = Inr fa" "f b = Inr fb" "fa = 0"
      "bracketAndBisect_trace f a b maxIter tol = (Inr a, [a, b])"
  | fa fb where "f a = Inr fa" "f b = Inr fb" "fa \<noteq> 0" "fb = 0"
      "bracketAndBisect_trace f a b maxIter tol = (Inr b, [a, b])"
  | fa fb e tr where "f a = Inr fa" "f b = Inr fb" "0 < fa * fb"
      "scan f a b 50 1 a fa [a, b] = (Inl e, tr)"
      "bracketAndBisect_trace f a b maxIter tol = (Inl e, tr)"
  | fa fb tr where "f a = Inr fa" "f b = Inr fb" "0 < fa * fb"
      "scan f a b 50 1 a fa [a, b] = (Inr None, tr)"
      "bracketAndBisect_trace f a b maxIter tol = (Inl NoSignChangeInBracket, tr)"
  | fa fb a' b' fa' fb' tr where "f a = Inr fa" "f b = Inr fb" "0 < fa * fb"
      "scan f a b 50 1 a fa [a, b] = (Inr (Some (a', b', fa', fb')), tr)"
      "bracketAndBisect_trace f a b maxIter tol
         = (if fa' * fb' > 0 then (Inl NoSignChangeInBracket, tr)
            else bisect f tol maxIter 0 a' b' fa' fb' tr)"
  | fa fb where "f a = Inr fa" "f b = Inr fb" "fa \<noteq> 0" "fb \<noteq> 0" "\<not> 0 < fa * fb"
      "bracketAndBisect_trace f a b maxIter tol = bisect f tol maxIter 0 a b fa fb [a, b]"
proof (cases "f a")
  case (Inl e)
  with that(1) show ?thesis
    by (simp add: bracketAndBisect_trace_def)
next
  case fa: (Inr fa)
  show ?thesis
  proof (cases "f b")
    case (Inl e)
    with fa that(2) show ?thesis
      by (simp add: bracketAndBisect_trace_def)
  next
    case fb: (Inr fb)
    show ?thesis
    proof (cases "fa = 0")
      case True
      with fa fb that(3) show ?thesis
        by (simp add: bracketAndBisect_trace_def IsNaN_def IsInf_def)
    next
      case a0: False
      show ?thesis
      proof (cases "fb = 0")
        case True
        with fa fb a0 that(4) show ?thesis
          by (simp add: bracketAndBisect_trace_def IsNaN_def IsInf_def)
      next
        case b0: False
        show ?thesis
        proof (cases "0 < fa * fb")
          case False
          with fa fb a0 b0 that(8) show ?thesis
            by (simp add: bracketAndBisect_trace_def IsNaN_def IsInf_def)
        next
          case pos: True
          obtain r tr where sc: "scan f a b 50 1 a fa [a, b] = (r, tr)"
            by (cases "scan f a b 50 1 a fa [a, b]")
          show ?thesis
          proof (cases r)
            case (Inl e)
            with fa fb a0 b0 pos sc that(5) show ?thesis
              by (simp add: bracketAndBisect_trace_def IsNaN_def IsInf_def)
          next
            case (Inr opt)
            show ?thesis
            proof (cases opt)
              case None
              with Inr fa fb a0 b0 pos sc that(6) show ?thesis
                by (simp add: bracketAndBisect_trace_def IsNaN_def IsInf_def)
            next
              case (Some q)
              obtain a' b' fa' fb' where q: "q = (a', b', fa', fb')"
                by (cases q)
              have "bracketAndBisect_trace f a b maxIter tol
                 = (if fa' * fb' > 0 then (Inl NoSignChangeInBracket, tr)
                    else bisect f tol maxIter 0 a' b' fa' fb' tr)"
                using Some Inr fa fb a0 b0 pos sc q
                by (simp add: bracketAndBisect_trace_def IsNaN_def IsInf_def)
              with that(7) [OF fa fb pos sc [unfolded Inr Some q]] show ?thesis
                by blast
            qed
          qed
        qed
      qed
    qed
  qed
qed


lemma bab_trace:
  "\<exists>j mids. j \<le> 50 \<and> length mids \<le> nat maxIter
      \<and> (evaluations f a b maxIter tol = [a]
          \<or> evaluations f a b maxIter tol = [a, b] @ map (scan_pt a b 50) [1..<1 + j] @ mids)
      \<and> (0 < j \<longrightarrow> (\<exists>fa fb. f a = Inr fa \<and> f b = Inr fb \<and> 0 < fa * fb))"
proof (cases rule: bab_cases [where f = f and a = a and b = b and maxIter = maxIter and tol = tol])
  case (errA e)
  then show ?thesis
    by (intro exI [of _ 0] exI [of _ "[]"]) (simp add: evaluations_def)
next
  case (errB fa e)
  then show ?thesis
    by (intro exI [of _ 0] exI [of _ "[]"]) (simp add: evaluations_def)
next
  case (zeroA fa fb)
  then show ?thesis
    by (intro exI [of _ 0] exI [of _ "[]"]) (simp add: evaluations_def)
next
  case (zeroB fa fb)
  then show ?thesis
    by (intro exI [of _ 0] exI [of _ "[]"]) (simp add: evaluations_def)
next
  case (scanErr fa fb e tr)
  from scan_trace [of 50 1 f a b a fa "[a, b]"] scanErr(4)
  obtain j where "j \<le> 50" "tr = [a, b] @ map (scan_pt a b 50) [1..<1 + j]"
    by auto
  with scanErr(1,2,3,5) show ?thesis
    by (intro exI [of _ j] exI [of _ "[]"]) (auto simp add: evaluations_def)
next
  case (scanNone fa fb tr)
  from scan_trace [of 50 1 f a b a fa "[a, b]"] scanNone(4)
  obtain j where "j \<le> 50" "tr = [a, b] @ map (scan_pt a b 50) [1..<1 + j]"
    by auto
  with scanNone(1,2,3,5) show ?thesis
    by (intro exI [of _ j] exI [of _ "[]"]) (auto simp add: evaluations_def)
next
  case (scanSome fa fb a' b' fa' fb' tr)
  from scan_trace [of 50 1 f a b a fa "[a, b]"] scanSome(4)
  obtain j where j: "j \<le> 50" "tr = [a, b] @ map (scan_pt a b 50) [1..<1 + j]"
    by auto
  from bisect_trace [of maxIter 0 f tol a' b' fa' fb' tr]
  obtain mids where mids: "length mids \<le> nat maxIter"
    "snd (bisect f tol maxIter 0 a' b' fa' fb' tr) = tr @ mids"
    by auto
  show ?thesis
  proof (cases "fa' * fb' > 0")
    case True
    with j scanSome(1,2,3,5) show ?thesis
      by (intro exI [of _ j] exI [of _ "[]"]) (auto simp add: evaluations_def)
  next
    case False
    with j mids scanSome(1,2,3,5) show ?thesis
      by (intro exI [of _ j] exI [of _ mids]) (auto simp add: evaluations_def)
  qed
next
  case (direct fa fb)
  from bisect_trace [of maxIter 0 f tol a b fa fb "[a, b]"]
  obtain mids where "length mids \<le> nat maxIter"
    "snd (bisect f tol maxIter 0 a b fa fb [a, b]) = [a, b] @ mids"
    by auto
  with direct(6) show ?thesis
    by (intro exI [of _ 0] exI [of _ mids]) (simp add: evaluations_def)
qed

lemma bab_length: "length (evaluations f a b maxIter tol) \<le> 52 + nat maxIter"
proof -
  from bab_trace [of maxIter f a b tol]
  obtain j mids where "j \<le> 50" "length mids \<le> nat maxIter"
    "evaluations f a b maxIter tol = [a]
       \<or> evaluations f a b maxIter tol = [a, b] @ map (scan_pt a b 50) [1..<1 + j] @ mids"
    by blast
  then show ?thesis
    by auto
qed

lemma bab_no_error:
  assumes "\<not> isl (bracketAndBisect f a b maxIter tol)"
    and "x \<in> set (evaluations f a b maxIter tol)"
  shows "\<not> isl (f x)"
proof (cases rule: bab_cases [where f = f and a = a and b = b and maxIter = maxIter and tol = tol])
  case (errA e)
  with assms show ?thesis by (simp add: bracketAndBisect_def)
next
  case (errB fa e)
  with assms show ?thesis by (simp add: bracketAndBisect_def)
next
  case (zeroA fa fb)
  with assms show ?thesis by (auto simp add: evaluations_def)
next
  case (zeroB fa fb)
  with assms show ?thesis by (auto simp add: evaluations_def)
next
  case (scanErr fa fb e tr)
  with assms show ?thesis by (simp add: bracketAndBisect_def)
next
  case (scanNone fa fb tr)
  with assms show ?thesis by (simp add: bracketAndBisect_def)
next
  case (scanSome fa fb a' b' fa' fb' tr)
  show ?thesis
  proof (cases "fa' * fb' > 0")
    case True
    with scanSome assms show ?thesis by (simp add: bracketAndBisect_def)
  next
    case False
    with scanSome(5) assms have
      "\<not> isl (fst (bisect f tol maxIter 0 a' b' fa' fb' tr))"
      "x \<in> set (snd (bisect f tol maxIter 0 a' b' fa' fb' tr))"
      by (simp_all add: bracketAndBisect_def evaluations_def)
    from bisect_no_error [OF this] have "x \<in> set tr \<or> \<not> isl (f x)" .
    moreover have "x \<in> set tr \<Longrightarrow> x = a \<or> x = b \<or> \<not> isl (f x)"
      using scan_no_error [of f a b 50 1 a fa "[a, b]" x] scanSome(4) by simp
    moreover have "\<not> isl (f a)" "\<not> isl (f b)"
      using scanSome(1,2) by simp_all
    ultimately show ?thesis
      by blast
  qed
next
  case (direct fa fb)
  with assms have
    "\<not> isl (fst (bisect f tol maxIter 0 a b fa fb [a, b]))"
    "x \<in> set (snd (bisect f tol maxIter 0 a b fa fb [a, b]))"
    by (simp_all add: bracketAndBisect_def evaluations_def)
  from bisect_no_error [OF this] direct(1,2) show ?thesis
    by auto
qed


lemma scan_pt_between:
  assumes "k \<le> n" "0 < n"
  shows "between a b (scan_pt a b n k)"
proof -
  define t where "t = real k / real n"
  have t: "0 \<le> t" "t \<le> 1"
    using assms by (simp_all add: t_def)
  have pt: "scan_pt a b n k = a + t * (b - a)"
    by (simp add: scan_pt_def t_def)
  show ?thesis
  proof (cases "a \<le> b")
    case True
    then have ba: "0 \<le> b - a" by simp
    have "0 \<le> t * (b - a)"
      using t(1) ba by (rule mult_nonneg_nonneg)
    moreover have "t * (b - a) \<le> 1 * (b - a)"
      using t(2) ba by (rule mult_right_mono)
    ultimately have "a \<le> a + t * (b - a)" "a + t * (b - a) \<le> b"
      by (simp_all add: algebra_simps)
    moreover have "min a b = a" "max a b = b"
      using True by simp_all
    ultimately show ?thesis
      unfolding pt between_def by (simp only: simp_thms)
  next
    case False
    then have ab: "0 \<le> a - b" by simp
    have "0 \<le> t * (a - b)"
      using t(1) ab by (rule mult_nonneg_nonneg)
    moreover have "t * (a - b) \<le> 1 * (a - b)"
      using t(2) ab by (rule mult_right_mono)
    ultimately have "a + t * (b - a) \<le> a" "b \<le> a + t * (b - a)"
      by (simp_all add: algebra_simps)
    moreover have "min a b = b" "max a b = a"
      using False by simp_all
    ultimately show ?thesis
      unfolding pt between_def by (simp only: simp_thms)
  qed
qed

lemma between_trans:
  assumes "between a b x" "between a b y" "between x y z"
  shows "between a b z"
  using assms by (auto simp add: between_def min_def max_def split: if_splits)

lemma bab_root:
  assumes "bracketAndBisect f a b maxIter tol = Inr r"
  shows "r \<in> set (evaluations f a b maxIter tol)
     \<and> (\<exists>fr. f r = Inr fr \<and>
          (fr = 0 \<and> (r = a \<or> r = b)
           \<or> (\<exists>a' b' fa' fb'. bracket f a' b' fa' fb' \<and> between a b a' \<and> between a b b'
                 \<and> r = mid a' b' \<and> (\<bar>fr\<bar> < tol \<or> \<bar>b' - a'\<bar> < tol))))"
proof (cases rule: bab_cases [where f = f and a = a and b = b and maxIter = maxIter and tol = tol])
  case (errA e)
  with assms show ?thesis by (simp add: bracketAndBisect_def)
next
  case (errB fa e)
  with assms show ?thesis by (simp add: bracketAndBisect_def)
next
  case (zeroA fa fb)
  with assms show ?thesis by (auto simp add: bracketAndBisect_def evaluations_def)
next
  case (zeroB fa fb)
  with assms show ?thesis by (auto simp add: bracketAndBisect_def evaluations_def)
next
  case (scanErr fa fb e tr)
  with assms show ?thesis by (simp add: bracketAndBisect_def)
next
  case (scanNone fa fb tr)
  with assms show ?thesis by (simp add: bracketAndBisect_def)
next
  case (scanSome fa fb a' b' fa' fb' tr)
  show ?thesis
  proof (cases "fa' * fb' > 0")
    case True
    with scanSome assms show ?thesis by (simp add: bracketAndBisect_def)
  next
    case False
    with scanSome(5) assms have res: "fst (bisect f tol maxIter 0 a' b' fa' fb' tr) = Inr r"
      by (simp add: bracketAndBisect_def)
    have ev: "evaluations f a b maxIter tol = snd (bisect f tol maxIter 0 a' b' fa' fb' tr)"
      using False scanSome(5) by (simp add: evaluations_def)
    from scan_bracket [of f a b 50 1 a fa "[a, b]" a' b' fa' fb'] scanSome(1,4)
    have br: "bracket f a' b' fa' fb'"
      and a': "a' \<in> insert a (scan_pt a b 50 ` {1..50})"
      and b': "b' \<in> scan_pt a b 50 ` {1..50}"
      by (simp_all add: bracket_def)
    have ba: "between a b a'" and bb: "between a b b'"
      using a' b' scan_pt_between [of _ 50 a b] between_ends(1) [of a b] by auto
    from bisect_root [OF res br]
    obtain a'' b'' fa'' fb'' fm where *: "bracket f a'' b'' fa'' fb''" "between a' b' a''"
      "between a' b' b''" "r = mid a'' b''" "f r = Inr fm" "\<bar>fm\<bar> < tol \<or> \<bar>b'' - a''\<bar> < tol"
      by blast
    have "between a b a''" "between a b b''"
      using between_trans [OF ba bb] * by blast+
    moreover have "r \<in> set (evaluations f a b maxIter tol)"
    proof -
      obtain mids where "snd (bisect f tol maxIter 0 a' b' fa' fb' tr) = tr @ mids"
        using bisect_trace by blast
      have "r \<in> set (snd (bisect f tol maxIter 0 a' b' fa' fb' tr))"
        using res bisect_returns_evaluated by blast
      then show ?thesis unfolding ev .
    qed
    ultimately show ?thesis
      using * by blast
  qed
next
  case (direct fa fb)
  with assms have res: "fst (bisect f tol maxIter 0 a b fa fb [a, b]) = Inr r"
    by (simp add: bracketAndBisect_def)
  have ev: "evaluations f a b maxIter tol = snd (bisect f tol maxIter 0 a b fa fb [a, b])"
    using direct(6) by (simp add: evaluations_def)
  have br: "bracket f a b fa fb"
    using direct(1,2,5) by (simp add: bracket_def not_less)
  from bisect_root [OF res br]
  obtain a'' b'' fa'' fb'' fm where *: "bracket f a'' b'' fa'' fb''" "between a b a''"
    "between a b b''" "r = mid a'' b''" "f r = Inr fm" "\<bar>fm\<bar> < tol \<or> \<bar>b'' - a''\<bar> < tol"
    by blast
  moreover have "r \<in> set (evaluations f a b maxIter tol)"
    using res bisect_returns_evaluated unfolding ev by blast
  ultimately show ?thesis
    by blast
qed


lemma same_sign_product:
  fixes sg x y :: real
  assumes "0 < sg * x" "0 < sg * y"
  shows "0 < x * y"
  using assms by (auto simp add: zero_less_mult_iff)

lemma bab_same_sign:
  assumes "\<forall>x. between a b x \<longrightarrow> (\<exists>y. f x = Inr y \<and> 0 < sg * y)"
  shows "bracketAndBisect f a b maxIter tol = Inl NoSignChangeInBracket"
proof -
  have pts: "\<forall>j. 1 \<le> j \<and> j \<le> 50 \<longrightarrow> (\<exists>y. f (scan_pt a b 50 j) = Inr y \<and> 0 < sg * y)"
    using assms scan_pt_between [of _ 50 a b] by simp
  obtain ya yb where ya: "f a = Inr ya" "0 < sg * ya" and yb: "f b = Inr yb" "0 < sg * yb"
    using assms between_ends [of a b] by blast
  have prod: "0 < ya * yb"
    using ya(2) yb(2) by (rule same_sign_product)
  have sc: "fst (scan f a b 50 1 a ya [a, b]) = Inr None"
    using pts ya(2) by (rule scan_same_sign)
  show ?thesis
  proof (cases rule: bab_cases [where f = f and a = a and b = b and maxIter = maxIter and tol = tol])
    case (errA e)
    with ya show ?thesis by simp
  next
    case (errB fa e)
    with yb show ?thesis by simp
  next
    case (zeroA fa fb)
    with ya show ?thesis by simp
  next
    case (zeroB fa fb)
    with yb show ?thesis by simp
  next
    case (scanErr fa fb e tr)
    with ya sc show ?thesis by simp
  next
    case (scanNone fa fb tr)
    then show ?thesis by (simp add: bracketAndBisect_def)
  next
    case (scanSome fa fb a' b' fa' fb' tr)
    with ya sc show ?thesis by simp
  next
    case (direct fa fb)
    with ya yb prod show ?thesis by simp
  qed
qed

lemma bab_cap:
  assumes "\<forall>x. \<exists>y. f x = Inr y \<and> tol \<le> \<bar>y\<bar>"
    and "f a = Inr fa" "f b = Inr fb" "fa * fb < 0"
    and "\<forall>j < nat maxIter. tol \<le> \<bar>b - a\<bar> / 2 ^ j"
  shows "bracketAndBisect f a b maxIter tol = Inl BisectionDidNotConverge"
proof -
  have "fst (bisect f tol maxIter 0 a b fa fb [a, b]) = Inl BisectionDidNotConverge"
    using assms(1,5) by (intro bisect_cap) simp_all
  moreover have "fa \<noteq> 0" "fb \<noteq> 0" "\<not> 0 < fa * fb"
    using assms(4) by auto
  ultimately show ?thesis
    using assms(2,3)
    by (simp add: bracketAndBisect_def bracketAndBisect_trace_def IsNaN_def IsInf_def)
qed

text \<open>
  C8.  A call \<^verbatim>\<open>bracketAndBisect(f, a, b, maxIter, tol)\<close> returns after at most
  \<open>52 + maxIter\<close> evaluations of \<open>f\<close> (132 for the 80 iterations Region 3 asks for): the two
  ends, then at most 50 scan points \<open>a + (k / 50) (b - a)\<close>, \<open>k = 1, 2, \<dots>\<close>, evaluated only when
  the values at the ends have a positive product, then at most \<open>maxIter\<close> midpoints.  An error
  of \<open>f\<close> at an evaluated point makes the call fail.  A value returned is a point at which
  \<open>f\<close> was evaluated without error: an end at which \<open>f\<close> is zero, or the midpoint of a bracket
  with a sign change inside \<open>[a, b]\<close> at which \<open>\<bar>f\<bar> < tol\<close> or whose width is below \<open>tol\<close>.  Where
  \<open>f\<close> has one strict sign on all of \<open>[a, b]\<close> the call fails with "no sign change in
  bracket"; where the ends have values of opposite sign, \<open>\<bar>f\<bar>\<close> stays at or above \<open>tol\<close> and the
  bracket is still at least \<open>tol\<close> wide after \<open>maxIter - 1\<close> halvings, it fails with "bisection
  did not converge".
\<close>

theorem bracketAndBisect_bounded:
  "length (evaluations f a b maxIter tol) \<le> 52 + nat maxIter
   \<and> (\<exists>j mids. j \<le> 50 \<and> length mids \<le> nat maxIter
        \<and> (evaluations f a b maxIter tol = [a]
            \<or> evaluations f a b maxIter tol = [a, b] @ map (scan_pt a b 50) [1..<1 + j] @ mids)
        \<and> (0 < j \<longrightarrow> (\<exists>fa fb. f a = Inr fa \<and> f b = Inr fb \<and> 0 < fa * fb)))
   \<and> ((\<exists>x. x \<in> set (evaluations f a b maxIter tol) \<and> isl (f x))
        \<longrightarrow> isl (bracketAndBisect f a b maxIter tol))
   \<and> (\<forall>r. bracketAndBisect f a b maxIter tol = Inr r \<longrightarrow>
        r \<in> set (evaluations f a b maxIter tol)
        \<and> (\<exists>fr. f r = Inr fr \<and>
             (fr = 0 \<and> (r = a \<or> r = b)
              \<or> (\<exists>a' b' fa' fb'. bracket f a' b' fa' fb' \<and> between a b a' \<and> between a b b'
                    \<and> r = mid a' b' \<and> (\<bar>fr\<bar> < tol \<or> \<bar>b' - a'\<bar> < tol)))))
   \<and> (\<forall>sg. (\<forall>x. between a b x \<longrightarrow> (\<exists>y. f x = Inr y \<and> 0 < sg * y))
        \<longrightarrow> bracketAndBisect f a b maxIter tol = Inl NoSignChangeInBracket)
   \<and> ((\<forall>x. \<exists>y. f x = Inr y \<and> tol \<le> \<bar>y\<bar>)
        \<and> (\<exists>fa fb. f a = Inr fa \<and> f b = Inr fb \<and> fa * fb < 0)
        \<and> (\<forall>j < nat maxIter. tol \<le> \<bar>b - a\<bar> / 2 ^ j)
        \<longrightarrow> bracketAndBisect f a b maxIter tol = Inl BisectionDidNotConverge)"
proof (intro conjI allI impI)
  show "length (evaluations f a b maxIter tol) \<le> 52 + nat maxIter"
    by (rule bab_length)
next
  show "\<exists>j mids. j \<le> 50 \<and> length mids \<le> nat maxIter
        \<and> (evaluations f a b maxIter tol = [a]
            \<or> evaluations f a b maxIter tol = [a, b] @ map (scan_pt a b 50) [1..<1 + j] @ mids)
        \<and> (0 < j \<longrightarrow> (\<exists>fa fb. f a = Inr fa \<and> f b = Inr fb \<and> 0 < fa * fb))"
    by (rule bab_trace)
next
  assume "\<exists>x. x \<in> set (evaluations f a b maxIter tol) \<and> isl (f x)"
  then obtain x where "x \<in> set (evaluations f a b maxIter tol)" "isl (f x)"
    by blast
  then show "isl (bracketAndBisect f a b maxIter tol)"
    using bab_no_error [where f = f and a = a and b = b and maxIter = maxIter and tol = tol and x = x]
    by blast
next
  fix r assume "bracketAndBisect f a b maxIter tol = Inr r"
  from bab_root [OF this] show "r \<in> set (evaluations f a b maxIter tol)"
    by (rule conjunct1)
next
  fix r assume "bracketAndBisect f a b maxIter tol = Inr r"
  from bab_root [OF this] show "\<exists>fr. f r = Inr fr \<and>
             (fr = 0 \<and> (r = a \<or> r = b)
              \<or> (\<exists>a' b' fa' fb'. bracket f a' b' fa' fb' \<and> between a b a' \<and> between a b b'
                    \<and> r = mid a' b' \<and> (\<bar>fr\<bar> < tol \<or> \<bar>b' - a'\<bar> < tol)))"
    by (rule conjunct2)
next
  fix sg assume "\<forall>x. between a b x \<longrightarrow> (\<exists>y. f x = Inr y \<and> 0 < sg * y)"
  then show "bracketAndBisect f a b maxIter tol = Inl NoSignChangeInBracket"
    by (rule bab_same_sign)
next
  assume *: "(\<forall>x. \<exists>y. f x = Inr y \<and> tol \<le> \<bar>y\<bar>)
        \<and> (\<exists>fa fb. f a = Inr fa \<and> f b = Inr fb \<and> fa * fb < 0)
        \<and> (\<forall>j < nat maxIter. tol \<le> \<bar>b - a\<bar> / 2 ^ j)"
  then obtain fa fb where ends: "f a = Inr fa" "f b = Inr fb" "fa * fb < 0"
    by blast
  from * have big: "\<forall>x. \<exists>y. f x = Inr y \<and> tol \<le> \<bar>y\<bar>"
    and wide: "\<forall>j < nat maxIter. tol \<le> \<bar>b - a\<bar> / 2 ^ j"
    by blast+
  from big ends wide show "bracketAndBisect f a b maxIter tol = Inl BisectionDidNotConverge"
    by (rule bab_cap)
qed


theorem bracketAndBisect_bounded_witness:
  "bracketAndBisect (\<lambda>x. Inr (x - 1)) 0 2 80 (1 / 10 ^ 6) = Inr 1
   \<and> 1 \<in> set (evaluations (\<lambda>x. Inr (x - 1)) 0 2 80 (1 / 10 ^ 6))
   \<and> length (evaluations (\<lambda>x. Inr (x - 1)) 0 2 80 (1 / 10 ^ 6)) \<le> 132
   \<and> isl (bracketAndBisect (\<lambda>x. Inl LoadError) 0 2 80 (1 / 10 ^ 6))
   \<and> bracketAndBisect (\<lambda>x. Inr 1) 0 2 80 (1 / 10 ^ 6) = Inl NoSignChangeInBracket
   \<and> bracketAndBisect (\<lambda>x. Inr (if x < 1 then - 1 else 1)) 0 (2 ^ 80) 80 (1 / 10 ^ 6)
       = Inl BisectionDidNotConverge"
proof -
  let ?tol = "1 / 10 ^ 6 :: real"
  let ?f = "\<lambda>x::real. (Inr (x - 1) :: error + real)"
  let ?g = "\<lambda>x::real. (Inl LoadError :: error + real)"
  let ?h = "\<lambda>x::real. (Inr 1 :: error + real)"
  let ?s = "\<lambda>x::real. (Inr (if x < 1 then - 1 else 1) :: error + real)"
  have "bisect ?f ?tol 80 0 0 2 (- 1) 1 [0, 2] = (Inr (0.5 * (0 + 2)), [0, 2] @ [0.5 * (0 + 2)])"
    by (rule bisect_found [where fm = 0]) simp_all
  then have r: "bracketAndBisect ?f 0 2 80 ?tol = Inr 1"
    by (simp add: bracketAndBisect_def bracketAndBisect_trace_def IsNaN_def IsInf_def)
  note F = bracketAndBisect_bounded [where f = ?f and a = 0 and b = 2 and maxIter = 80 and tol = ?tol]
  have "length (evaluations ?f 0 2 80 ?tol) \<le> 52 + nat 80"
    using F by (rule conjunct1)
  then have len: "length (evaluations ?f 0 2 80 ?tol) \<le> 132"
    by simp
  have mem: "1 \<in> set (evaluations ?f 0 2 80 ?tol)"
    using F [THEN conjunct2, THEN conjunct2, THEN conjunct2, THEN conjunct1, rule_format, OF r]
    by (rule conjunct1)
  note G = bracketAndBisect_bounded [where f = ?g and a = 0 and b = 2 and maxIter = 80 and tol = ?tol]
  have "evaluations ?g 0 2 80 ?tol = [0]"
    by (simp add: evaluations_def bracketAndBisect_trace_def)
  then have "\<exists>x. x \<in> set (evaluations ?g 0 2 80 ?tol) \<and> isl (?g x)"
    by simp
  with G [THEN conjunct2, THEN conjunct2, THEN conjunct1]
  have err: "isl (bracketAndBisect ?g 0 2 80 ?tol)"
    by (rule mp)
  note H = bracketAndBisect_bounded [where f = ?h and a = 0 and b = 2 and maxIter = 80 and tol = ?tol]
  have "\<forall>x. between 0 2 x \<longrightarrow> (\<exists>y. ?h x = Inr y \<and> 0 < 1 * y)"
    by simp
  with H [THEN conjunct2, THEN conjunct2, THEN conjunct2, THEN conjunct2, THEN conjunct1, THEN spec, of 1]
  have none: "bracketAndBisect ?h 0 2 80 ?tol = Inl NoSignChangeInBracket"
    by (rule mp)
  note S = bracketAndBisect_bounded [where f = ?s and a = 0 and b = "2 ^ 80" and maxIter = 80 and tol = ?tol]
  have big: "\<forall>x. \<exists>y. ?s x = Inr y \<and> ?tol \<le> \<bar>y\<bar>"
    by simp
  have ends: "\<exists>fa fb. ?s 0 = Inr fa \<and> ?s (2 ^ 80) = Inr fb \<and> fa * fb < 0"
    by simp
  have wide: "\<forall>j < nat 80. ?tol \<le> \<bar>2 ^ 80 - 0\<bar> / 2 ^ j"
  proof (intro allI impI)
    fix j :: nat assume "j < nat 80"
    then have "j \<le> 80" by simp
    then have "(2::real) ^ j \<le> 2 ^ 80"
      by (intro power_increasing) simp_all
    then have "1 \<le> (2::real) ^ 80 / 2 ^ j"
      by (simp add: le_divide_eq)
    moreover have "?tol \<le> 1" by simp
    ultimately have "?tol \<le> (2::real) ^ 80 / 2 ^ j"
      by (rule order_trans [rotated])
    then show "?tol \<le> \<bar>2 ^ 80 - 0\<bar> / 2 ^ j"
      by simp
  qed
  from big ends wide have "(\<forall>x. \<exists>y. ?s x = Inr y \<and> ?tol \<le> \<bar>y\<bar>)
      \<and> (\<exists>fa fb. ?s 0 = Inr fa \<and> ?s (2 ^ 80) = Inr fb \<and> fa * fb < 0)
      \<and> (\<forall>j < nat 80. ?tol \<le> \<bar>2 ^ 80 - 0\<bar> / 2 ^ j)"
    by (intro conjI)
  with S [THEN conjunct2, THEN conjunct2, THEN conjunct2, THEN conjunct2, THEN conjunct2]
  have cap: "bracketAndBisect ?s 0 (2 ^ 80) 80 ?tol = Inl BisectionDidNotConverge"
    by (rule mp)
  from r mem len err none cap show ?thesis
    by (intro conjI)
qed

section \<open>The saturation line: the return trip\<close>

lemma quad_shift:
  fixes a b c x t :: real
  shows "a * x\<^sup>2 + b * x + c = a * (x - t)\<^sup>2 + (2 * a * t + b) * (x - t) + (a * t\<^sup>2 + b * t + c)"
  by (simp add: power2_eq_square algebra_simps)

lemma quad_definite:
  fixes a b c x :: real
  shows "4 * a * (a * x\<^sup>2 + b * x + c) = (2 * a * x + b)\<^sup>2 + (4 * a * c - b\<^sup>2)"
  by (simp add: power2_eq_square algebra_simps)

lemma quad_pos:
  fixes a b c x :: real
  assumes "0 < a" "b\<^sup>2 < 4 * a * c"
  shows "0 < a * x\<^sup>2 + b * x + c"
proof -
  have "0 < (2 * a * x + b)\<^sup>2 + (4 * a * c - b\<^sup>2)"
    using assms(2) by (intro add_nonneg_pos) simp_all
  then have "0 < 4 * a * (a * x\<^sup>2 + b * x + c)"
    by (simp only: quad_definite)
  then have "0 < a * (a * x\<^sup>2 + b * x + c)"
    by simp
  with assms(1) show ?thesis
    by (simp add: zero_less_mult_iff)
qed

lemma quad_neg:
  fixes a b c x :: real
  assumes "a < 0" "b\<^sup>2 < 4 * a * c"
  shows "a * x\<^sup>2 + b * x + c < 0"
proof -
  have "0 < (- a) * x\<^sup>2 + (- b) * x + (- c)"
    using assms by (intro quad_pos) simp_all
  then show ?thesis by simp
qed

text \<open>The forward equation: \<open>B < 0 < C\<close> at every \<open>\<theta>\<close>.\<close>

lemma sat_B_neg: "sat_B n_IF97 T < 0"
  unfolding sat_B_def n_IF97_simps
  by (rule quad_neg) (simp_all add: power2_eq_square)

lemma sat_C_pos: "0 < sat_C n_IF97 T"
  unfolding sat_C_def n_IF97_simps
  by (rule quad_pos) (simp_all add: power2_eq_square)


lemma quarter_not_int: "(0.25::real) \<notin> \<int>"
proof
  assume "(0.25::real) \<in> \<int>"
  then obtain z :: int where "(0.25::real) = of_int z"
    by (rule Ints_cases)
  then have "(of_int (4 * z) :: real) = of_int 1"
    by simp
  then have "4 * z = 1"
    by (simp only: of_int_eq_iff)
  then show False
    by presburger
qed

lemma fourth_root_of_fourth_power:
  assumes "0 < x"
  shows "math_Pow (x ^ 4) 0.25 = x"
proof -
  have "x ^ 4 = x powr 4"
    using assms powr_realpow [of x 4] by simp
  then have "(x ^ 4) powr 0.25 = (x powr 4) powr 0.25"
    by simp
  also have "\<dots> = x powr (4 * 0.25)"
    by (rule powr_powr)
  also have "\<dots> = x"
    using assms by simp
  finally show ?thesis
    by (simp add: math_Pow_def quarter_not_int)
qed

text \<open>The value the forward equation takes the fourth power of is the positive root of
  \<open>A \<beta>\<^sup>2 + B \<beta> + C\<close>.\<close>

lemma forward_root:
  fixes A B C :: real
  assumes "B < 0" "0 < C" "0 \<le> B\<^sup>2 - 4 * A * C"
  defines "x \<equiv> 2 * C / (- B + sqrt (B\<^sup>2 - 4 * A * C))"
  shows "0 < x" "A * x\<^sup>2 + B * x + C = 0"
proof -
  define s where "s = sqrt (B\<^sup>2 - 4 * A * C)"
  define den where "den = - B + s"
  have s0: "0 \<le> s" and s2: "s\<^sup>2 = B\<^sup>2 - 4 * A * C"
    using assms(3) by (simp_all add: s_def)
  have den: "0 < den"
    using assms(1) s0 by (simp add: den_def)
  have x: "x = 2 * C / den"
    by (simp add: x_def den_def s_def)
  show "0 < x"
    using assms(2) den by (simp add: x)
  have xden: "x * den = 2 * C"
    using den by (simp add: x)
  have "den * (den + 2 * B) = s\<^sup>2 - B\<^sup>2"
    by (simp add: den_def power2_eq_square algebra_simps)
  then have dd: "den * (den + 2 * B) = - (4 * A * C)"
    by (simp add: s2)
  have "(A * x\<^sup>2 + B * x + C) * den\<^sup>2 = A * (x * den)\<^sup>2 + B * (x * den) * den + C * den\<^sup>2"
    by (simp add: power2_eq_square algebra_simps)
  also have "\<dots> = A * (2 * C)\<^sup>2 + B * (2 * C) * den + C * den\<^sup>2"
    by (simp only: xden)
  also have "\<dots> = C * (4 * A * C + den * (den + 2 * B))"
    by (simp add: power2_eq_square algebra_simps)
  also have "\<dots> = 0"
    by (simp only: dd) simp
  finally have "(A * x\<^sup>2 + B * x + C) * den\<^sup>2 = 0" .
  with den show "A * x\<^sup>2 + B * x + C = 0"
    by simp
qed

text \<open>The backward equation returns a root \<open>\<theta>\<close> of \<open>E \<theta>\<^sup>2 + F \<theta> + G\<close> at which both
  \<open>2 E \<theta> + F\<close> and \<open>E \<theta> + F\<close> are positive.\<close>

lemma backward_root:
  fixes E F G th :: real
  assumes "E * th\<^sup>2 + F * th + G = 0" "0 < 2 * E * th + F" "0 < E * th + F"
  shows "F\<^sup>2 - 4 * E * G = (2 * E * th + F)\<^sup>2"
    and "2 * G / (- F - sqrt (F\<^sup>2 - 4 * E * G)) = th"
proof -
  have G: "G = - (E * th\<^sup>2 + F * th)"
    using assms(1) by simp
  show d: "F\<^sup>2 - 4 * E * G = (2 * E * th + F)\<^sup>2"
    by (simp add: G power2_eq_square algebra_simps)
  have "sqrt (F\<^sup>2 - 4 * E * G) = 2 * E * th + F"
    using assms(2) by (simp only: d) simp
  then have den: "- F - sqrt (F\<^sup>2 - 4 * E * G) = - 2 * (E * th + F)"
    by simp
  have num: "2 * G = th * (- 2 * (E * th + F))"
    by (simp add: G power2_eq_square algebra_simps)
  show "2 * G / (- F - sqrt (F\<^sup>2 - 4 * E * G)) = th"
    using assms(3) by (simp only: den num) simp
qed

text \<open>From \<open>\<theta> = T + n\<^sub>9 / (T - n\<^sub>1\<^sub>0)\<close> back to \<open>T\<close>.\<close>

lemma temperature_of_theta:
  fixes T n9 n10 :: real
  assumes "T < n10" "n9 < 0"
  defines "th \<equiv> T + n9 / (T - n10)"
  shows "(n10 + th)\<^sup>2 - 4 * (n9 + n10 * th) = (T - n10 - n9 / (T - n10))\<^sup>2"
    and "0.5 * (n10 + th - sqrt ((n10 + th)\<^sup>2 - 4 * (n9 + n10 * th))) = T"
proof -
  define d where "d = T - n10"
  define q where "q = n9 / d"
  have d: "d < 0"
    using assms(1) by (simp add: d_def)
  have q: "0 < q"
    using assms(2) d by (simp add: q_def divide_neg_neg)
  have dq: "d * q = n9"
    using d by (simp add: q_def)
  have th: "th = n10 + d + q"
    by (simp add: th_def d_def q_def)
  have "(n10 + th)\<^sup>2 - 4 * (n9 + n10 * th) = (d + q)\<^sup>2 - 4 * (d * q)"
    by (simp add: th dq [symmetric] power2_eq_square algebra_simps)
  also have "\<dots> = (d - q)\<^sup>2"
    by (simp add: power2_eq_square algebra_simps)
  finally have inner: "(n10 + th)\<^sup>2 - 4 * (n9 + n10 * th) = (d - q)\<^sup>2" .
  then show "(n10 + th)\<^sup>2 - 4 * (n9 + n10 * th) = (T - n10 - n9 / (T - n10))\<^sup>2"
    by (simp add: d_def q_def)
  have "sqrt ((d - q)\<^sup>2) = q - d"
    using d q by simp
  then have "0.5 * (n10 + th - sqrt ((n10 + th)\<^sup>2 - 4 * (n9 + n10 * th))) = 0.5 * (n10 + th - (q - d))"
    by (simp only: inner)
  also have "\<dots> = T"
    by (simp add: th d_def)
  finally show "0.5 * (n10 + th - sqrt ((n10 + th)\<^sup>2 - 4 * (n9 + n10 * th))) = T" .
qed


text \<open>The return trip under sign conditions on the coefficients and \<open>T\<close>.\<close>

lemma round_trip:
  fixes n :: coeffs and T :: real
  defines "th \<equiv> sat_theta n T"
  defines "x \<equiv> 2 * sat_C n T / (- sat_B n T + sqrt (sat_disc n T))"
  assumes T: "0 < T" "T < n 10" and n9: "n 9 < 0"
    and B: "sat_B n T < 0" and C: "0 < sat_C n T" and disc: "0 \<le> sat_disc n T"
    and K: "0 < 2 * (x\<^sup>2 + n 3 * x + n 6) * th + (n 1 * x\<^sup>2 + n 4 * x + n 7)"
    and L: "0 < (x\<^sup>2 + n 3 * x + n 6) * th + (n 1 * x\<^sup>2 + n 4 * x + n 7)"
  shows "SaturationPressure (Inr n) T = Inr (1000000 * x ^ 4)"
    and "SaturationTemperature (Inr n) (1000000 * x ^ 4) = Inr T"
proof -
  let ?p = "1000000 * x ^ 4"
  show "SaturationPressure (Inr n) T = Inr ?p"
    using T(1) disc by (simp add: SaturationPressure_unfold x_def)
  have disc': "0 \<le> (sat_B n T)\<^sup>2 - 4 * sat_A n T * sat_C n T"
    using disc by (simp add: sat_disc_def)
  have x': "x = 2 * sat_C n T / (- sat_B n T + sqrt ((sat_B n T)\<^sup>2 - 4 * sat_A n T * sat_C n T))"
    by (simp add: x_def sat_disc_def)
  have x0: "0 < x" and root: "sat_A n T * x\<^sup>2 + sat_B n T * x + sat_C n T = 0"
    unfolding x' using B C disc' by (rule forward_root)+
  have p0: "0 < ?p"
    using x0 by simp
  have beta: "inv_beta ?p = x"
    using fourth_root_of_fourth_power [OF x0] by (simp add: inv_beta_def)
  define E where "E = x\<^sup>2 + n 3 * x + n 6"
  define F where "F = n 1 * x\<^sup>2 + n 4 * x + n 7"
  define G where "G = n 2 * x\<^sup>2 + n 5 * x + n 8"
  have E: "inv_E n ?p = E" and F: "inv_F n ?p = F" and G: "inv_G n ?p = G"
    by (simp_all only: inv_E_def inv_F_def inv_G_def beta E_def F_def G_def)
  have "E * th\<^sup>2 + F * th + G = sat_A n T * x\<^sup>2 + sat_B n T * x + sat_C n T"
    by (simp add: E_def F_def G_def sat_A_def sat_B_def sat_C_def th_def power2_eq_square algebra_simps)
  then have eq: "E * th\<^sup>2 + F * th + G = 0"
    by (simp only: root)
  have K': "0 < 2 * E * th + F" and L': "0 < E * th + F"
    using K L by (simp_all add: E_def F_def)
  have d: "F\<^sup>2 - 4 * E * G = (2 * E * th + F)\<^sup>2"
    and D: "2 * G / (- F - sqrt (F\<^sup>2 - 4 * E * G)) = th"
    using eq K' L' by (rule backward_root)+
  have idisc: "inv_disc n ?p = (2 * E * th + F)\<^sup>2"
    by (simp only: inv_disc_def E F G d)
  have iD: "inv_D n ?p = th"
    by (simp only: inv_D_def inv_disc_def E F G D)
  have th: "th = T + n 9 / (T - n 10)"
    by (simp add: th_def sat_theta_def)
  have inner: "(n 10 + th)\<^sup>2 - 4 * (n 9 + n 10 * th) = (T - n 10 - n 9 / (T - n 10))\<^sup>2"
    and res: "0.5 * (n 10 + th - sqrt ((n 10 + th)\<^sup>2 - 4 * (n 9 + n 10 * th))) = T"
    unfolding th using T(2) n9 by (rule temperature_of_theta)+
  have iinner: "inv_inner n ?p = (T - n 10 - n 9 / (T - n 10))\<^sup>2"
    by (simp only: inv_inner_def iD inner)
  have "\<not> ?p \<le> 0" "\<not> inv_disc n ?p < 0" "\<not> inv_inner n ?p < 0"
    using p0 by (simp_all only: idisc iinner not_less not_le zero_le_power2)
  moreover have "0.5 * (n 10 + inv_D n ?p - sqrt (inv_inner n ?p)) = T"
    using res by (simp only: iD inv_inner_def)
  ultimately show "SaturationTemperature (Inr n) ?p = Inr T"
    by (simp only: SaturationTemperature_unfold if_False)
qed


text \<open>Signs of a quadratic on a half line and on an interval.\<close>

lemma quad_neg_left:
  fixes a b c x t :: real
  assumes "x \<le> t" "a \<le> 0" "0 \<le> 2 * a * t + b" "a * t\<^sup>2 + b * t + c < 0"
  shows "a * x\<^sup>2 + b * x + c < 0"
proof -
  have "a * (x - t)\<^sup>2 \<le> 0"
    using assms(2) by (intro mult_nonpos_nonneg) simp_all
  moreover have "(2 * a * t + b) * (x - t) \<le> 0"
    using assms(1,3) by (intro mult_nonneg_nonpos) simp_all
  ultimately have "a * (x - t)\<^sup>2 + (2 * a * t + b) * (x - t) + (a * t\<^sup>2 + b * t + c) < 0"
    using assms(4) by linarith
  then show ?thesis
    by (simp only: quad_shift [of a x b c t])
qed

lemma quad_pos_right:
  fixes a b c x t :: real
  assumes "t \<le> x" "0 \<le> a" "0 \<le> 2 * a * t + b" "0 < a * t\<^sup>2 + b * t + c"
  shows "0 < a * x\<^sup>2 + b * x + c"
proof -
  have "0 \<le> a * (x - t)\<^sup>2"
    using assms(2) by (intro mult_nonneg_nonneg) simp_all
  moreover have "0 \<le> (2 * a * t + b) * (x - t)"
    using assms(1,3) by (intro mult_nonneg_nonneg) simp_all
  ultimately have "0 < a * (x - t)\<^sup>2 + (2 * a * t + b) * (x - t) + (a * t\<^sup>2 + b * t + c)"
    using assms(4) by linarith
  then show ?thesis
    by (simp only: quad_shift [of a x b c t])
qed

lemma quad_pos_between:
  fixes a b c x l u :: real
  assumes "l \<le> x" "x \<le> u" "a \<le> 0" "0 < a * l\<^sup>2 + b * l + c" "0 < a * u\<^sup>2 + b * u + c"
  shows "0 < a * x\<^sup>2 + b * x + c"
proof (cases "l = u")
  case True
  with assms(1,2) have "x = l" by simp
  with assms(4) show ?thesis by simp
next
  case False
  with assms(1,2) have lu: "0 < u - l" by simp
  have id: "(u - l) * (a * x\<^sup>2 + b * x + c)
      = (- a) * ((u - l) * ((x - l) * (u - x))) + (a * l\<^sup>2 + b * l + c) * (u - x)
        + (a * u\<^sup>2 + b * u + c) * (x - l)"
    by (simp add: power2_eq_square algebra_simps)
  have 1: "0 \<le> (- a) * ((u - l) * ((x - l) * (u - x)))"
    using assms(1,2,3) lu by (intro mult_nonneg_nonneg) simp_all
  have 2: "0 \<le> (a * l\<^sup>2 + b * l + c) * (u - x)"
    using assms(2,4) by (intro mult_nonneg_nonneg) simp_all
  have 3: "0 \<le> (a * u\<^sup>2 + b * u + c) * (x - l)"
    using assms(1,5) by (intro mult_nonneg_nonneg) simp_all
  have "0 < (a * l\<^sup>2 + b * l + c) * (u - x) \<or> 0 < (a * u\<^sup>2 + b * u + c) * (x - l)"
  proof (cases "x < u")
    case True
    with assms(4) have "0 < (a * l\<^sup>2 + b * l + c) * (u - x)"
      by (intro mult_pos_pos) simp_all
    then show ?thesis ..
  next
    case False
    with assms(2) lu have "0 < x - l" by simp
    with assms(5) have "0 < (a * u\<^sup>2 + b * u + c) * (x - l)"
      by (intro mult_pos_pos) simp_all
    then show ?thesis ..
  qed
  with 1 2 3 have "0 < (u - l) * (a * x\<^sup>2 + b * x + c)"
    unfolding id by linarith
  with lu show ?thesis
    by (simp add: zero_less_mult_iff)
qed

text \<open>On the saturation range \<open>\<theta>\<close> stays between 273 and 648.\<close>

lemma sat_theta_range:
  assumes "273.16 \<le> T" "T \<le> 647.096"
  shows "273 \<le> sat_theta n_IF97 T" "sat_theta n_IF97 T \<le> 648"
proof -
  define d where "d = T - 650.17534844798"
  define q where "q = (- 0.23855557567849) / d"
  have d: "d \<le> - 3"
    using assms(2) by (simp add: d_def)
  have "0 \<le> q"
    unfolding q_def using d by (intro divide_nonpos_neg) simp_all
  moreover have "q \<le> 1 / 10"
  proof -
    have "d < 0" "1 / 10 * d \<le> - 0.23855557567849"
      using d by simp_all
    then show ?thesis
      unfolding q_def by (simp only: neg_divide_le_eq)
  qed
  moreover have "sat_theta n_IF97 T = T + q"
    by (simp add: sat_theta_def n_IF97_simps q_def d_def)
  ultimately show "273 \<le> sat_theta n_IF97 T" "sat_theta n_IF97 T \<le> 648"
    using assms by simp_all
qed


text \<open>The forward discriminant: at \<open>\<beta> = 3\<close> the quadratic \<open>A \<beta>\<^sup>2 + B \<beta> + C\<close> is negative for
  \<open>\<theta> \<le> 648\<close>, so it has a real root where \<open>A > 0\<close>; where \<open>A \<le> 0\<close> the discriminant is a sum of
  non-negative terms.\<close>

lemma sat_disc_nonneg:
  assumes "sat_theta n_IF97 T \<le> 648"
  shows "0 \<le> sat_disc n_IF97 T"
proof -
  define th where "th = sat_theta n_IF97 T"
  define A where "A = sat_A n_IF97 T"
  define B where "B = sat_B n_IF97 T"
  define C where "C = sat_C n_IF97 T"
  have C: "0 < C"
    unfolding C_def by (rule sat_C_pos)
  have disc: "sat_disc n_IF97 T = B\<^sup>2 - 4 * A * C"
    by (simp add: sat_disc_def A_def B_def C_def)
  show ?thesis
  proof (cases "A \<le> 0")
    case True
    then have "0 \<le> (- A) * C"
      using C by (intro mult_nonneg_nonneg) simp_all
    moreover have "0 \<le> B\<^sup>2"
      by simp
    ultimately show ?thesis
      unfolding disc by linarith
  next
    case False
    have "9 * A + 3 * B + C
        = (9 + 3 * n_IF97 3 + n_IF97 6) * th\<^sup>2 + (9 * n_IF97 1 + 3 * n_IF97 4 + n_IF97 7) * th
          + (9 * n_IF97 2 + 3 * n_IF97 5 + n_IF97 8)"
      by (simp add: A_def B_def C_def sat_A_def sat_B_def sat_C_def th_def algebra_simps)
    moreover have "(9 + 3 * n_IF97 3 + n_IF97 6) * th\<^sup>2 + (9 * n_IF97 1 + 3 * n_IF97 4 + n_IF97 7) * th
          + (9 * n_IF97 2 + 3 * n_IF97 5 + n_IF97 8) < 0"
      by (rule quad_neg_left [where t = 648]) (use assms in \<open>simp_all add: th_def n_IF97_simps\<close>)
    ultimately have "9 * A + 3 * B + C < 0"
      by simp
    with False have "0 \<le> A * (- (9 * A + 3 * B + C))"
      by (intro mult_nonneg_nonneg) simp_all
    moreover have "B\<^sup>2 - 4 * A * C = (6 * A + B)\<^sup>2 + 4 * (A * (- (9 * A + 3 * B + C)))"
      by (simp add: power2_eq_square algebra_simps)
    moreover have "0 \<le> (6 * A + B)\<^sup>2"
      by simp
    ultimately show ?thesis
      unfolding disc by linarith
  qed
qed

text \<open>The backward discriminant is the square of \<open>2 E \<theta> + F\<close>, which is positive for every
  \<open>\<beta>\<close> when \<open>273 \<le> \<theta> \<le> 648\<close>.\<close>

lemma backward_slope_pos:
  fixes th x :: real
  assumes "273 \<le> th" "th \<le> 648"
  shows "0 < 2 * (x\<^sup>2 + n_IF97 3 * x + n_IF97 6) * th + (n_IF97 1 * x\<^sup>2 + n_IF97 4 * x + n_IF97 7)"
proof -
  define a where "a = 2 * th + n_IF97 1"
  define b where "b = 2 * n_IF97 3 * th + n_IF97 4"
  define c where "c = 2 * n_IF97 6 * th + n_IF97 7"
  have a: "0 < a"
    using assms(1) by (simp add: a_def n_IF97_simps)
  have "0 < (16 * n_IF97 6 - 4 * (n_IF97 3)\<^sup>2) * th\<^sup>2
      + (8 * n_IF97 7 + 8 * n_IF97 1 * n_IF97 6 - 4 * n_IF97 3 * n_IF97 4) * th
      + (4 * n_IF97 1 * n_IF97 7 - (n_IF97 4)\<^sup>2)"
    by (rule quad_pos_between [where l = 273 and u = 648])
      (use assms in \<open>simp_all add: n_IF97_simps power2_eq_square\<close>)
  moreover have "4 * a * c - b\<^sup>2 = (16 * n_IF97 6 - 4 * (n_IF97 3)\<^sup>2) * th\<^sup>2
      + (8 * n_IF97 7 + 8 * n_IF97 1 * n_IF97 6 - 4 * n_IF97 3 * n_IF97 4) * th
      + (4 * n_IF97 1 * n_IF97 7 - (n_IF97 4)\<^sup>2)"
    by (simp add: a_def b_def c_def power2_eq_square algebra_simps)
  ultimately have "b\<^sup>2 < 4 * a * c"
    by simp
  with a have "0 < a * x\<^sup>2 + b * x + c"
    by (rule quad_pos)
  moreover have "2 * (x\<^sup>2 + n_IF97 3 * x + n_IF97 6) * th + (n_IF97 1 * x\<^sup>2 + n_IF97 4 * x + n_IF97 7)
      = a * x\<^sup>2 + b * x + c"
    by (simp add: a_def b_def c_def power2_eq_square algebra_simps)
  ultimately show ?thesis
    by simp
qed


text \<open>At the root \<open>\<beta>\<close> of the forward equation \<open>E \<theta> + F\<close> is positive: for \<open>\<theta> \<ge> 324\<close> its three
  coefficients in \<open>\<beta>\<close> are positive; below, \<open>A < 0\<close> and the quadratic is still positive at
  \<open>\<beta> = 0.13\<close>, so the root lies above \<open>0.13\<close>.\<close>

lemma backward_value_pos:
  fixes th x :: real
  assumes "273 \<le> th" "th \<le> 648" "0 < x"
    and root: "(th\<^sup>2 + n_IF97 1 * th + n_IF97 2) * x\<^sup>2 + (n_IF97 3 * th\<^sup>2 + n_IF97 4 * th + n_IF97 5) * x
      + (n_IF97 6 * th\<^sup>2 + n_IF97 7 * th + n_IF97 8) = 0"
  shows "0 < (x\<^sup>2 + n_IF97 3 * x + n_IF97 6) * th + (n_IF97 1 * x\<^sup>2 + n_IF97 4 * x + n_IF97 7)"
proof -
  define c2 where "c2 = th + n_IF97 1"
  define c1 where "c1 = n_IF97 3 * th + n_IF97 4"
  define c0 where "c0 = n_IF97 6 * th + n_IF97 7"
  have id: "(x\<^sup>2 + n_IF97 3 * x + n_IF97 6) * th + (n_IF97 1 * x\<^sup>2 + n_IF97 4 * x + n_IF97 7)
      = c2 * x\<^sup>2 + c1 * x + c0"
    by (simp add: c2_def c1_def c0_def power2_eq_square algebra_simps)
  have c2: "0 < c2" and c1: "0 < c1"
    using assms(1,2) by (simp_all add: c2_def c1_def n_IF97_simps)
  have x2: "0 < x\<^sup>2"
    using assms(3) by simp
  show ?thesis
  proof (cases "324 \<le> th")
    case True
    then have "0 < c0"
      by (simp add: c0_def n_IF97_simps)
    moreover have "0 < c2 * x\<^sup>2" "0 < c1 * x"
      using c2 c1 x2 assms(3) by simp_all
    ultimately show ?thesis
      unfolding id by linarith
  next
    case False
    define A where "A = th\<^sup>2 + n_IF97 1 * th + n_IF97 2"
    define B where "B = n_IF97 3 * th\<^sup>2 + n_IF97 4 * th + n_IF97 5"
    define C where "C = n_IF97 6 * th\<^sup>2 + n_IF97 7 * th + n_IF97 8"
    define b0 :: real where "b0 = 13 / 100"
    have b0: "0 < b0"
      by (simp add: b0_def)
    have "th * th \<le> 324 * th"
      using assms(1) False by (intro mult_right_mono) simp_all
    then have A: "A < 0"
      using False by (simp add: A_def n_IF97_simps power2_eq_square)
    have C: "0 < C"
      unfolding C_def n_IF97_simps by (rule quad_pos) (simp_all add: power2_eq_square)
    have "0 < (b0\<^sup>2 + n_IF97 3 * b0 + n_IF97 6) * th\<^sup>2 + (n_IF97 1 * b0\<^sup>2 + n_IF97 4 * b0 + n_IF97 7) * th
        + (n_IF97 2 * b0\<^sup>2 + n_IF97 5 * b0 + n_IF97 8)"
      by (rule quad_pos_right [where t = 273])
        (use assms(1) in \<open>simp_all add: b0_def n_IF97_simps power2_eq_square\<close>)
    moreover have "A * b0\<^sup>2 + B * b0 + C
        = (b0\<^sup>2 + n_IF97 3 * b0 + n_IF97 6) * th\<^sup>2 + (n_IF97 1 * b0\<^sup>2 + n_IF97 4 * b0 + n_IF97 7) * th
        + (n_IF97 2 * b0\<^sup>2 + n_IF97 5 * b0 + n_IF97 8)"
      by (simp add: A_def B_def C_def power2_eq_square algebra_simps)
    ultimately have q0: "0 < A * b0\<^sup>2 + B * b0 + C"
      by simp
    have rt: "A * x\<^sup>2 + B * x + C = 0"
      using root by (simp add: A_def B_def C_def)
    have above: "b0 < x"
    proof (rule ccontr)
      assume "\<not> b0 < x"
      then have le: "x \<le> b0" by simp
      have 1: "0 \<le> (b0 - x) * C"
        using le C by (intro mult_nonneg_nonneg) simp_all
      have 2: "0 < x * (A * b0\<^sup>2 + B * b0 + C)"
        using assms(3) q0 by (rule mult_pos_pos)
      have "0 \<le> (- A) * (x * ((b0 - x) * b0))"
        using A assms(3) le b0 by (intro mult_nonneg_nonneg) simp_all
      then have 3: "0 \<le> A * x * (x - b0) * b0"
        by (simp add: algebra_simps)
      have "b0 * (A * x\<^sup>2 + B * x + C)
          = (b0 - x) * C + x * (A * b0\<^sup>2 + B * b0 + C) + A * x * (x - b0) * b0"
        by (simp add: power2_eq_square algebra_simps)
      with 1 2 3 have "0 < b0 * (A * x\<^sup>2 + B * x + C)"
        by linarith
      then show False
        by (simp add: rt)
    qed
    then have "b0\<^sup>2 \<le> x\<^sup>2"
      using b0 by (intro power_mono) simp_all
    then have "c2 * b0\<^sup>2 \<le> c2 * x\<^sup>2"
      using c2 by (intro mult_left_mono) simp_all
    moreover have "c1 * b0 \<le> c1 * x"
      using c1 above by (intro mult_left_mono) simp_all
    moreover have "0 < c2 * b0\<^sup>2 + c1 * b0 + c0"
    proof -
      define e where "e = b0\<^sup>2 + n_IF97 3 * b0 + n_IF97 6"
      define f where "f = n_IF97 1 * b0\<^sup>2 + n_IF97 4 * b0 + n_IF97 7"
      have "0 \<le> e"
        by (simp add: e_def b0_def n_IF97_simps power2_eq_square)
      then have "e * 273 \<le> e * th"
        using assms(1) by (rule mult_left_mono [rotated])
      moreover have "0 < e * 273 + f"
        by (simp add: e_def f_def b0_def n_IF97_simps power2_eq_square)
      moreover have "c2 * b0\<^sup>2 + c1 * b0 + c0 = e * th + f"
        by (simp add: c2_def c1_def c0_def e_def f_def power2_eq_square algebra_simps)
      ultimately show ?thesis
        by linarith
    qed
    ultimately show ?thesis
      unfolding id by linarith
  qed
qed

text \<open>
  C7.  With the coefficients of the IAPWS-IF97 release, for every \<open>T\<close> from \<open>273.16 K\<close> to
  \<open>647.096 K\<close> \<^verbatim>\<open>SaturationPressure\<close> succeeds and \<^verbatim>\<open>SaturationTemperature\<close> of its result
  succeeds and returns \<open>T\<close>: in exact arithmetic the backward equation undoes the forward one,
  so the relative error of the return trip is zero, below the 5 ppm of the specification.
  The five temperatures \<open>273.16\<close>, \<open>300\<close>, \<open>373.15\<close>, \<open>450\<close> and \<open>600 K\<close> are instances.
\<close>

theorem saturation_round_trip:
  assumes "273.16 \<le> T" "T \<le> 647.096"
  shows "\<exists>p. SaturationPressure (Inr n_IF97) T = Inr p
           \<and> SaturationTemperature (Inr n_IF97) p = Inr T
           \<and> (\<exists>T'. SaturationTemperature (Inr n_IF97) p = Inr T' \<and> \<bar>T' - T\<bar> \<le> 5 / 10 ^ 6 * T)"
proof -
  define th where "th = sat_theta n_IF97 T"
  define x where "x = 2 * sat_C n_IF97 T / (- sat_B n_IF97 T + sqrt (sat_disc n_IF97 T))"
  have th: "273 \<le> th" "th \<le> 648"
    unfolding th_def using assms by (rule sat_theta_range)+
  have T: "0 < T" "T < n_IF97 10" and n9: "n_IF97 9 < 0"
    using assms by (simp_all add: n_IF97_simps)
  have B: "sat_B n_IF97 T < 0"
    by (rule sat_B_neg)
  have C: "0 < sat_C n_IF97 T"
    by (rule sat_C_pos)
  have disc: "0 \<le> sat_disc n_IF97 T"
    using th(2) unfolding th_def by (rule sat_disc_nonneg)
  have disc': "0 \<le> (sat_B n_IF97 T)\<^sup>2 - 4 * sat_A n_IF97 T * sat_C n_IF97 T"
    using disc by (simp add: sat_disc_def)
  have x': "x = 2 * sat_C n_IF97 T
      / (- sat_B n_IF97 T + sqrt ((sat_B n_IF97 T)\<^sup>2 - 4 * sat_A n_IF97 T * sat_C n_IF97 T))"
    by (simp add: x_def sat_disc_def)
  have x0: "0 < x" and "sat_A n_IF97 T * x\<^sup>2 + sat_B n_IF97 T * x + sat_C n_IF97 T = 0"
    unfolding x' using B C disc' by (rule forward_root)+
  then have root: "(th\<^sup>2 + n_IF97 1 * th + n_IF97 2) * x\<^sup>2 + (n_IF97 3 * th\<^sup>2 + n_IF97 4 * th + n_IF97 5) * x
      + (n_IF97 6 * th\<^sup>2 + n_IF97 7 * th + n_IF97 8) = 0"
    by (simp add: sat_A_def sat_B_def sat_C_def th_def)
  have K: "0 < 2 * (x\<^sup>2 + n_IF97 3 * x + n_IF97 6) * th + (n_IF97 1 * x\<^sup>2 + n_IF97 4 * x + n_IF97 7)"
    using th by (rule backward_slope_pos)
  have L: "0 < (x\<^sup>2 + n_IF97 3 * x + n_IF97 6) * th + (n_IF97 1 * x\<^sup>2 + n_IF97 4 * x + n_IF97 7)"
    using th x0 root by (rule backward_value_pos)
  have fwd: "SaturationPressure (Inr n_IF97) T = Inr (1000000 * x ^ 4)"
    and bwd: "SaturationTemperature (Inr n_IF97) (1000000 * x ^ 4) = Inr T"
    unfolding x_def
    using T n9 B C disc K [unfolded x_def th_def] L [unfolded x_def th_def]
    by (rule round_trip)+
  have "\<bar>T - T\<bar> \<le> 5 / 10 ^ 6 * T"
    using T(1) by simp
  with bwd have "\<exists>T'. SaturationTemperature (Inr n_IF97) (1000000 * x ^ 4) = Inr T' \<and> \<bar>T' - T\<bar> \<le> 5 / 10 ^ 6 * T"
    by blast
  with fwd bwd show ?thesis
    by blast
qed

theorem saturation_round_trip_witness:
  "(\<exists>p. SaturationPressure (Inr n_IF97) 273.16 = Inr p
        \<and> SaturationTemperature (Inr n_IF97) p = Inr 273.16)
   \<and> (\<exists>p. SaturationPressure (Inr n_IF97) 300 = Inr p
        \<and> SaturationTemperature (Inr n_IF97) p = Inr 300)
   \<and> (\<exists>p. SaturationPressure (Inr n_IF97) 373.15 = Inr p
        \<and> SaturationTemperature (Inr n_IF97) p = Inr 373.15)
   \<and> (\<exists>p. SaturationPressure (Inr n_IF97) 450 = Inr p
        \<and> SaturationTemperature (Inr n_IF97) p = Inr 450)
   \<and> (\<exists>p. SaturationPressure (Inr n_IF97) 600 = Inr p
        \<and> SaturationTemperature (Inr n_IF97) p = Inr 600)"
proof -
  have a: "(273.16::real) \<le> 273.16" "(273.16::real) \<le> 647.096"
    and b: "(273.16::real) \<le> 300" "(300::real) \<le> 647.096"
    and c: "(273.16::real) \<le> 373.15" "(373.15::real) \<le> 647.096"
    and d: "(273.16::real) \<le> 450" "(450::real) \<le> 647.096"
    and e: "(273.16::real) \<le> 600" "(600::real) \<le> 647.096"
    by simp_all
  from saturation_round_trip [OF a] saturation_round_trip [OF b] saturation_round_trip [OF c]
    saturation_round_trip [OF d] saturation_round_trip [OF e]
  show ?thesis
    by blast
qed

end
